(* ===== verification/Prelude.thy ===== *)
theory Prelude
  imports Main "HOL-Library.Word"
begin

text \<open>
  Shared vocabulary of the development: the names of the machine integers the crate
  uses, Rust's \<open>Result\<close> with the sequencing that \<open>?\<close> gives it, the casts between
  integer widths, and the arithmetic of a power-of-two ring: what masking a free-running
  index does, and that a window of at most the ring's capacity never visits a slot twice.
  The three rings of the crate (submission queue, completion queue, provided-buffer
  ring) all use the lemmas on \<open>ring_window\<close> below.
\<close>

unbundle bit_operations_syntax

named_theorems ring_simps \<open>simplification rules for masked ring indices\<close>
named_theorems unfold_ops \<open>unfolding equations of the operations of a component\<close>
named_theorems result_simps \<open>simplification rules for results and their sequencing\<close>

section \<open>Machine integers\<close>

type_synonym u8 = "8 word"
type_synonym u16 = "16 word"
type_synonym u32 = "32 word"
type_synonym u64 = "64 word"
type_synonym usize = "64 word"

text \<open>
  Signed integers are the same words, read in two's complement by \<open>sint\<close>. The crate is
  modelled for its 64-bit targets: \<open>usize\<close> and \<open>isize\<close> have 64 bits.
\<close>

type_synonym i32 = "32 word"
type_synonym i64 = "64 word"
type_synonym isize = "64 word"

section \<open>Results\<close>

text \<open>Rust's \<open>Result\<close>; \<open>and_then\<close> is what \<open>?\<close> does between two fallible steps.\<close>

datatype ('a, 'e) result = Ok 'a | Err 'e

fun and_then :: "('a, 'e) result \<Rightarrow> ('a \<Rightarrow> ('b, 'e) result) \<Rightarrow> ('b, 'e) result" where
  "and_then (Ok x) f = f x"
| "and_then (Err e) f = Err e"

fun map_err :: "('e \<Rightarrow> 'f) \<Rightarrow> ('a, 'e) result \<Rightarrow> ('a, 'f) result" where
  "map_err g (Ok x) = Ok x"
| "map_err g (Err e) = Err (g e)"

fun map_ok :: "('a \<Rightarrow> 'b) \<Rightarrow> ('a, 'e) result \<Rightarrow> ('b, 'e) result" where
  "map_ok g (Ok x) = Ok (g x)"
| "map_ok g (Err e) = Err e"

fun is_ok :: "('a, 'e) result \<Rightarrow> bool" where
  "is_ok (Ok x) = True"
| "is_ok (Err e) = False"

fun ok_or :: "'e \<Rightarrow> 'a option \<Rightarrow> ('a, 'e) result" where
  "ok_or e None = Err e"
| "ok_or e (Some x) = Ok x"

lemma map_err_eq_Ok [simp, result_simps]: "map_err g r = Ok x \<longleftrightarrow> r = Ok x"
  by (cases r) auto

lemma map_err_eq_Err [simp, result_simps]: "map_err g r = Err e \<longleftrightarrow> (\<exists>e'. r = Err e' \<and> e = g e')"
  by (cases r) auto

lemma map_ok_eq_Err [simp, result_simps]: "map_ok g r = Err e \<longleftrightarrow> r = Err e"
  by (cases r) auto

lemma map_ok_eq_Ok [simp, result_simps]: "map_ok g r = Ok y \<longleftrightarrow> (\<exists>x. r = Ok x \<and> y = g x)"
  by (cases r) auto

lemma ok_or_eq_Ok [simp, result_simps]: "ok_or e v = Ok x \<longleftrightarrow> v = Some x"
  by (cases v) auto

lemma ok_or_eq_Err [simp, result_simps]: "ok_or e v = Err e' \<longleftrightarrow> v = None \<and> e' = e"
  by (cases v) auto

lemma and_then_eq_Ok [simp, result_simps]: "and_then r f = Ok y \<longleftrightarrow> (\<exists>x. r = Ok x \<and> f x = Ok y)"
  by (cases r) auto

lemma is_ok_iff [result_simps]: "is_ok r \<longleftrightarrow> (\<exists>x. r = Ok x)"
  by (cases r) auto

section \<open>Powers of two\<close>

text \<open>
  \<open>pow2_mask k m\<close>: the mask \<open>m\<close> of a ring with \<open>2 ^ k\<close> slots. The kernel's rings hold
  at most \<open>2 ^ 31\<close> slots, so the capacity \<open>m + 1\<close> does not wrap.
\<close>

definition pow2_mask :: "nat \<Rightarrow> 'a::len word \<Rightarrow> bool" where
  "pow2_mask k m \<longleftrightarrow> k < LENGTH('a) \<and> m = mask k"

lemma unat_exp: "k < LENGTH('a) \<Longrightarrow> unat (2 ^ k :: 'a::len word) = 2 ^ k"
  by transfer (simp add: take_bit_eq_mod flip: nat_power_eq)

lemma pow2_mask_capacity: "pow2_mask k (m :: 'a::len word) \<Longrightarrow> unat (m + 1) = 2 ^ k"
proof -
  assume "pow2_mask k m"
  then have k: "k < LENGTH('a)" and m: "m = mask k" by (auto simp: pow2_mask_def)
  have "m + 1 = (2 ^ k :: 'a word)" by (simp add: m mask_eq_exp_minus_1)
  then show ?thesis using k by (simp add: unat_exp)
qed

lemma unat_take_bit_mod: "unat (take_bit k (x :: 'a::len word)) = unat x mod 2 ^ k"
  unfolding unsigned_take_bit_eq by (rule take_bit_eq_mod)

lemma unat_and_mask_mod:
  "pow2_mask k m \<Longrightarrow> unat (x AND m) = unat (x :: 'a::len word) mod 2 ^ k"
  by (simp add: pow2_mask_def unat_take_bit_mod flip: take_bit_eq_mask)

lemma unat_add_of_nat_mod:
  assumes "k < LENGTH('a)"
  shows "unat (h + of_nat i :: 'a::len word) mod 2 ^ k = (unat h + i) mod 2 ^ k"
proof -
  have "unat (h + of_nat i) = (unat h + i) mod 2 ^ LENGTH('a)"
    by (simp add: unat_word_ariths unat_of_nat mod_add_right_eq)
  moreover have "(2::nat) ^ k dvd 2 ^ LENGTH('a)"
    using assms by (intro le_imp_power_dvd) simp
  ultimately show ?thesis by (simp add: mod_mod_cancel)
qed

lemma ring_slot [ring_simps]:
  "pow2_mask k m \<Longrightarrow> unat ((h + of_nat i :: 'a::len word) AND m) = (unat h + i) mod 2 ^ k"
  by (subst unat_and_mask_mod, assumption) (simp add: unat_add_of_nat_mod pow2_mask_def)

lemma ring_slot_less [ring_simps]: "pow2_mask k m \<Longrightarrow> unat ((h :: 'a::len word) AND m) < 2 ^ k"
  by (simp add: unat_and_mask_mod)

lemma mod_add_inj_nat:
  fixes a i j n :: nat
  assumes "i < n" "j < n" "(a + i) mod n = (a + j) mod n"
  shows "i = j"
proof -
  have "int n dvd (int a + int i) - (int a + int j)"
    using assms(3) by (metis mod_eq_dvd_iff of_nat_add of_nat_mod)
  then have "int n dvd int i - int j" by simp
  then have "int i mod int n = int j mod int n" by (simp add: mod_eq_dvd_iff)
  then show "i = j" using assms(1,2) by (metis mod_less of_nat_eq_iff of_nat_mod)
qed

lemma ring_slot_inj:
  assumes "pow2_mask k m" "i < 2 ^ k" "j < 2 ^ k"
    and "((h :: 'a::len word) + of_nat i) AND m = (h + of_nat j) AND m"
  shows "i = j"
proof -
  have "(unat h + i) mod 2 ^ k = (unat h + j) mod 2 ^ k"
    using assms(4) ring_slot [OF assms(1), of h i] ring_slot [OF assms(1), of h j] by simp
  with assms(2,3) show ?thesis by (rule mod_add_inj_nat)
qed

section \<open>Windows of a ring\<close>

text \<open>
  \<open>ring_window a m h n\<close>: the \<open>n\<close> entries of the slot array \<open>a\<close> from the free-running
  index \<open>h\<close> on, each at its index masked with \<open>m\<close>. It is what the consumer of a ring
  reads between its head \<open>h\<close> and the producer's tail \<open>h + n\<close>.
\<close>

definition ring_window :: "'e list \<Rightarrow> 'a::len word \<Rightarrow> 'a word \<Rightarrow> nat \<Rightarrow> 'e list" where
  "ring_window a m h n = map (\<lambda>i. a ! unat ((h + of_nat i) AND m)) [0..<n]"

lemma length_ring_window [simp]: "length (ring_window a m h n) = n"
  by (simp add: ring_window_def)

lemma ring_window_0 [simp]: "ring_window a m h 0 = []"
  by (simp add: ring_window_def)

lemma ring_window_nth:
  "i < n \<Longrightarrow> ring_window a m h n ! i = a ! unat ((h + of_nat i) AND m)"
  by (simp add: ring_window_def)

lemma ring_window_Suc:
  "ring_window a m h (Suc n) = (a ! unat (h AND m)) # ring_window a m (h + 1) n"
proof -
  have "[0..<Suc n] = 0 # map Suc [0..<n]" by (simp add: upt_conv_Cons map_Suc_upt del: upt_Suc)
  then show ?thesis by (simp add: ring_window_def add.assoc del: upt_Suc)
qed

lemma ring_window_snoc:
  "ring_window a m h (Suc n) = ring_window a m h n @ [a ! unat ((h + of_nat n) AND m)]"
  by (simp add: ring_window_def)

lemma ring_window_drop:
  "c \<le> n \<Longrightarrow> ring_window a m (h + of_nat c) (n - c) = drop c (ring_window a m h n)"
  by (rule nth_equalityI) (simp_all add: ring_window_nth add.assoc)

lemma ring_window_take: "ring_window a m h (min c n) = take c (ring_window a m h n)"
  by (rule nth_equalityI) (simp_all add: ring_window_nth)

lemma ring_window_cong:
  "(\<And>i. i < n \<Longrightarrow> a ! unat ((h + of_nat i) AND m) = b ! unat ((h + of_nat i) AND m)) \<Longrightarrow>
   ring_window a m h n = ring_window b m h n"
  by (simp add: ring_window_def)

text \<open>Writing the slot just past a window that is not full leaves the window alone.\<close>

lemma ring_window_update_past:
  assumes "pow2_mask k m" "n < 2 ^ k"
  shows "ring_window (a[unat ((h + of_nat n) AND m) := x]) m h n = ring_window a m h n"
proof (rule ring_window_cong)
  fix i assume "i < n"
  then have "(h + of_nat i) AND m \<noteq> (h + of_nat n) AND m"
    using ring_slot_inj [OF assms(1), of i n h] assms(2) by auto
  then show "a[unat ((h + of_nat n) AND m) := x] ! unat ((h + of_nat i) AND m)
           = a ! unat ((h + of_nat i) AND m)"
    by (intro nth_list_update_neq) (metis word_unat_eq_iff)
qed

text \<open>The producer's step: write at the tail slot, extend the window by one.\<close>

lemma ring_window_push:
  assumes "pow2_mask k m" "n < 2 ^ k" "length a = 2 ^ k"
  shows "ring_window (a[unat ((h + of_nat n) AND m) := x]) m h (Suc n) = ring_window a m h n @ [x]"
proof -
  have "unat ((h + of_nat n) AND m) < length a"
    using ring_slot_less [OF assms(1), of "h + of_nat n"] assms(3) by simp
  then show ?thesis
    by (simp add: ring_window_snoc ring_window_update_past [OF assms(1,2)])
qed

section \<open>Distances between free-running indices\<close>

lemma of_nat_unat_diff [simp]: "(h :: 'a::len word) + of_nat (unat (t - h)) = t"
  by simp

lemma unat_diff_zero_iff [simp]: "unat ((t :: 'a::len word) - h) = 0 \<longleftrightarrow> t = h"
  by (simp add: unat_eq_0)

lemma unat_Suc_no_wrap:
  "unat (w :: 'a::len word) < 2 ^ k \<Longrightarrow> k < LENGTH('a) \<Longrightarrow> unat (w + 1) = Suc (unat w)"
proof -
  assume a: "unat w < 2 ^ k" and k: "k < LENGTH('a)"
  have "(2::nat) ^ k < 2 ^ LENGTH('a)" using k by simp
  with a have "Suc (unat w) < 2 ^ LENGTH('a)" by linarith
  then show ?thesis by (simp add: unat_word_ariths)
qed

lemma unat_tail_step:
  assumes "unat ((t :: 'a::len word) - h) < 2 ^ k" "k < LENGTH('a)"
  shows "unat (t + 1 - h) = Suc (unat (t - h))"
  using unat_Suc_no_wrap [OF assms] by (simp add: algebra_simps)

lemma unat_head_step:
  assumes "(t :: 'a::len word) \<noteq> h"
  shows "Suc (unat (t - (h + 1))) = unat (t - h)"
proof -
  have "t - h \<noteq> 0" using assms by simp
  then have "unat (t - h - 1) = unat (t - h) - 1" and "0 < unat (t - h)"
    by (auto simp: unat_minus_one unat_gt_0)
  then show ?thesis by (simp add: algebra_simps)
qed

lemma unat_head_advance:
  assumes "c \<le> unat ((t :: 'a::len word) - h)"
  shows "unat (t - (h + of_nat c)) = unat (t - h) - c"
proof -
  have "c < 2 ^ LENGTH('a)" using assms unsigned_less [of "t - h", where 'a = nat] by linarith
  then have c: "unat (of_nat c :: 'a word) = c" by (simp add: unat_of_nat)
  have "unat (t - h - of_nat c) = unat (t - h) - unat (of_nat c :: 'a word)"
    using assms c by (intro unat_sub) (simp add: word_le_nat_alt)
  then show ?thesis using c by (simp add: algebra_simps)
qed

lemma distinct_remove1_map:
  assumes "distinct (map f xs)" "x \<in> set xs"
  shows "distinct (map f (remove1 x xs)) \<and> set (map f (remove1 x xs)) = set (map f xs) - {f x}"
proof -
  obtain ys zs where xs: "xs = ys @ x # zs" "x \<notin> set ys" using assms(2) by (meson split_list_first)
  then have "remove1 x xs = ys @ zs" by (simp add: remove1_append)
  then show ?thesis using assms(1) xs by auto
qed

lemma unat_ucast_up [simp]: "unat (ucast (n :: u32) :: u64) = unat n"
proof -
  have "unat n < 2 ^ 64" using unsigned_less [of n, where 'a = nat] by simp
  then show ?thesis by (simp add: unsigned_ucast_eq take_bit_nat_eq_self)
qed

end
