(* ===== verification/Ring_Interface.thy ===== *)
theory Ring_Interface
  imports Prelude
begin

text \<open>
  The contract of one side of a ring shared with the kernel, as two locales. A
  \<open>ring_producer\<close> writes entries and publishes them while the other side takes entries
  from the front; a \<open>ring_consumer\<close> takes entries from the front while the other side
  appends. The other side's moves are the relation \<open>env s xs s'\<close>, labelled with the
  entries \<open>xs\<close> that it read or wrote on the way: all the contract says is that a
  producer's environment read exactly the prefix it removed and a consumer's environment
  wrote exactly what it appended.

  The client lemmas, proved once here, say that over any interleaving of the owner's
  operations with the environment's moves no entry is lost, duplicated, altered or
  reordered. The submission queues of the unified and of the split ring are producers,
  the two completion queues are consumers.
\<close>

section \<open>Runs\<close>

text \<open>
  \<open>producer_run push publish env s acc tkn s'\<close>: some interleaving of successful and refused
  pushes, publications and environment moves leads from \<open>s\<close> to \<open>s'\<close>; \<open>acc\<close> lists the
  entries accepted on the way and \<open>tkn\<close> those the environment read.
  \<open>consumer_run pop release env s pst out s'\<close> is the mirror image: \<open>pst\<close> lists what the
  environment wrote and \<open>out\<close> what the owner popped.
\<close>

inductive producer_run ::
  "('e \<Rightarrow> 's \<Rightarrow> bool \<times> 's) \<Rightarrow> ('s \<Rightarrow> 's) \<Rightarrow> ('s \<Rightarrow> 'e list \<Rightarrow> 's \<Rightarrow> bool) \<Rightarrow>
   's \<Rightarrow> 'e list \<Rightarrow> 'e list \<Rightarrow> 's \<Rightarrow> bool"
  for push publish env where
  run_start: "producer_run push publish env s [] [] s"
| run_push: "producer_run push publish env s acc tkn s' \<Longrightarrow> push x s' = (True, s'') \<Longrightarrow>
     producer_run push publish env s (acc @ [x]) tkn s''"
| run_refused: "producer_run push publish env s acc tkn s' \<Longrightarrow> push x s' = (False, s'') \<Longrightarrow>
     producer_run push publish env s acc tkn s''"
| run_publish: "producer_run push publish env s acc tkn s' \<Longrightarrow>
     producer_run push publish env s acc tkn (publish s')"
| run_env: "producer_run push publish env s acc tkn s' \<Longrightarrow> env s' xs s'' \<Longrightarrow>
     producer_run push publish env s acc (tkn @ xs) s''"

inductive consumer_run ::
  "('s \<Rightarrow> ('e \<times> 's) option) \<Rightarrow> ('s \<Rightarrow> 's) \<Rightarrow> ('s \<Rightarrow> 'e list \<Rightarrow> 's \<Rightarrow> bool) \<Rightarrow>
   's \<Rightarrow> 'e list \<Rightarrow> 'e list \<Rightarrow> 's \<Rightarrow> bool"
  for pop release env where
  crun_start: "consumer_run pop release env s [] [] s"
| crun_pop: "consumer_run pop release env s pst out s' \<Longrightarrow> pop s' = Some (x, s'') \<Longrightarrow>
     consumer_run pop release env s pst (out @ [x]) s''"
| crun_release: "consumer_run pop release env s pst out s' \<Longrightarrow>
     consumer_run pop release env s pst out (release s')"
| crun_env: "consumer_run pop release env s pst out s' \<Longrightarrow> env s' xs s'' \<Longrightarrow>
     consumer_run pop release env s (pst @ xs) out s''"

section \<open>The producer's contract\<close>

locale ring_producer =
  fixes inv :: "'s \<Rightarrow> bool"
    and queued :: "'s \<Rightarrow> 'e list"
    and cap :: "'s \<Rightarrow> nat"
    and push :: "'e \<Rightarrow> 's \<Rightarrow> bool \<times> 's"
    and publish :: "'s \<Rightarrow> 's"
    and env :: "'s \<Rightarrow> 'e list \<Rightarrow> 's \<Rightarrow> bool"
  assumes bounded: "inv s \<Longrightarrow> length (queued s) \<le> cap s"
    and push_room: "inv s \<Longrightarrow> length (queued s) < cap s \<Longrightarrow>
      \<exists>s'. push x s = (True, s') \<and> inv s' \<and> queued s' = queued s @ [x] \<and> cap s' = cap s"
    and push_full: "inv s \<Longrightarrow> length (queued s) = cap s \<Longrightarrow> push x s = (False, s)"
    and publish_keeps: "inv s \<Longrightarrow>
      inv (publish s) \<and> queued (publish s) = queued s \<and> cap (publish s) = cap s"
    and env_takes: "inv s \<Longrightarrow> env s xs s' \<Longrightarrow>
      inv s' \<and> cap s' = cap s \<and> queued s = xs @ queued s'"
begin

lemma push_cases:
  assumes "inv s"
  obtains s' where "length (queued s) < cap s" "push x s = (True, s')" "inv s'"
      "queued s' = queued s @ [x]" "cap s' = cap s"
  | "length (queued s) = cap s" "push x s = (False, s)"
  using bounded [OF assms] push_room [OF assms, of x] push_full [OF assms, of x]
  by (metis le_neq_implies_less)

lemma accepted_iff_room:
  assumes "inv s"
  shows "fst (push x s) \<longleftrightarrow> length (queued s) < cap s"
  using assms by (cases rule: push_cases [of s x]) auto

text \<open>What was accepted is what the environment took, in order, followed by what is queued.\<close>

lemma run_invariant:
  assumes "producer_run push publish env s acc tkn s'" "inv s"
  shows "inv s' \<and> cap s' = cap s \<and> queued s @ acc = tkn @ queued s'"
  using assms
proof (induction rule: producer_run.induct)
  case (run_push s acc tkn s' x s'')
  then have "inv s'" by simp
  then show ?case using run_push by (cases rule: push_cases [of s' x]) (auto simp flip: append_assoc)
next
  case (run_refused s acc tkn s' x s'')
  then have "inv s'" by simp
  then show ?case using run_refused by (cases rule: push_cases [of s' x]) auto
next
  case (run_publish s acc tkn s')
  then show ?case using publish_keeps by auto
next
  case (run_env s acc tkn s' xs s'')
  then show ?case using env_takes [of s' xs s''] by simp
qed simp

text \<open>The producer is never more than the ring's capacity ahead of its environment.\<close>

lemma run_length:
  assumes "producer_run push publish env s acc tkn s'" "inv s"
  shows "length (queued s) + length acc \<le> length tkn + cap s"
proof -
  have "inv s'" "cap s' = cap s" "length (queued s @ acc) = length (tkn @ queued s')"
    using run_invariant [OF assms] by simp_all
  then show ?thesis using bounded [of s'] by simp
qed

end

section \<open>The consumer's contract\<close>

locale ring_consumer =
  fixes inv :: "'s \<Rightarrow> bool"
    and pending :: "'s \<Rightarrow> 'e list"
    and pop :: "'s \<Rightarrow> ('e \<times> 's) option"
    and release :: "'s \<Rightarrow> 's"
    and env :: "'s \<Rightarrow> 'e list \<Rightarrow> 's \<Rightarrow> bool"
  assumes pop_none: "inv s \<Longrightarrow> pop s = None \<longleftrightarrow> pending s = []"
    and pop_some: "inv s \<Longrightarrow> pop s = Some (x, s') \<Longrightarrow> inv s' \<and> pending s = x # pending s'"
    and release_keeps: "inv s \<Longrightarrow> inv (release s) \<and> pending (release s) = pending s"
    and env_appends: "inv s \<Longrightarrow> env s xs s' \<Longrightarrow> inv s' \<and> pending s' = pending s @ xs"
begin

lemma pop_Cons:
  assumes "inv s" "pending s = x # xs"
  obtains s' where "pop s = Some (x, s')" "inv s'" "pending s' = xs"
proof -
  have "pop s \<noteq> None" using pop_none [OF assms(1)] assms(2) by simp
  then obtain y s' where p: "pop s = Some (y, s')" by auto
  then have "inv s'" "y = x" "pending s' = xs" using pop_some [OF assms(1) p] assms(2) by auto
  then show thesis using that p by blast
qed

text \<open>What was pending and posted is what was reaped, in order, followed by what is pending.\<close>

lemma run_invariant:
  assumes "consumer_run pop release env s pst out s'" "inv s"
  shows "inv s' \<and> pending s @ pst = out @ pending s'"
  using assms
proof (induction rule: consumer_run.induct)
  case (crun_pop s pst out s' x s'')
  then show ?case using pop_some [of s' x s''] by simp
next
  case (crun_release s pst out s')
  then show ?case using release_keeps by auto
next
  case (crun_env s pst out s' xs s'')
  then show ?case using env_appends [of s' xs s''] by (simp flip: append_assoc)
qed simp

end

end
