(* ===== verification/Errors.thy ===== *)
theory Errors
  imports Prelude
begin

text \<open>
  The crate's error values (\<open>src/error.rs\<close>) and the decoding of raw kernel results:
  \<open>check\<close> of \<open>src/syscall/mod.rs\<close>, which splits a syscall's return value into an errno
  and a result, and \<open>from_failed_cqe\<close>, which does the same for the result of a completion.
  The lemmas say which raw values are errors, that the errno read back is the one the
  kernel encoded, and that the two readings of a completion's result agree.
\<close>

section \<open>Error values\<close>

datatype Errno = Errno (errno_raw: i32)

definition ENOENT :: Errno where "ENOENT = Errno 2"
definition EAGAIN :: Errno where "EAGAIN = Errno 11"
definition EINVAL :: Errno where "EINVAL = Errno 22"

definition Errno_new :: "i32 \<Rightarrow> Errno" where
  "Errno_new raw = Errno raw"

datatype InvalidArgKind =
    BufferCountZero
  | BufferSizeZero
  | BufferCountNotPowerOfTwo
  | BufferCountTooLarge
  | BufferRingSizeOverflow
  | UnsupportedSetupFlags u32
  | IncompatibleSplit u32

datatype SubmitError = QueueFull | SubmitSyscall Errno

datatype CompletionError =
    NoCompletion
  | Failed Errno
  | UnexpectedCompletion (expected: u64) (found: u64)

datatype SetupError = InvalidArg InvalidArgKind | SetupSyscall Errno

datatype Error =
    Submit SubmitError
  | Completion_error CompletionError
  | Setup SetupError
  | Syscall Errno

text \<open>The \<open>From\<close> impls that \<open>?\<close> and \<open>into\<close> use.\<close>

definition Error_from_SubmitError :: "SubmitError \<Rightarrow> Error" where
  "Error_from_SubmitError e = Submit e"

definition Error_from_CompletionError :: "CompletionError \<Rightarrow> Error" where
  "Error_from_CompletionError e = Completion_error e"

definition Error_from_SetupError :: "SetupError \<Rightarrow> Error" where
  "Error_from_SetupError e = Setup e"

definition Error_from_Errno :: "Errno \<Rightarrow> Error" where
  "Error_from_Errno e = Syscall e"

definition from_failed_cqe :: "i32 \<Rightarrow> Error option" where
  "from_failed_cqe r =
     (if sint r < 0 then Some (Completion_error (Failed (Errno_new (- r)))) else None)"

definition cqe_is_ok :: "i32 \<Rightarrow> bool" where
  "cqe_is_ok r \<longleftrightarrow> sint r \<ge> 0"

section \<open>Decoding a syscall's return value\<close>

definition MAX_ERRNO :: int where "MAX_ERRNO = 4095"

definition check :: "isize \<Rightarrow> (usize, Errno) result" where
  "check ret =
     (if sint ret < 0 \<and> sint ret \<ge> - MAX_ERRNO then Err (Errno (ucast (- ret))) else Ok ret)"

text \<open>
  A \<open>Result<u32, Error>\<close> or \<open>Result<(), Error>\<close> read off a raw completion result: the
  body of every owned completion's \<open>result\<close> method.
\<close>

definition cqe_u32_result :: "i32 \<Rightarrow> (u32, Error) result" where
  "cqe_u32_result r = (case from_failed_cqe r of Some e \<Rightarrow> Err e | None \<Rightarrow> Ok r)"

definition cqe_unit_result :: "i32 \<Rightarrow> (unit, Error) result" where
  "cqe_unit_result r = (case from_failed_cqe r of Some e \<Rightarrow> Err e | None \<Rightarrow> Ok ())"

section \<open>Lemmas\<close>

lemmas error_from_defs [simp, unfold_ops] =
  Error_from_SubmitError_def Error_from_CompletionError_def
  Error_from_SetupError_def Error_from_Errno_def Errno_new_def

lemma from_failed_cqe_None_iff [simp]: "from_failed_cqe r = None \<longleftrightarrow> cqe_is_ok r"
  by (simp add: from_failed_cqe_def cqe_is_ok_def not_less)

lemma sint_uminus:
  fixes r :: "'a::len word"
  assumes "sint r \<noteq> - (2 ^ (LENGTH('a) - 1))"
  shows "sint (- r) = - sint r"
proof -
  have lo: "- (2 ^ (LENGTH('a) - 1)) \<le> sint r" and hi: "sint r < 2 ^ (LENGTH('a) - 1)"
    using sint_greater_eq [of r] sint_less [of r] by auto
  have "- r = word_of_int (- sint r)" by simp
  then have "sint (- r) = signed_take_bit (LENGTH('a) - 1) (- sint r)"
    by (simp only: sint_sbintrunc')
  also have "\<dots> = - sint r"
    by (rule signed_take_bit_int_eq_self) (use lo hi assms in linarith)+
  finally show ?thesis .
qed

lemma check_Err_iff: "(\<exists>e. check ret = Err e) \<longleftrightarrow> - 4095 \<le> sint ret \<and> sint ret < 0"
  by (auto simp: check_def MAX_ERRNO_def)

lemma check_Ok [simp]: "0 \<le> sint ret \<Longrightarrow> check ret = Ok ret"
  by (simp add: check_def)

lemma check_OkD: "check ret = Ok v \<Longrightarrow> v = ret"
  by (simp add: check_def split: if_splits)

lemma uint_uminus_small:
  fixes ret :: "64 word"
  assumes "- 4095 \<le> sint ret" "sint ret < 0"
  shows "uint (- ret) = - sint ret"
proof -
  have "- ret = word_of_int (- sint ret)" by simp
  then have "uint (- ret) = take_bit 64 (- sint ret)"
    by (simp only: uint_word_of_int_eq) simp
  also have "\<dots> = - sint ret" using assms by (intro take_bit_int_eq_self) auto
  finally show ?thesis .
qed

end
