(* ===== verification/Types.thy ===== *)
theory Types
  imports Errors
begin

text \<open>
  The kernel-domain types of \<open>src/types/\<close>: flag sets, opcodes, the submission entry with
  its union accessors, the completion entry with its flags, the setup parameters, file
  descriptors and durations. A flag set is the word it wraps; the operations that the
  \<open>bitflags!\<close> macro generates for every flag type are defined once, over any width.
\<close>

section \<open>Flag sets\<close>

definition contains :: "'a::len word \<Rightarrow> 'a word \<Rightarrow> bool" where
  "contains s flag \<longleftrightarrow> (s AND flag) = flag"

definition union_const :: "'a::len word \<Rightarrow> 'a word \<Rightarrow> 'a word" where
  "union_const s t = s OR t"

definition flags_empty :: "'a::len word" where
  "flags_empty = 0"

section \<open>Opcodes\<close>

datatype Opcode =
    Op_Nop
  | Op_Readv
  | Op_Writev
  | Op_Fsync
  | Op_ReadFixed
  | Op_WriteFixed
  | Op_PollAdd
  | Op_PollRemove
  | Op_SyncFileRange
  | Op_SendMsg
  | Op_RecvMsg
  | Op_Timeout
  | Op_TimeoutRemove
  | Op_Accept
  | Op_AsyncCancel
  | Op_LinkTimeout
  | Op_Connect
  | Op_Fallocate
  | Op_Openat
  | Op_Close
  | Op_FilesUpdate
  | Op_Statx
  | Op_Read
  | Op_Write
  | Op_Fadvise
  | Op_Madvise
  | Op_Send
  | Op_Recv
  | Op_Openat2
  | Op_EpollCtl
  | Op_Splice
  | Op_ProvideBuffers
  | Op_RemoveBuffers
  | Op_Tee
  | Op_Shutdown
  | Op_Renameat
  | Op_Unlinkat
  | Op_Mkdirat
  | Op_Symlinkat
  | Op_Linkat
  | Op_MsgRing
  | Op_Fsetxattr
  | Op_Setxattr
  | Op_Fgetxattr
  | Op_Getxattr
  | Op_Socket
  | Op_UringCmd
  | Op_SendZc
  | Op_SendmsgZc
  | Op_ReadMultishot
  | Op_WaitId
  | Op_FutexWait
  | Op_FutexWake
  | Op_FutexWaitv
  | Op_FixedFdInstall
  | Op_Ftruncate
  | Op_Bind
  | Op_Listen
  | Op_EpollWait
  | Op_ReadvFixed
  | Op_WritevFixed
  | Op_Pipe

fun opcode_u8 :: "Opcode \<Rightarrow> u8" where
  "opcode_u8 Op_Nop = 0"
| "opcode_u8 Op_Readv = 1"
| "opcode_u8 Op_Writev = 2"
| "opcode_u8 Op_Fsync = 3"
| "opcode_u8 Op_ReadFixed = 4"
| "opcode_u8 Op_WriteFixed = 5"
| "opcode_u8 Op_PollAdd = 6"
| "opcode_u8 Op_PollRemove = 7"
| "opcode_u8 Op_SyncFileRange = 8"
| "opcode_u8 Op_SendMsg = 9"
| "opcode_u8 Op_RecvMsg = 10"
| "opcode_u8 Op_Timeout = 11"
| "opcode_u8 Op_TimeoutRemove = 12"
| "opcode_u8 Op_Accept = 13"
| "opcode_u8 Op_AsyncCancel = 14"
| "opcode_u8 Op_LinkTimeout = 15"
| "opcode_u8 Op_Connect = 16"
| "opcode_u8 Op_Fallocate = 17"
| "opcode_u8 Op_Openat = 18"
| "opcode_u8 Op_Close = 19"
| "opcode_u8 Op_FilesUpdate = 20"
| "opcode_u8 Op_Statx = 21"
| "opcode_u8 Op_Read = 22"
| "opcode_u8 Op_Write = 23"
| "opcode_u8 Op_Fadvise = 24"
| "opcode_u8 Op_Madvise = 25"
| "opcode_u8 Op_Send = 26"
| "opcode_u8 Op_Recv = 27"
| "opcode_u8 Op_Openat2 = 28"
| "opcode_u8 Op_EpollCtl = 29"
| "opcode_u8 Op_Splice = 30"
| "opcode_u8 Op_ProvideBuffers = 31"
| "opcode_u8 Op_RemoveBuffers = 32"
| "opcode_u8 Op_Tee = 33"
| "opcode_u8 Op_Shutdown = 34"
| "opcode_u8 Op_Renameat = 35"
| "opcode_u8 Op_Unlinkat = 36"
| "opcode_u8 Op_Mkdirat = 37"
| "opcode_u8 Op_Symlinkat = 38"
| "opcode_u8 Op_Linkat = 39"
| "opcode_u8 Op_MsgRing = 40"
| "opcode_u8 Op_Fsetxattr = 41"
| "opcode_u8 Op_Setxattr = 42"
| "opcode_u8 Op_Fgetxattr = 43"
| "opcode_u8 Op_Getxattr = 44"
| "opcode_u8 Op_Socket = 45"
| "opcode_u8 Op_UringCmd = 46"
| "opcode_u8 Op_SendZc = 47"
| "opcode_u8 Op_SendmsgZc = 48"
| "opcode_u8 Op_ReadMultishot = 49"
| "opcode_u8 Op_WaitId = 50"
| "opcode_u8 Op_FutexWait = 51"
| "opcode_u8 Op_FutexWake = 52"
| "opcode_u8 Op_FutexWaitv = 53"
| "opcode_u8 Op_FixedFdInstall = 54"
| "opcode_u8 Op_Ftruncate = 55"
| "opcode_u8 Op_Bind = 56"
| "opcode_u8 Op_Listen = 57"
| "opcode_u8 Op_EpollWait = 59"
| "opcode_u8 Op_ReadvFixed = 60"
| "opcode_u8 Op_WritevFixed = 61"
| "opcode_u8 Op_Pipe = 62"

datatype RegisterOp =
    RegisterBuffers
  | UnregisterBuffers
  | RegisterFiles
  | UnregisterFiles
  | RegisterEventFd
  | UnregisterEventFd
  | RegisterFilesUpdate
  | RegisterEventFdAsync
  | RegisterProbe
  | RegisterRestrictions
  | RegisterEnableRings
  | RegisterFiles2
  | RegisterFilesUpdate2
  | RegisterBuffers2
  | RegisterBuffersUpdate
  | RegisterIowqAff
  | UnregisterIowqAff
  | RegisterIowqMaxWorkers
  | RegisterRingFds
  | UnregisterRingFds
  | RegisterPbufRing
  | UnregisterPbufRing
  | RegisterSyncCancel
  | RegisterFileAllocRange
  | RegisterPbufStatus
  | RegisterNapi
  | UnregisterNapi
  | RegisterCloneBuffers

fun register_op_u32 :: "RegisterOp \<Rightarrow> u32" where
  "register_op_u32 RegisterBuffers = 0"
| "register_op_u32 UnregisterBuffers = 1"
| "register_op_u32 RegisterFiles = 2"
| "register_op_u32 UnregisterFiles = 3"
| "register_op_u32 RegisterEventFd = 4"
| "register_op_u32 UnregisterEventFd = 5"
| "register_op_u32 RegisterFilesUpdate = 6"
| "register_op_u32 RegisterEventFdAsync = 7"
| "register_op_u32 RegisterProbe = 8"
| "register_op_u32 RegisterRestrictions = 11"
| "register_op_u32 RegisterEnableRings = 12"
| "register_op_u32 RegisterFiles2 = 13"
| "register_op_u32 RegisterFilesUpdate2 = 14"
| "register_op_u32 RegisterBuffers2 = 15"
| "register_op_u32 RegisterBuffersUpdate = 16"
| "register_op_u32 RegisterIowqAff = 17"
| "register_op_u32 UnregisterIowqAff = 18"
| "register_op_u32 RegisterIowqMaxWorkers = 19"
| "register_op_u32 RegisterRingFds = 20"
| "register_op_u32 UnregisterRingFds = 21"
| "register_op_u32 RegisterPbufRing = 22"
| "register_op_u32 UnregisterPbufRing = 23"
| "register_op_u32 RegisterSyncCancel = 24"
| "register_op_u32 RegisterFileAllocRange = 25"
| "register_op_u32 RegisterPbufStatus = 26"
| "register_op_u32 RegisterNapi = 27"
| "register_op_u32 UnregisterNapi = 28"
| "register_op_u32 RegisterCloneBuffers = 30"

datatype RingOffset = SqRing | CqRing | Sqes

fun ring_offset_u64 :: "RingOffset \<Rightarrow> u64" where
  "ring_offset_u64 SqRing = 0"
| "ring_offset_u64 CqRing = 0x08000000"
| "ring_offset_u64 Sqes = 0x10000000"

section \<open>Flag constants\<close>

subsection \<open>Entry flags (\<open>SqeFlags\<close>)\<close>

definition SQE_FIXED_FILE :: u8 where "SQE_FIXED_FILE = 1"
definition SQE_IO_DRAIN :: u8 where "SQE_IO_DRAIN = 2"
definition SQE_IO_LINK :: u8 where "SQE_IO_LINK = 4"
definition SQE_IO_HARDLINK :: u8 where "SQE_IO_HARDLINK = 8"
definition SQE_IO_ASYNC :: u8 where "SQE_IO_ASYNC = 16"
definition SQE_BUFFER_SELECT :: u8 where "SQE_BUFFER_SELECT = 32"
definition SQE_CQE_SKIP_SUCCESS :: u8 where "SQE_CQE_SKIP_SUCCESS = 64"

lemmas sqe_flag_defs = SQE_FIXED_FILE_def SQE_IO_DRAIN_def SQE_IO_LINK_def SQE_IO_HARDLINK_def
  SQE_IO_ASYNC_def SQE_BUFFER_SELECT_def SQE_CQE_SKIP_SUCCESS_def

subsection \<open>Enter, setup and feature flags\<close>

definition ENTER_GETEVENTS :: u32 where "ENTER_GETEVENTS = 1"
definition ENTER_SQ_WAKEUP :: u32 where "ENTER_SQ_WAKEUP = 2"
definition ENTER_EXT_ARG :: u32 where "ENTER_EXT_ARG = 8"
definition ENTER_REGISTERED_RING :: u32 where "ENTER_REGISTERED_RING = 16"
definition ENTER_NO_IOWAIT :: u32 where "ENTER_NO_IOWAIT = 128"

definition SETUP_IOPOLL :: u32 where "SETUP_IOPOLL = 1"
definition SETUP_SQPOLL :: u32 where "SETUP_SQPOLL = 2"
definition SETUP_SQ_AFF :: u32 where "SETUP_SQ_AFF = 4"
definition SETUP_CQSIZE :: u32 where "SETUP_CQSIZE = 8"
definition SETUP_CLAMP :: u32 where "SETUP_CLAMP = 16"
definition SETUP_ATTACH_WQ :: u32 where "SETUP_ATTACH_WQ = 32"
definition SETUP_R_DISABLED :: u32 where "SETUP_R_DISABLED = 64"
definition SETUP_SUBMIT_ALL :: u32 where "SETUP_SUBMIT_ALL = 128"
definition SETUP_COOP_TASKRUN :: u32 where "SETUP_COOP_TASKRUN = 256"
definition SETUP_TASKRUN_FLAG :: u32 where "SETUP_TASKRUN_FLAG = 512"
definition SETUP_SINGLE_ISSUER :: u32 where "SETUP_SINGLE_ISSUER = 4096"
definition SETUP_DEFER_TASKRUN :: u32 where "SETUP_DEFER_TASKRUN = 8192"
definition SETUP_NO_MMAP :: u32 where "SETUP_NO_MMAP = 16384"
definition SETUP_NO_SQARRAY :: u32 where "SETUP_NO_SQARRAY = 65536"

definition SUPPORTED_MASK :: u32 where
  "SUPPORTED_MASK = SETUP_IOPOLL
     OR SETUP_SQPOLL
     OR SETUP_SQ_AFF
     OR SETUP_CQSIZE
     OR SETUP_CLAMP
     OR SETUP_ATTACH_WQ
     OR SETUP_R_DISABLED
     OR SETUP_SUBMIT_ALL
     OR SETUP_COOP_TASKRUN
     OR SETUP_TASKRUN_FLAG
     OR SETUP_SINGLE_ISSUER
     OR SETUP_DEFER_TASKRUN
     OR SETUP_NO_MMAP
     OR SETUP_NO_SQARRAY"

lemmas setup_flag_defs = SETUP_IOPOLL_def SETUP_SQPOLL_def SETUP_SQ_AFF_def SETUP_CQSIZE_def SETUP_CLAMP_def SETUP_ATTACH_WQ_def SETUP_R_DISABLED_def SETUP_SUBMIT_ALL_def SETUP_COOP_TASKRUN_def SETUP_TASKRUN_FLAG_def SETUP_SINGLE_ISSUER_def SETUP_DEFER_TASKRUN_def SETUP_NO_MMAP_def SETUP_NO_SQARRAY_def

definition FEAT_SINGLE_MMAP :: u32 where "FEAT_SINGLE_MMAP = 1"

section \<open>File descriptors\<close>

datatype RawFd = RawFd (as_usize: usize)

definition as_i32 :: "RawFd \<Rightarrow> i32" where
  "as_i32 fd = ucast (as_usize fd)"

definition AT_FDCWD :: i32 where "AT_FDCWD = - 100"

datatype DirFd = Cwd | DirFd RawFd

fun DirFd_as_raw :: "DirFd \<Rightarrow> i32" where
  "DirFd_as_raw Cwd = AT_FDCWD"
| "DirFd_as_raw (DirFd fd) = as_i32 fd"

section \<open>The submission entry\<close>

record IoUringSqe =
  sqe_opcode :: u8
  sqe_flags :: u8
  sqe_ioprio :: u16
  sqe_fd :: i32
  sqe_off :: u64
  sqe_addr :: u64
  sqe_len :: u32
  sqe_op_flags :: u32
  sqe_user_data :: u64
  sqe_buf_index :: u16
  sqe_personality :: u16
  sqe_splice_fd_in :: i32
  sqe_addr3 :: u64
  sqe_pad2 :: u64

definition ZEROED :: IoUringSqe where
  "ZEROED = \<lparr>sqe_opcode = 0, sqe_flags = 0, sqe_ioprio = 0, sqe_fd = 0, sqe_off = 0,
     sqe_addr = 0, sqe_len = 0, sqe_op_flags = 0, sqe_user_data = 0, sqe_buf_index = 0,
     sqe_personality = 0, sqe_splice_fd_in = 0, sqe_addr3 = 0, sqe_pad2 = 0\<rparr>"

text \<open>The union accessors of \<open>IoUringSqe\<close>: several names for the same bytes.\<close>

definition attr_ptr :: "IoUringSqe \<Rightarrow> u64" where
  "attr_ptr s = sqe_addr3 s"

definition set_attr_ptr :: "u64 \<Rightarrow> IoUringSqe \<Rightarrow> IoUringSqe" where
  "set_attr_ptr p s = s\<lparr>sqe_addr3 := p\<rparr>"

definition attr_type_mask :: "IoUringSqe \<Rightarrow> u64" where
  "attr_type_mask s = sqe_pad2 s"

definition set_attr_type_mask :: "u64 \<Rightarrow> IoUringSqe \<Rightarrow> IoUringSqe" where
  "set_attr_type_mask m s = s\<lparr>sqe_pad2 := m\<rparr>"

definition cmd_op :: "IoUringSqe \<Rightarrow> u32" where
  "cmd_op s = ucast (sqe_off s)"

definition set_cmd_op :: "u32 \<Rightarrow> IoUringSqe \<Rightarrow> IoUringSqe" where
  "set_cmd_op op s = s\<lparr>sqe_off := (sqe_off s AND 0xFFFFFFFF00000000) OR ucast op\<rparr>"

definition sock_level :: "IoUringSqe \<Rightarrow> u32" where
  "sock_level s = ucast (sqe_addr s)"

definition set_sock_level :: "u32 \<Rightarrow> IoUringSqe \<Rightarrow> IoUringSqe" where
  "set_sock_level level s = s\<lparr>sqe_addr := (sqe_addr s AND 0xFFFFFFFF00000000) OR ucast level\<rparr>"

definition sock_optname :: "IoUringSqe \<Rightarrow> u32" where
  "sock_optname s = ucast (drop_bit 32 (sqe_addr s))"

definition set_sock_optname :: "u32 \<Rightarrow> IoUringSqe \<Rightarrow> IoUringSqe" where
  "set_sock_optname optname s =
     s\<lparr>sqe_addr := (sqe_addr s AND 0xFFFFFFFF) OR push_bit 32 (ucast optname)\<rparr>"

definition optlen :: "IoUringSqe \<Rightarrow> u32" where
  "optlen s = sqe_splice_fd_in s"

definition set_optlen :: "u32 \<Rightarrow> IoUringSqe \<Rightarrow> IoUringSqe" where
  "set_optlen l s = s\<lparr>sqe_splice_fd_in := l\<rparr>"

definition sock_optval :: "IoUringSqe \<Rightarrow> u64" where
  "sock_optval s = sqe_addr3 s"

definition set_sock_optval :: "u64 \<Rightarrow> IoUringSqe \<Rightarrow> IoUringSqe" where
  "set_sock_optval v s = s\<lparr>sqe_addr3 := v\<rparr>"

section \<open>The completion entry\<close>

record IoUringCqe =
  cqe_user_data :: u64
  cqe_res :: i32
  cqe_flags :: u32

definition CQE_BUFFER :: u32 where "CQE_BUFFER = 1"
definition CQE_MORE :: u32 where "CQE_MORE = 2"
definition CQE_SOCK_NONEMPTY :: u32 where "CQE_SOCK_NONEMPTY = 4"
definition CQE_NOTIF :: u32 where "CQE_NOTIF = 8"
definition CQE_BUF_MORE :: u32 where "CQE_BUF_MORE = 16"

lemmas cqe_flag_defs = CQE_BUFFER_def CQE_MORE_def CQE_SOCK_NONEMPTY_def CQE_NOTIF_def CQE_BUF_MORE_def

definition CqeFlags_buffer_id :: "u32 \<Rightarrow> u16 option" where
  "CqeFlags_buffer_id f =
     (if contains f CQE_BUFFER then Some (ucast (drop_bit 16 f)) else None)"

section \<open>Setup parameters\<close>

record IoSqringOffsets =
  sqo_head :: u32
  sqo_tail :: u32
  sqo_ring_mask :: u32
  sqo_ring_entries :: u32
  sqo_flags :: u32
  sqo_dropped :: u32
  sqo_array :: u32
  sqo_resv1 :: u32
  sqo_user_addr :: u64

record IoCqringOffsets =
  cqo_head :: u32
  cqo_tail :: u32
  cqo_ring_mask :: u32
  cqo_ring_entries :: u32
  cqo_overflow :: u32
  cqo_cqes :: u32
  cqo_flags :: u32
  cqo_resv1 :: u32
  cqo_user_addr :: u64

record IoUringParams =
  p_sq_entries :: u32
  p_cq_entries :: u32
  p_flags :: u32
  p_sq_thread_cpu :: u32
  p_sq_thread_idle :: u32
  p_features :: u32
  p_wq_fd :: u32
  p_resv :: "u32 list"
  p_sq_off :: IoSqringOffsets
  p_cq_off :: IoCqringOffsets

definition IoUringParams_default :: IoUringParams where
  "IoUringParams_default =
     \<lparr>p_sq_entries = 0, p_cq_entries = 0, p_flags = 0, p_sq_thread_cpu = 0, p_sq_thread_idle = 0,
      p_features = 0, p_wq_fd = 0, p_resv = [0, 0, 0],
      p_sq_off = \<lparr>sqo_head = 0, sqo_tail = 0, sqo_ring_mask = 0, sqo_ring_entries = 0,
        sqo_flags = 0, sqo_dropped = 0, sqo_array = 0, sqo_resv1 = 0, sqo_user_addr = 0\<rparr>,
      p_cq_off = \<lparr>cqo_head = 0, cqo_tail = 0, cqo_ring_mask = 0, cqo_ring_entries = 0,
        cqo_overflow = 0, cqo_cqes = 0, cqo_flags = 0, cqo_resv1 = 0, cqo_user_addr = 0\<rparr>\<rparr>"

section \<open>Durations\<close>

record Timespec =
  tv_sec :: i64
  tv_nsec :: i64

text \<open>\<open>Timespec::new\<close> panics on a nanosecond field out of range: \<open>None\<close> here.\<close>

definition Timespec_new :: "i64 \<Rightarrow> i64 \<Rightarrow> Timespec option" where
  "Timespec_new sec nsec =
     (if 0 \<le> sint nsec \<and> sint nsec < 1000000000 then Some \<lparr>tv_sec = sec, tv_nsec = nsec\<rparr> else None)"

definition from_millis :: "u64 \<Rightarrow> Timespec option" where
  "from_millis ms = Timespec_new (ms div 1000) ((ms mod 1000) * 1000000)"

section \<open>Lemmas on flag sets and union accessors\<close>

lemma contains_iff_bits: "contains s f \<longleftrightarrow> (\<forall>n. bit f n \<longrightarrow> bit s n)"
  by (simp add: contains_def bit_eq_iff bit_and_iff) (metis bit_imp_le_length)

lemma contains_union [simp]: "contains (union_const s t) f \<longleftrightarrow> contains (s OR t) f"
  by (simp add: union_const_def)

lemma contains_or_right [simp]: "contains (s OR f) f" and contains_or_left [simp]: "contains (f OR s) f"
  by (auto simp: contains_iff_bits bit_or_iff)

lemma contains_mono: "contains s f \<Longrightarrow> contains (s OR t) f"
  by (auto simp: contains_iff_bits bit_or_iff)

lemma contains_0 [simp]: "contains s 0"
  by (simp add: contains_def)

end
