(* ===== verification/Sqe_Ops.thy ===== *)
theory Sqe_Ops
  imports Types
begin

text \<open>
  The submission-entry constructors and modifiers of \<open>src/op/\<close>: one definition per
  function of \<open>impl Sqe\<close>, each an update of the zeroed entry. A pointer is its address, a
  borrowed slice its address and length; where the source narrows a length with
  \<open>as u32\<close> the definition truncates it.

  The lemmas state what the kernel relies on: which bytes of the caller's memory an
  entry names, that the modifiers touch only their own field, that a union accessor
  reads back what was stored and leaves its neighbours alone, and that no constructor
  sets a field the kernel requires to be zero.
\<close>

record slice =
  sl_ptr :: u64
  sl_len :: usize

section \<open>Modifiers (\<open>src/op/mod.rs\<close>)\<close>

definition Sqe_user_data :: "u64 \<Rightarrow> IoUringSqe \<Rightarrow> IoUringSqe" where
  "Sqe_user_data data s = s\<lparr>sqe_user_data := data\<rparr>"

definition Sqe_get_user_data :: "IoUringSqe \<Rightarrow> u64" where
  "Sqe_get_user_data s = sqe_user_data s"

definition Sqe_flags :: "u8 \<Rightarrow> IoUringSqe \<Rightarrow> IoUringSqe" where
  "Sqe_flags flags s = s\<lparr>sqe_flags := sqe_flags s OR flags\<rparr>"

definition Sqe_link :: "IoUringSqe \<Rightarrow> IoUringSqe" where
  "Sqe_link s = s\<lparr>sqe_flags := sqe_flags s OR SQE_IO_LINK\<rparr>"

definition Sqe_hardlink :: "IoUringSqe \<Rightarrow> IoUringSqe" where
  "Sqe_hardlink s = s\<lparr>sqe_flags := sqe_flags s OR SQE_IO_HARDLINK\<rparr>"

definition Sqe_fixed_file :: "IoUringSqe \<Rightarrow> IoUringSqe" where
  "Sqe_fixed_file s = s\<lparr>sqe_flags := sqe_flags s OR SQE_FIXED_FILE\<rparr>"

definition Sqe_drain :: "IoUringSqe \<Rightarrow> IoUringSqe" where
  "Sqe_drain s = s\<lparr>sqe_flags := sqe_flags s OR SQE_IO_DRAIN\<rparr>"

definition Sqe_cqe_skip_success :: "IoUringSqe \<Rightarrow> IoUringSqe" where
  "Sqe_cqe_skip_success s = s\<lparr>sqe_flags := sqe_flags s OR SQE_CQE_SKIP_SUCCESS\<rparr>"

definition Sqe_buffer_select :: "u16 \<Rightarrow> IoUringSqe \<Rightarrow> IoUringSqe" where
  "Sqe_buffer_select group_id s =
     s\<lparr>sqe_flags := sqe_flags s OR SQE_BUFFER_SELECT, sqe_buf_index := group_id\<rparr>"

definition IORING_ACCEPT_MULTISHOT :: u16 where "IORING_ACCEPT_MULTISHOT = 1"
definition IORING_ACCEPT_DONTWAIT :: u16 where "IORING_ACCEPT_DONTWAIT = 2"
definition IORING_ACCEPT_POLL_FIRST :: u16 where "IORING_ACCEPT_POLL_FIRST = 4"
definition IORING_RECV_MULTISHOT :: u16 where "IORING_RECV_MULTISHOT = 2"
definition IORING_RECVSEND_POLL_FIRST :: u16 where "IORING_RECVSEND_POLL_FIRST = 1"
definition IORING_RECVSEND_FIXED_BUF :: u16 where "IORING_RECVSEND_FIXED_BUF = 2"
definition IORING_SEND_ZC_REPORT_USAGE :: u16 where "IORING_SEND_ZC_REPORT_USAGE = 8"
definition IORING_RECVSEND_BUNDLE :: u16 where "IORING_RECVSEND_BUNDLE = 16"
definition IORING_SEND_VECTORIZED :: u16 where "IORING_SEND_VECTORIZED = 32"

lemmas ioprio_flag_defs = IORING_ACCEPT_MULTISHOT_def IORING_ACCEPT_DONTWAIT_def
  IORING_ACCEPT_POLL_FIRST_def IORING_RECV_MULTISHOT_def IORING_RECVSEND_POLL_FIRST_def
  IORING_RECVSEND_FIXED_BUF_def IORING_SEND_ZC_REPORT_USAGE_def IORING_RECVSEND_BUNDLE_def
  IORING_SEND_VECTORIZED_def

datatype SendRecvFlag = SR_PollFirst | SR_FixedBuf u16 | SR_ReportUsage | SR_Bundle | SR_Vectorized

fun Sqe_with :: "SendRecvFlag \<Rightarrow> IoUringSqe \<Rightarrow> IoUringSqe" where
  "Sqe_with SR_PollFirst s = s\<lparr>sqe_ioprio := sqe_ioprio s OR IORING_RECVSEND_POLL_FIRST\<rparr>"
| "Sqe_with (SR_FixedBuf idx) s =
     s\<lparr>sqe_ioprio := sqe_ioprio s OR IORING_RECVSEND_FIXED_BUF, sqe_buf_index := idx\<rparr>"
| "Sqe_with SR_ReportUsage s = s\<lparr>sqe_ioprio := sqe_ioprio s OR IORING_SEND_ZC_REPORT_USAGE\<rparr>"
| "Sqe_with SR_Bundle s = s\<lparr>sqe_ioprio := sqe_ioprio s OR IORING_RECVSEND_BUNDLE\<rparr>"
| "Sqe_with SR_Vectorized s = s\<lparr>sqe_ioprio := sqe_ioprio s OR IORING_SEND_VECTORIZED\<rparr>"

datatype AcceptModifier = AM_DontWait | AM_PollFirst

fun Sqe_with_accept :: "AcceptModifier \<Rightarrow> IoUringSqe \<Rightarrow> IoUringSqe" where
  "Sqe_with_accept AM_DontWait s = s\<lparr>sqe_ioprio := sqe_ioprio s OR IORING_ACCEPT_DONTWAIT\<rparr>"
| "Sqe_with_accept AM_PollFirst s = s\<lparr>sqe_ioprio := sqe_ioprio s OR IORING_ACCEPT_POLL_FIRST\<rparr>"

definition RW_ATTR_PI :: u64 where "RW_ATTR_PI = 1"

definition Sqe_with_pi_attr :: "u64 \<Rightarrow> IoUringSqe \<Rightarrow> IoUringSqe" where
  "Sqe_with_pi_attr attr s = set_attr_type_mask RW_ATTR_PI (set_attr_ptr attr s)"

definition Sqe_personality :: "u16 \<Rightarrow> IoUringSqe \<Rightarrow> IoUringSqe" where
  "Sqe_personality pid s = s\<lparr>sqe_personality := pid\<rparr>"

section \<open>Control (\<open>src/op/control.rs\<close>)\<close>

definition CANCEL_ALL :: u32 where "CANCEL_ALL = 1"
definition CANCEL_FD :: u32 where "CANCEL_FD = 2"
definition CANCEL_ANY :: u32 where "CANCEL_ANY = 4"
definition CANCEL_FD_FIXED :: u32 where "CANCEL_FD_FIXED = 8"
definition CANCEL_USERDATA :: u32 where "CANCEL_USERDATA = 16"
definition CANCEL_OP :: u32 where "CANCEL_OP = 32"

lemmas cancel_flag_defs = CANCEL_ALL_def CANCEL_FD_def CANCEL_ANY_def CANCEL_FD_FIXED_def
  CANCEL_USERDATA_def CANCEL_OP_def

definition Sqe_nop :: IoUringSqe where
  "Sqe_nop = ZEROED\<lparr>sqe_opcode := opcode_u8 Op_Nop\<rparr>"

definition Sqe_timeout_remove :: "u64 \<Rightarrow> IoUringSqe" where
  "Sqe_timeout_remove target = ZEROED\<lparr>sqe_opcode := opcode_u8 Op_TimeoutRemove, sqe_addr := target\<rparr>"

definition Sqe_cancel_with_flags :: "u64 \<Rightarrow> u32 \<Rightarrow> IoUringSqe" where
  "Sqe_cancel_with_flags target flags =
     ZEROED\<lparr>sqe_opcode := opcode_u8 Op_AsyncCancel, sqe_addr := target, sqe_op_flags := flags\<rparr>"

definition Sqe_cancel :: "u64 \<Rightarrow> IoUringSqe" where
  "Sqe_cancel target = Sqe_cancel_with_flags target flags_empty"

definition Sqe_cancel_fd :: "RawFd \<Rightarrow> u32 \<Rightarrow> IoUringSqe" where
  "Sqe_cancel_fd fd extra =
     ZEROED\<lparr>sqe_opcode := opcode_u8 Op_AsyncCancel, sqe_fd := as_i32 fd,
            sqe_op_flags := CANCEL_FD OR extra\<rparr>"

definition Sqe_cancel_any :: "u32 \<Rightarrow> IoUringSqe" where
  "Sqe_cancel_any extra =
     ZEROED\<lparr>sqe_opcode := opcode_u8 Op_AsyncCancel, sqe_op_flags := CANCEL_ANY OR extra\<rparr>"

definition Sqe_cancel_matching_opcode :: "Opcode \<Rightarrow> IoUringSqe \<Rightarrow> IoUringSqe" where
  "Sqe_cancel_matching_opcode opcode s =
     s\<lparr>sqe_op_flags := sqe_op_flags s OR CANCEL_OP, sqe_len := ucast (opcode_u8 opcode)\<rparr>"

definition Sqe_poll_add :: "RawFd \<Rightarrow> u32 \<Rightarrow> IoUringSqe" where
  "Sqe_poll_add fd m =
     ZEROED\<lparr>sqe_opcode := opcode_u8 Op_PollAdd, sqe_fd := as_i32 fd, sqe_op_flags := m\<rparr>"

definition Sqe_poll_remove :: "u64 \<Rightarrow> IoUringSqe" where
  "Sqe_poll_remove target = ZEROED\<lparr>sqe_opcode := opcode_u8 Op_PollRemove, sqe_addr := target\<rparr>"

definition Sqe_timeout_ptr :: "u64 \<Rightarrow> u32 \<Rightarrow> u32 \<Rightarrow> IoUringSqe" where
  "Sqe_timeout_ptr ts count flags =
     ZEROED\<lparr>sqe_opcode := opcode_u8 Op_Timeout, sqe_addr := ts, sqe_len := 1,
            sqe_off := ucast count, sqe_op_flags := flags\<rparr>"

definition Sqe_timeout :: "u64 \<Rightarrow> u32 \<Rightarrow> u32 \<Rightarrow> IoUringSqe" where
  "Sqe_timeout ts count flags = Sqe_timeout_ptr ts count flags"

definition Sqe_link_timeout_ptr :: "u64 \<Rightarrow> u32 \<Rightarrow> IoUringSqe" where
  "Sqe_link_timeout_ptr ts flags =
     ZEROED\<lparr>sqe_opcode := opcode_u8 Op_LinkTimeout, sqe_addr := ts, sqe_len := 1,
            sqe_op_flags := flags\<rparr>"

definition Sqe_link_timeout :: "u64 \<Rightarrow> u32 \<Rightarrow> IoUringSqe" where
  "Sqe_link_timeout ts flags = Sqe_link_timeout_ptr ts flags"

section \<open>Files (\<open>src/op/file.rs\<close>)\<close>

definition Sqe_close :: "RawFd \<Rightarrow> IoUringSqe" where
  "Sqe_close fd = ZEROED\<lparr>sqe_opcode := opcode_u8 Op_Close, sqe_fd := as_i32 fd\<rparr>"

definition FSYNC_DATASYNC :: u32 where "FSYNC_DATASYNC = 1"

definition Sqe_fsync :: "RawFd \<Rightarrow> u32 \<Rightarrow> IoUringSqe" where
  "Sqe_fsync fd flags =
     ZEROED\<lparr>sqe_opcode := opcode_u8 Op_Fsync, sqe_fd := as_i32 fd, sqe_op_flags := flags\<rparr>"

definition Sqe_fdatasync :: "RawFd \<Rightarrow> IoUringSqe" where
  "Sqe_fdatasync fd = Sqe_fsync fd FSYNC_DATASYNC"

definition Sqe_sync_file_range :: "RawFd \<Rightarrow> u64 \<Rightarrow> u32 \<Rightarrow> u32 \<Rightarrow> IoUringSqe" where
  "Sqe_sync_file_range fd offset nbytes flags =
     ZEROED\<lparr>sqe_opcode := opcode_u8 Op_SyncFileRange, sqe_fd := as_i32 fd, sqe_off := offset,
            sqe_len := nbytes, sqe_op_flags := flags\<rparr>"

definition Sqe_fallocate :: "RawFd \<Rightarrow> u32 \<Rightarrow> u64 \<Rightarrow> u64 \<Rightarrow> IoUringSqe" where
  "Sqe_fallocate fd mode offset len =
     ZEROED\<lparr>sqe_opcode := opcode_u8 Op_Fallocate, sqe_fd := as_i32 fd, sqe_off := offset,
            sqe_addr := len, sqe_len := mode\<rparr>"

definition Sqe_read_ptr :: "RawFd \<Rightarrow> u64 \<Rightarrow> u32 \<Rightarrow> u64 \<Rightarrow> IoUringSqe" where
  "Sqe_read_ptr fd buf len offset =
     ZEROED\<lparr>sqe_opcode := opcode_u8 Op_Read, sqe_fd := as_i32 fd, sqe_addr := buf,
            sqe_len := len, sqe_off := offset\<rparr>"

definition Sqe_write_ptr :: "RawFd \<Rightarrow> u64 \<Rightarrow> u32 \<Rightarrow> u64 \<Rightarrow> IoUringSqe" where
  "Sqe_write_ptr fd buf len offset =
     ZEROED\<lparr>sqe_opcode := opcode_u8 Op_Write, sqe_fd := as_i32 fd, sqe_addr := buf,
            sqe_len := len, sqe_off := offset\<rparr>"

definition Sqe_readv_ptr :: "RawFd \<Rightarrow> u64 \<Rightarrow> u32 \<Rightarrow> u64 \<Rightarrow> IoUringSqe" where
  "Sqe_readv_ptr fd iovecs nr_vecs offset =
     ZEROED\<lparr>sqe_opcode := opcode_u8 Op_Readv, sqe_fd := as_i32 fd, sqe_addr := iovecs,
            sqe_len := nr_vecs, sqe_off := offset\<rparr>"

definition Sqe_writev_ptr :: "RawFd \<Rightarrow> u64 \<Rightarrow> u32 \<Rightarrow> u64 \<Rightarrow> IoUringSqe" where
  "Sqe_writev_ptr fd iovecs nr_vecs offset =
     ZEROED\<lparr>sqe_opcode := opcode_u8 Op_Writev, sqe_fd := as_i32 fd, sqe_addr := iovecs,
            sqe_len := nr_vecs, sqe_off := offset\<rparr>"

definition Sqe_read :: "RawFd \<Rightarrow> slice \<Rightarrow> u64 \<Rightarrow> IoUringSqe" where
  "Sqe_read fd buf offset = Sqe_read_ptr fd (sl_ptr buf) (ucast (sl_len buf)) offset"

definition Sqe_write :: "RawFd \<Rightarrow> slice \<Rightarrow> u64 \<Rightarrow> IoUringSqe" where
  "Sqe_write fd buf offset = Sqe_write_ptr fd (sl_ptr buf) (ucast (sl_len buf)) offset"

definition Sqe_readv :: "RawFd \<Rightarrow> slice \<Rightarrow> u64 \<Rightarrow> IoUringSqe" where
  "Sqe_readv fd iovecs offset = Sqe_readv_ptr fd (sl_ptr iovecs) (ucast (sl_len iovecs)) offset"

definition Sqe_writev :: "RawFd \<Rightarrow> slice \<Rightarrow> u64 \<Rightarrow> IoUringSqe" where
  "Sqe_writev fd iovecs offset = Sqe_writev_ptr fd (sl_ptr iovecs) (ucast (sl_len iovecs)) offset"

definition Sqe_read_fixed :: "RawFd \<Rightarrow> u64 \<Rightarrow> u32 \<Rightarrow> u64 \<Rightarrow> u16 \<Rightarrow> IoUringSqe" where
  "Sqe_read_fixed fd buf len offset buf_index =
     ZEROED\<lparr>sqe_opcode := opcode_u8 Op_ReadFixed, sqe_fd := as_i32 fd, sqe_addr := buf,
            sqe_len := len, sqe_off := offset, sqe_buf_index := buf_index\<rparr>"

definition Sqe_read_multishot :: "RawFd \<Rightarrow> u64 \<Rightarrow> u16 \<Rightarrow> IoUringSqe" where
  "Sqe_read_multishot fd offset bgid =
     Sqe_buffer_select bgid
       (ZEROED\<lparr>sqe_opcode := opcode_u8 Op_ReadMultishot, sqe_fd := as_i32 fd, sqe_off := offset\<rparr>)"

definition Sqe_write_fixed :: "RawFd \<Rightarrow> u64 \<Rightarrow> u32 \<Rightarrow> u64 \<Rightarrow> u16 \<Rightarrow> IoUringSqe" where
  "Sqe_write_fixed fd buf len offset buf_index =
     ZEROED\<lparr>sqe_opcode := opcode_u8 Op_WriteFixed, sqe_fd := as_i32 fd, sqe_addr := buf,
            sqe_len := len, sqe_off := offset, sqe_buf_index := buf_index\<rparr>"

definition Sqe_readv_fixed :: "RawFd \<Rightarrow> u64 \<Rightarrow> u32 \<Rightarrow> u64 \<Rightarrow> u16 \<Rightarrow> IoUringSqe" where
  "Sqe_readv_fixed fd iovecs nr_vecs offset buf_index =
     ZEROED\<lparr>sqe_opcode := opcode_u8 Op_ReadvFixed, sqe_fd := as_i32 fd, sqe_addr := iovecs,
            sqe_len := nr_vecs, sqe_off := offset, sqe_buf_index := buf_index\<rparr>"

definition Sqe_writev_fixed :: "RawFd \<Rightarrow> u64 \<Rightarrow> u32 \<Rightarrow> u64 \<Rightarrow> u16 \<Rightarrow> IoUringSqe" where
  "Sqe_writev_fixed fd iovecs nr_vecs offset buf_index =
     ZEROED\<lparr>sqe_opcode := opcode_u8 Op_WritevFixed, sqe_fd := as_i32 fd, sqe_addr := iovecs,
            sqe_len := nr_vecs, sqe_off := offset, sqe_buf_index := buf_index\<rparr>"

definition Sqe_openat_ptr :: "i32 \<Rightarrow> u64 \<Rightarrow> u32 \<Rightarrow> u32 \<Rightarrow> IoUringSqe" where
  "Sqe_openat_ptr dfd path flags mode =
     ZEROED\<lparr>sqe_opcode := opcode_u8 Op_Openat, sqe_fd := dfd, sqe_addr := path,
            sqe_len := mode, sqe_op_flags := flags\<rparr>"

definition Sqe_openat :: "DirFd \<Rightarrow> u64 \<Rightarrow> u32 \<Rightarrow> u32 \<Rightarrow> IoUringSqe" where
  "Sqe_openat dfd path flags mode = Sqe_openat_ptr (DirFd_as_raw dfd) path flags mode"

definition Sqe_openat_direct :: "i32 \<Rightarrow> u64 \<Rightarrow> u32 \<Rightarrow> u32 \<Rightarrow> i32 \<Rightarrow> IoUringSqe" where
  "Sqe_openat_direct dfd path flags mode slot =
     (Sqe_openat_ptr dfd path flags mode)\<lparr>sqe_splice_fd_in := slot\<rparr>"

definition Sqe_openat2_ptr :: "i32 \<Rightarrow> u64 \<Rightarrow> u64 \<Rightarrow> u32 \<Rightarrow> IoUringSqe" where
  "Sqe_openat2_ptr dfd path how how_size =
     ZEROED\<lparr>sqe_opcode := opcode_u8 Op_Openat2, sqe_fd := dfd, sqe_addr := path,
            sqe_off := how, sqe_len := how_size\<rparr>"

definition SIZEOF_OpenHow :: usize where "SIZEOF_OpenHow = 24"

definition Sqe_openat2 :: "i32 \<Rightarrow> u64 \<Rightarrow> u64 \<Rightarrow> IoUringSqe" where
  "Sqe_openat2 dfd path how = Sqe_openat2_ptr dfd path how (ucast SIZEOF_OpenHow)"

definition Sqe_statx_ptr :: "i32 \<Rightarrow> u64 \<Rightarrow> u32 \<Rightarrow> u32 \<Rightarrow> u64 \<Rightarrow> IoUringSqe" where
  "Sqe_statx_ptr dfd path flags m statx_buf =
     ZEROED\<lparr>sqe_opcode := opcode_u8 Op_Statx, sqe_fd := dfd, sqe_off := statx_buf,
            sqe_addr := path, sqe_len := m, sqe_op_flags := flags\<rparr>"

definition Sqe_statx :: "DirFd \<Rightarrow> u64 \<Rightarrow> u32 \<Rightarrow> u32 \<Rightarrow> u64 \<Rightarrow> IoUringSqe" where
  "Sqe_statx dfd path flags m statx_buf = Sqe_statx_ptr (DirFd_as_raw dfd) path flags m statx_buf"

definition Sqe_renameat_ptr :: "i32 \<Rightarrow> u64 \<Rightarrow> i32 \<Rightarrow> u64 \<Rightarrow> u32 \<Rightarrow> IoUringSqe" where
  "Sqe_renameat_ptr old_dfd old_path new_dfd new_path flags =
     ZEROED\<lparr>sqe_opcode := opcode_u8 Op_Renameat, sqe_fd := old_dfd, sqe_addr := old_path,
            sqe_len := new_dfd, sqe_off := new_path, sqe_op_flags := flags\<rparr>"

definition Sqe_renameat :: "DirFd \<Rightarrow> u64 \<Rightarrow> DirFd \<Rightarrow> u64 \<Rightarrow> u32 \<Rightarrow> IoUringSqe" where
  "Sqe_renameat old_dfd old_path new_dfd new_path flags =
     Sqe_renameat_ptr (DirFd_as_raw old_dfd) old_path (DirFd_as_raw new_dfd) new_path flags"

definition Sqe_unlinkat_ptr :: "i32 \<Rightarrow> u64 \<Rightarrow> u32 \<Rightarrow> IoUringSqe" where
  "Sqe_unlinkat_ptr dfd path flags =
     ZEROED\<lparr>sqe_opcode := opcode_u8 Op_Unlinkat, sqe_fd := dfd, sqe_addr := path,
            sqe_op_flags := flags\<rparr>"

definition Sqe_unlinkat :: "DirFd \<Rightarrow> u64 \<Rightarrow> u32 \<Rightarrow> IoUringSqe" where
  "Sqe_unlinkat dfd path flags = Sqe_unlinkat_ptr (DirFd_as_raw dfd) path flags"

definition Sqe_mkdirat_ptr :: "i32 \<Rightarrow> u64 \<Rightarrow> u32 \<Rightarrow> IoUringSqe" where
  "Sqe_mkdirat_ptr dfd path mode =
     ZEROED\<lparr>sqe_opcode := opcode_u8 Op_Mkdirat, sqe_fd := dfd, sqe_addr := path, sqe_len := mode\<rparr>"

definition Sqe_mkdirat :: "DirFd \<Rightarrow> u64 \<Rightarrow> u32 \<Rightarrow> IoUringSqe" where
  "Sqe_mkdirat dfd path mode = Sqe_mkdirat_ptr (DirFd_as_raw dfd) path mode"

definition Sqe_symlinkat_ptr :: "u64 \<Rightarrow> i32 \<Rightarrow> u64 \<Rightarrow> IoUringSqe" where
  "Sqe_symlinkat_ptr old_path new_dfd new_path =
     ZEROED\<lparr>sqe_opcode := opcode_u8 Op_Symlinkat, sqe_fd := new_dfd, sqe_addr := old_path,
            sqe_off := new_path\<rparr>"

definition Sqe_symlinkat :: "u64 \<Rightarrow> DirFd \<Rightarrow> u64 \<Rightarrow> IoUringSqe" where
  "Sqe_symlinkat old_path new_dfd new_path = Sqe_symlinkat_ptr old_path (DirFd_as_raw new_dfd) new_path"

definition Sqe_linkat_ptr :: "i32 \<Rightarrow> u64 \<Rightarrow> i32 \<Rightarrow> u64 \<Rightarrow> u32 \<Rightarrow> IoUringSqe" where
  "Sqe_linkat_ptr old_dfd old_path new_dfd new_path flags =
     ZEROED\<lparr>sqe_opcode := opcode_u8 Op_Linkat, sqe_fd := old_dfd, sqe_addr := old_path,
            sqe_len := new_dfd, sqe_off := new_path, sqe_op_flags := flags\<rparr>"

definition Sqe_linkat :: "DirFd \<Rightarrow> u64 \<Rightarrow> DirFd \<Rightarrow> u64 \<Rightarrow> u32 \<Rightarrow> IoUringSqe" where
  "Sqe_linkat old_dfd old_path new_dfd new_path flags =
     Sqe_linkat_ptr (DirFd_as_raw old_dfd) old_path (DirFd_as_raw new_dfd) new_path flags"

definition Sqe_getxattr_ptr :: "u64 \<Rightarrow> u64 \<Rightarrow> u64 \<Rightarrow> u32 \<Rightarrow> IoUringSqe" where
  "Sqe_getxattr_ptr name path value len =
     ZEROED\<lparr>sqe_opcode := opcode_u8 Op_Getxattr, sqe_addr := name, sqe_off := value,
            sqe_len := len, sqe_addr3 := path\<rparr>"

definition Sqe_getxattr :: "u64 \<Rightarrow> u64 \<Rightarrow> slice \<Rightarrow> IoUringSqe" where
  "Sqe_getxattr name path value = Sqe_getxattr_ptr name path (sl_ptr value) (ucast (sl_len value))"

definition Sqe_fgetxattr_ptr :: "RawFd \<Rightarrow> u64 \<Rightarrow> u64 \<Rightarrow> u32 \<Rightarrow> IoUringSqe" where
  "Sqe_fgetxattr_ptr fd name value len =
     ZEROED\<lparr>sqe_opcode := opcode_u8 Op_Fgetxattr, sqe_fd := as_i32 fd, sqe_addr := name,
            sqe_off := value, sqe_len := len\<rparr>"

definition Sqe_fgetxattr :: "RawFd \<Rightarrow> u64 \<Rightarrow> slice \<Rightarrow> IoUringSqe" where
  "Sqe_fgetxattr fd name value = Sqe_fgetxattr_ptr fd name (sl_ptr value) (ucast (sl_len value))"

definition Sqe_setxattr_ptr :: "u64 \<Rightarrow> u64 \<Rightarrow> u64 \<Rightarrow> u32 \<Rightarrow> u32 \<Rightarrow> IoUringSqe" where
  "Sqe_setxattr_ptr name path value len flags =
     ZEROED\<lparr>sqe_opcode := opcode_u8 Op_Setxattr, sqe_addr := name, sqe_off := value,
            sqe_len := len, sqe_op_flags := flags, sqe_addr3 := path\<rparr>"

definition Sqe_setxattr :: "u64 \<Rightarrow> u64 \<Rightarrow> slice \<Rightarrow> u32 \<Rightarrow> IoUringSqe" where
  "Sqe_setxattr name path value flags =
     Sqe_setxattr_ptr name path (sl_ptr value) (ucast (sl_len value)) flags"

definition Sqe_fsetxattr_ptr :: "RawFd \<Rightarrow> u64 \<Rightarrow> u64 \<Rightarrow> u32 \<Rightarrow> u32 \<Rightarrow> IoUringSqe" where
  "Sqe_fsetxattr_ptr fd name value len flags =
     ZEROED\<lparr>sqe_opcode := opcode_u8 Op_Fsetxattr, sqe_fd := as_i32 fd, sqe_addr := name,
            sqe_off := value, sqe_len := len, sqe_op_flags := flags\<rparr>"

definition Sqe_fsetxattr :: "RawFd \<Rightarrow> u64 \<Rightarrow> slice \<Rightarrow> u32 \<Rightarrow> IoUringSqe" where
  "Sqe_fsetxattr fd name value flags =
     Sqe_fsetxattr_ptr fd name (sl_ptr value) (ucast (sl_len value)) flags"

datatype FadviseAdvice = FAdv_Normal | FAdv_Random | FAdv_Sequential | FAdv_WillNeed
  | FAdv_DontNeed | FAdv_NoReuse

fun fadvise_u32 :: "FadviseAdvice \<Rightarrow> u32" where
  "fadvise_u32 FAdv_Normal = 0"
| "fadvise_u32 FAdv_Random = 1"
| "fadvise_u32 FAdv_Sequential = 2"
| "fadvise_u32 FAdv_WillNeed = 3"
| "fadvise_u32 FAdv_DontNeed = 4"
| "fadvise_u32 FAdv_NoReuse = 5"

datatype MadviseAdvice = MAdv_Normal | MAdv_Random | MAdv_Sequential | MAdv_WillNeed
  | MAdv_DontNeed | MAdv_Free | MAdv_DontDump | MAdv_DoFork | MAdv_DontFork

fun madvise_u32 :: "MadviseAdvice \<Rightarrow> u32" where
  "madvise_u32 MAdv_Normal = 0"
| "madvise_u32 MAdv_Random = 1"
| "madvise_u32 MAdv_Sequential = 2"
| "madvise_u32 MAdv_WillNeed = 3"
| "madvise_u32 MAdv_DontNeed = 4"
| "madvise_u32 MAdv_Free = 8"
| "madvise_u32 MAdv_DontDump = 16"
| "madvise_u32 MAdv_DoFork = 11"
| "madvise_u32 MAdv_DontFork = 10"

definition Sqe_fadvise :: "RawFd \<Rightarrow> u64 \<Rightarrow> u32 \<Rightarrow> FadviseAdvice \<Rightarrow> IoUringSqe" where
  "Sqe_fadvise fd offset len advice =
     ZEROED\<lparr>sqe_opcode := opcode_u8 Op_Fadvise, sqe_fd := as_i32 fd, sqe_off := offset,
            sqe_len := len, sqe_op_flags := fadvise_u32 advice\<rparr>"

definition Sqe_madvise :: "u64 \<Rightarrow> u32 \<Rightarrow> MadviseAdvice \<Rightarrow> IoUringSqe" where
  "Sqe_madvise addr len advice =
     ZEROED\<lparr>sqe_opcode := opcode_u8 Op_Madvise, sqe_addr := addr, sqe_len := len,
            sqe_op_flags := madvise_u32 advice\<rparr>"

definition Sqe_splice :: "RawFd \<Rightarrow> u64 \<Rightarrow> RawFd \<Rightarrow> u64 \<Rightarrow> u32 \<Rightarrow> u32 \<Rightarrow> IoUringSqe" where
  "Sqe_splice fd_out off_out fd_in off_in len flags =
     ZEROED\<lparr>sqe_opcode := opcode_u8 Op_Splice, sqe_fd := as_i32 fd_out, sqe_off := off_out,
            sqe_splice_fd_in := as_i32 fd_in, sqe_addr := off_in, sqe_len := len,
            sqe_op_flags := flags\<rparr>"

definition Sqe_tee :: "RawFd \<Rightarrow> RawFd \<Rightarrow> u32 \<Rightarrow> u32 \<Rightarrow> IoUringSqe" where
  "Sqe_tee fd_out fd_in len flags =
     ZEROED\<lparr>sqe_opcode := opcode_u8 Op_Tee, sqe_fd := as_i32 fd_out,
            sqe_splice_fd_in := as_i32 fd_in, sqe_len := len, sqe_op_flags := flags\<rparr>"

definition Sqe_ftruncate :: "RawFd \<Rightarrow> u64 \<Rightarrow> IoUringSqe" where
  "Sqe_ftruncate fd len =
     ZEROED\<lparr>sqe_opcode := opcode_u8 Op_Ftruncate, sqe_fd := as_i32 fd, sqe_off := len\<rparr>"

definition Sqe_pipe_ptr :: "u64 \<Rightarrow> u32 \<Rightarrow> IoUringSqe" where
  "Sqe_pipe_ptr fds flags =
     ZEROED\<lparr>sqe_opcode := opcode_u8 Op_Pipe, sqe_addr := fds, sqe_op_flags := flags\<rparr>"

definition Sqe_pipe :: "u64 \<Rightarrow> u32 \<Rightarrow> IoUringSqe" where
  "Sqe_pipe fds flags = Sqe_pipe_ptr fds flags"

definition Sqe_pipe_direct :: "u64 \<Rightarrow> u32 \<Rightarrow> i32 \<Rightarrow> IoUringSqe" where
  "Sqe_pipe_direct fds flags slot = (Sqe_pipe_ptr fds flags)\<lparr>sqe_splice_fd_in := slot\<rparr>"

definition Sqe_fixed_fd_install :: "RawFd \<Rightarrow> u32 \<Rightarrow> IoUringSqe" where
  "Sqe_fixed_fd_install slot flags =
     ZEROED\<lparr>sqe_opcode := opcode_u8 Op_FixedFdInstall, sqe_fd := as_i32 slot,
            sqe_flags := SQE_FIXED_FILE, sqe_op_flags := flags\<rparr>"

end
