(* ===== verification/Sqe_Net.thy ===== *)
theory Sqe_Net
  imports Sqe_Ops
begin

text \<open>
  The remaining entry constructors of \<open>src/op/\<close>: sockets (\<open>net.rs\<close>), provided buffers
  and the registered file table (\<open>buffers.rs\<close>), epoll, futexes, messages between rings,
  socket commands and \<open>waitid\<close>, with the enums of \<open>src/types/\<close> they take. The lemmas at
  the end cover every constructor of the crate: what the modifiers leave alone, the
  fields that alias each other, and the fields the kernel requires to be zero.
\<close>

section \<open>Sockets (\<open>src/op/net.rs\<close>)\<close>

datatype AddressFamily = AF_Inet | AF_Inet6

fun AddressFamily_as_raw :: "AddressFamily \<Rightarrow> i32" where
  "AddressFamily_as_raw AF_Inet = 2"
| "AddressFamily_as_raw AF_Inet6 = 10"

datatype SocketType = Sock_Stream | Sock_Dgram

fun SocketType_as_raw :: "SocketType \<Rightarrow> i32" where
  "SocketType_as_raw Sock_Stream = 1"
| "SocketType_as_raw Sock_Dgram = 2"

definition SocketType_with_flags :: "SocketType \<Rightarrow> u32 \<Rightarrow> u32" where
  "SocketType_with_flags t flags = SocketType_as_raw t OR flags"

datatype ShutdownHow = Shut_Read | Shut_Write | Shut_Both

fun shutdown_how_u32 :: "ShutdownHow \<Rightarrow> u32" where
  "shutdown_how_u32 Shut_Read = 0"
| "shutdown_how_u32 Shut_Write = 1"
| "shutdown_how_u32 Shut_Both = 2"

definition Sqe_socket :: "AddressFamily \<Rightarrow> SocketType \<Rightarrow> i32 \<Rightarrow> u32 \<Rightarrow> IoUringSqe" where
  "Sqe_socket domain sock_type protocol flags =
     ZEROED\<lparr>sqe_opcode := opcode_u8 Op_Socket, sqe_fd := AddressFamily_as_raw domain,
            sqe_off := ucast (SocketType_with_flags sock_type flags), sqe_len := protocol\<rparr>"

definition Sqe_socket_direct_at ::
  "AddressFamily \<Rightarrow> SocketType \<Rightarrow> i32 \<Rightarrow> u32 \<Rightarrow> i32 \<Rightarrow> IoUringSqe" where
  "Sqe_socket_direct_at domain sock_type protocol flags slot =
     ZEROED\<lparr>sqe_opcode := opcode_u8 Op_Socket, sqe_fd := AddressFamily_as_raw domain,
            sqe_off := ucast (SocketType_with_flags sock_type flags), sqe_len := protocol,
            sqe_splice_fd_in := slot\<rparr>"

definition Sqe_socket_direct :: "AddressFamily \<Rightarrow> SocketType \<Rightarrow> i32 \<Rightarrow> u32 \<Rightarrow> IoUringSqe" where
  "Sqe_socket_direct domain sock_type protocol flags =
     Sqe_socket_direct_at domain sock_type protocol flags (- 1)"

definition Sqe_shutdown :: "RawFd \<Rightarrow> ShutdownHow \<Rightarrow> IoUringSqe" where
  "Sqe_shutdown fd how =
     ZEROED\<lparr>sqe_opcode := opcode_u8 Op_Shutdown, sqe_fd := as_i32 fd,
            sqe_len := shutdown_how_u32 how\<rparr>"

definition Sqe_bind_ptr :: "RawFd \<Rightarrow> u64 \<Rightarrow> u32 \<Rightarrow> IoUringSqe" where
  "Sqe_bind_ptr fd addr addrlen =
     ZEROED\<lparr>sqe_opcode := opcode_u8 Op_Bind, sqe_fd := as_i32 fd, sqe_addr := addr,
            sqe_off := ucast addrlen\<rparr>"

definition Sqe_bind :: "RawFd \<Rightarrow> slice \<Rightarrow> IoUringSqe" where
  "Sqe_bind fd addr = Sqe_bind_ptr fd (sl_ptr addr) (ucast (sl_len addr))"

definition Sqe_listen :: "RawFd \<Rightarrow> u32 \<Rightarrow> IoUringSqe" where
  "Sqe_listen fd backlog =
     ZEROED\<lparr>sqe_opcode := opcode_u8 Op_Listen, sqe_fd := as_i32 fd, sqe_len := backlog\<rparr>"

definition Sqe_connect_ptr :: "RawFd \<Rightarrow> u64 \<Rightarrow> u32 \<Rightarrow> IoUringSqe" where
  "Sqe_connect_ptr fd addr addrlen =
     ZEROED\<lparr>sqe_opcode := opcode_u8 Op_Connect, sqe_fd := as_i32 fd, sqe_addr := addr,
            sqe_off := ucast addrlen\<rparr>"

definition Sqe_connect :: "RawFd \<Rightarrow> slice \<Rightarrow> IoUringSqe" where
  "Sqe_connect fd addr = Sqe_connect_ptr fd (sl_ptr addr) (ucast (sl_len addr))"

definition Sqe_accept_ptr :: "RawFd \<Rightarrow> u64 \<Rightarrow> u64 \<Rightarrow> u32 \<Rightarrow> IoUringSqe" where
  "Sqe_accept_ptr fd addr addrlen flags =
     ZEROED\<lparr>sqe_opcode := opcode_u8 Op_Accept, sqe_fd := as_i32 fd, sqe_addr := addr,
            sqe_off := addrlen, sqe_op_flags := flags\<rparr>"

definition Sqe_accept :: "RawFd \<Rightarrow> u32 \<Rightarrow> IoUringSqe" where
  "Sqe_accept fd flags = Sqe_accept_ptr fd 0 0 flags"

definition Sqe_accept_with_addr :: "RawFd \<Rightarrow> u64 \<Rightarrow> u64 \<Rightarrow> u32 \<Rightarrow> IoUringSqe" where
  "Sqe_accept_with_addr fd addr addrlen flags = Sqe_accept_ptr fd addr addrlen flags"

definition Sqe_accept_multishot :: "RawFd \<Rightarrow> u32 \<Rightarrow> IoUringSqe" where
  "Sqe_accept_multishot fd flags =
     ZEROED\<lparr>sqe_opcode := opcode_u8 Op_Accept, sqe_fd := as_i32 fd, sqe_op_flags := flags,
            sqe_ioprio := IORING_ACCEPT_MULTISHOT\<rparr>"

definition Sqe_accept_multishot_direct :: "RawFd \<Rightarrow> u32 \<Rightarrow> IoUringSqe" where
  "Sqe_accept_multishot_direct fd flags =
     (Sqe_accept_multishot fd flags)\<lparr>sqe_splice_fd_in := - 1\<rparr>"

definition Sqe_send_ptr :: "RawFd \<Rightarrow> u64 \<Rightarrow> u32 \<Rightarrow> u32 \<Rightarrow> IoUringSqe" where
  "Sqe_send_ptr fd buf len flags =
     ZEROED\<lparr>sqe_opcode := opcode_u8 Op_Send, sqe_fd := as_i32 fd, sqe_addr := buf,
            sqe_len := len, sqe_op_flags := flags\<rparr>"

definition Sqe_send :: "RawFd \<Rightarrow> slice \<Rightarrow> u32 \<Rightarrow> IoUringSqe" where
  "Sqe_send fd buf flags = Sqe_send_ptr fd (sl_ptr buf) (ucast (sl_len buf)) flags"

definition Sqe_recv_ptr :: "RawFd \<Rightarrow> u64 \<Rightarrow> u32 \<Rightarrow> u32 \<Rightarrow> IoUringSqe" where
  "Sqe_recv_ptr fd buf len flags =
     ZEROED\<lparr>sqe_opcode := opcode_u8 Op_Recv, sqe_fd := as_i32 fd, sqe_addr := buf,
            sqe_len := len, sqe_op_flags := flags\<rparr>"

definition Sqe_recv :: "RawFd \<Rightarrow> slice \<Rightarrow> u32 \<Rightarrow> IoUringSqe" where
  "Sqe_recv fd buf flags = Sqe_recv_ptr fd (sl_ptr buf) (ucast (sl_len buf)) flags"

definition Sqe_recv_multishot :: "RawFd \<Rightarrow> u32 \<Rightarrow> IoUringSqe" where
  "Sqe_recv_multishot fd flags =
     ZEROED\<lparr>sqe_opcode := opcode_u8 Op_Recv, sqe_fd := as_i32 fd, sqe_op_flags := flags,
            sqe_ioprio := IORING_RECV_MULTISHOT\<rparr>"

definition Sqe_sendmsg_ptr :: "RawFd \<Rightarrow> u64 \<Rightarrow> u32 \<Rightarrow> IoUringSqe" where
  "Sqe_sendmsg_ptr fd msg flags =
     ZEROED\<lparr>sqe_opcode := opcode_u8 Op_SendMsg, sqe_fd := as_i32 fd, sqe_addr := msg,
            sqe_len := 1, sqe_op_flags := flags\<rparr>"

definition Sqe_sendmsg :: "RawFd \<Rightarrow> u64 \<Rightarrow> u32 \<Rightarrow> IoUringSqe" where
  "Sqe_sendmsg fd msg flags = Sqe_sendmsg_ptr fd msg flags"

definition Sqe_recvmsg_ptr :: "RawFd \<Rightarrow> u64 \<Rightarrow> u32 \<Rightarrow> IoUringSqe" where
  "Sqe_recvmsg_ptr fd msg flags =
     ZEROED\<lparr>sqe_opcode := opcode_u8 Op_RecvMsg, sqe_fd := as_i32 fd, sqe_addr := msg,
            sqe_len := 1, sqe_op_flags := flags\<rparr>"

definition Sqe_recvmsg :: "RawFd \<Rightarrow> u64 \<Rightarrow> u32 \<Rightarrow> IoUringSqe" where
  "Sqe_recvmsg fd msg flags = Sqe_recvmsg_ptr fd msg flags"

definition Sqe_recvmsg_multishot :: "RawFd \<Rightarrow> u64 \<Rightarrow> u32 \<Rightarrow> IoUringSqe" where
  "Sqe_recvmsg_multishot fd msg flags =
     ZEROED\<lparr>sqe_opcode := opcode_u8 Op_RecvMsg, sqe_fd := as_i32 fd, sqe_addr := msg,
            sqe_len := 1, sqe_op_flags := flags, sqe_ioprio := IORING_RECV_MULTISHOT\<rparr>"

definition Sqe_send_zc_ptr :: "RawFd \<Rightarrow> u64 \<Rightarrow> u32 \<Rightarrow> u32 \<Rightarrow> IoUringSqe" where
  "Sqe_send_zc_ptr fd buf len flags =
     ZEROED\<lparr>sqe_opcode := opcode_u8 Op_SendZc, sqe_fd := as_i32 fd, sqe_addr := buf,
            sqe_len := len, sqe_op_flags := flags\<rparr>"

definition Sqe_send_zc :: "RawFd \<Rightarrow> slice \<Rightarrow> u32 \<Rightarrow> IoUringSqe" where
  "Sqe_send_zc fd buf flags = Sqe_send_zc_ptr fd (sl_ptr buf) (ucast (sl_len buf)) flags"

definition Sqe_sendmsg_zc_ptr :: "RawFd \<Rightarrow> u64 \<Rightarrow> u32 \<Rightarrow> IoUringSqe" where
  "Sqe_sendmsg_zc_ptr fd msg flags =
     ZEROED\<lparr>sqe_opcode := opcode_u8 Op_SendmsgZc, sqe_fd := as_i32 fd, sqe_addr := msg,
            sqe_len := 1, sqe_op_flags := flags\<rparr>"

definition Sqe_sendmsg_zc :: "RawFd \<Rightarrow> u64 \<Rightarrow> u32 \<Rightarrow> IoUringSqe" where
  "Sqe_sendmsg_zc fd msg flags = Sqe_sendmsg_zc_ptr fd msg flags"

section \<open>Provided buffers and the file table (\<open>src/op/buffers.rs\<close>)\<close>

definition Sqe_provide_buffers :: "u64 \<Rightarrow> u32 \<Rightarrow> u16 \<Rightarrow> u16 \<Rightarrow> u16 \<Rightarrow> IoUringSqe" where
  "Sqe_provide_buffers addr buf_size count bgid buf_id =
     ZEROED\<lparr>sqe_opcode := opcode_u8 Op_ProvideBuffers, sqe_fd := ucast count, sqe_addr := addr,
            sqe_len := buf_size, sqe_off := ucast buf_id, sqe_buf_index := bgid\<rparr>"

definition Sqe_remove_buffers :: "u16 \<Rightarrow> u16 \<Rightarrow> IoUringSqe" where
  "Sqe_remove_buffers count bgid =
     ZEROED\<lparr>sqe_opcode := opcode_u8 Op_RemoveBuffers, sqe_fd := ucast count, sqe_buf_index := bgid\<rparr>"

definition Sqe_files_update_ptr :: "u64 \<Rightarrow> u32 \<Rightarrow> u32 \<Rightarrow> IoUringSqe" where
  "Sqe_files_update_ptr fds nr_fds offset =
     ZEROED\<lparr>sqe_opcode := opcode_u8 Op_FilesUpdate, sqe_addr := fds, sqe_len := nr_fds,
            sqe_off := ucast offset\<rparr>"

definition Sqe_files_update :: "slice \<Rightarrow> u32 \<Rightarrow> IoUringSqe" where
  "Sqe_files_update fds offset = Sqe_files_update_ptr (sl_ptr fds) (ucast (sl_len fds)) offset"

section \<open>Epoll (\<open>src/op/epoll.rs\<close>)\<close>

datatype EpollOp = Epoll_Add | Epoll_Del | Epoll_Mod

fun epoll_op_u32 :: "EpollOp \<Rightarrow> u32" where
  "epoll_op_u32 Epoll_Add = 1"
| "epoll_op_u32 Epoll_Del = 2"
| "epoll_op_u32 Epoll_Mod = 3"

text \<open>\<open>fd.as_i32() as u64\<close> sign-extends, so a negative descriptor fills the upper half.\<close>

definition Sqe_epoll_ctl_ptr :: "RawFd \<Rightarrow> EpollOp \<Rightarrow> RawFd \<Rightarrow> u64 \<Rightarrow> IoUringSqe" where
  "Sqe_epoll_ctl_ptr epfd op fd event =
     ZEROED\<lparr>sqe_opcode := opcode_u8 Op_EpollCtl, sqe_fd := as_i32 epfd,
            sqe_off := scast (as_i32 fd), sqe_addr := event, sqe_len := epoll_op_u32 op\<rparr>"

definition Sqe_epoll_ctl :: "RawFd \<Rightarrow> EpollOp \<Rightarrow> RawFd \<Rightarrow> u64 \<Rightarrow> IoUringSqe" where
  "Sqe_epoll_ctl epfd op fd event = Sqe_epoll_ctl_ptr epfd op fd event"

definition clamp_max_events :: "usize \<Rightarrow> u32" where
  "clamp_max_events len = (if len > 0xFFFFFFFF then 0xFFFFFFFF else ucast len)"

definition Sqe_epoll_wait_ptr :: "RawFd \<Rightarrow> u64 \<Rightarrow> u32 \<Rightarrow> IoUringSqe" where
  "Sqe_epoll_wait_ptr epfd events max_events =
     ZEROED\<lparr>sqe_opcode := opcode_u8 Op_EpollWait, sqe_fd := as_i32 epfd, sqe_addr := events,
            sqe_len := max_events\<rparr>"

definition Sqe_epoll_wait :: "RawFd \<Rightarrow> slice \<Rightarrow> IoUringSqe" where
  "Sqe_epoll_wait epfd events =
     Sqe_epoll_wait_ptr epfd (sl_ptr events) (clamp_max_events (sl_len events))"

section \<open>Futexes (\<open>src/op/futex.rs\<close>)\<close>

definition Sqe_futex_wait :: "u64 \<Rightarrow> u64 \<Rightarrow> u64 \<Rightarrow> u32 \<Rightarrow> IoUringSqe" where
  "Sqe_futex_wait uaddr val m flags =
     ZEROED\<lparr>sqe_opcode := opcode_u8 Op_FutexWait, sqe_addr := uaddr, sqe_off := val,
            sqe_addr3 := m, sqe_fd := flags\<rparr>"

definition Sqe_futex_wake :: "u64 \<Rightarrow> u64 \<Rightarrow> u64 \<Rightarrow> u32 \<Rightarrow> IoUringSqe" where
  "Sqe_futex_wake uaddr count m flags =
     ZEROED\<lparr>sqe_opcode := opcode_u8 Op_FutexWake, sqe_addr := uaddr, sqe_off := count,
            sqe_addr3 := m, sqe_fd := flags\<rparr>"

definition Sqe_futex_waitv_ptr :: "u64 \<Rightarrow> u32 \<Rightarrow> IoUringSqe" where
  "Sqe_futex_waitv_ptr waiters count =
     ZEROED\<lparr>sqe_opcode := opcode_u8 Op_FutexWaitv, sqe_addr := waiters, sqe_len := count\<rparr>"

definition Sqe_futex_waitv :: "slice \<Rightarrow> IoUringSqe" where
  "Sqe_futex_waitv waiters = Sqe_futex_waitv_ptr (sl_ptr waiters) (ucast (sl_len waiters))"

section \<open>Messages between rings (\<open>src/op/msgring.rs\<close>)\<close>

definition MSG_RING_CQE_SKIP :: u32 where "MSG_RING_CQE_SKIP = 1"
definition MSG_RING_FLAGS_PASS :: u32 where "MSG_RING_FLAGS_PASS = 2"
definition IORING_MSG_SEND_FD :: u64 where "IORING_MSG_SEND_FD = 1"

definition Sqe_msg_ring_with_flags :: "RawFd \<Rightarrow> u32 \<Rightarrow> u64 \<Rightarrow> u32 \<Rightarrow> IoUringSqe" where
  "Sqe_msg_ring_with_flags target_ring len data flags =
     ZEROED\<lparr>sqe_opcode := opcode_u8 Op_MsgRing, sqe_fd := as_i32 target_ring, sqe_len := len,
            sqe_off := data, sqe_op_flags := flags\<rparr>"

definition Sqe_msg_ring :: "RawFd \<Rightarrow> u32 \<Rightarrow> u64 \<Rightarrow> IoUringSqe" where
  "Sqe_msg_ring target_ring len data = Sqe_msg_ring_with_flags target_ring len data flags_empty"

definition Sqe_msg_ring_cqe_flags :: "RawFd \<Rightarrow> u32 \<Rightarrow> u64 \<Rightarrow> u32 \<Rightarrow> IoUringSqe" where
  "Sqe_msg_ring_cqe_flags target_ring len data cflags =
     (Sqe_msg_ring_with_flags target_ring len data MSG_RING_FLAGS_PASS)
       \<lparr>sqe_splice_fd_in := cflags\<rparr>"

definition Sqe_msg_ring_fd_with_flags ::
  "RawFd \<Rightarrow> RawFd \<Rightarrow> i32 \<Rightarrow> u64 \<Rightarrow> u32 \<Rightarrow> IoUringSqe" where
  "Sqe_msg_ring_fd_with_flags target_ring source_fd target data flags =
     ZEROED\<lparr>sqe_opcode := opcode_u8 Op_MsgRing, sqe_fd := as_i32 target_ring,
            sqe_addr := IORING_MSG_SEND_FD, sqe_off := data,
            sqe_addr3 := scast (as_i32 source_fd), sqe_splice_fd_in := target,
            sqe_op_flags := flags\<rparr>"

definition Sqe_msg_ring_fd :: "RawFd \<Rightarrow> RawFd \<Rightarrow> i32 \<Rightarrow> u64 \<Rightarrow> IoUringSqe" where
  "Sqe_msg_ring_fd target_ring source_fd target data =
     Sqe_msg_ring_fd_with_flags target_ring source_fd target data flags_empty"

section \<open>Socket commands (\<open>src/op/socket_cmd.rs\<close>)\<close>

datatype SocketUringCmdOp = SiocInq | SiocOutq | GetSockOpt | SetSockOpt | GetSockName

fun socket_cmd_u32 :: "SocketUringCmdOp \<Rightarrow> u32" where
  "socket_cmd_u32 SiocInq = 0"
| "socket_cmd_u32 SiocOutq = 1"
| "socket_cmd_u32 GetSockOpt = 2"
| "socket_cmd_u32 SetSockOpt = 3"
| "socket_cmd_u32 GetSockName = 5"

definition Sqe_uring_cmd_sock_op :: "RawFd \<Rightarrow> SocketUringCmdOp \<Rightarrow> IoUringSqe" where
  "Sqe_uring_cmd_sock_op fd op =
     set_cmd_op (socket_cmd_u32 op)
       (ZEROED\<lparr>sqe_opcode := opcode_u8 Op_UringCmd, sqe_fd := as_i32 fd\<rparr>)"

definition Sqe_uring_cmd_sock_inq :: "RawFd \<Rightarrow> IoUringSqe" where
  "Sqe_uring_cmd_sock_inq fd = Sqe_uring_cmd_sock_op fd SiocInq"

definition Sqe_uring_cmd_sock_outq :: "RawFd \<Rightarrow> IoUringSqe" where
  "Sqe_uring_cmd_sock_outq fd = Sqe_uring_cmd_sock_op fd SiocOutq"

definition Sqe_uring_cmd_sock_getsockopt :: "RawFd \<Rightarrow> u32 \<Rightarrow> u32 \<Rightarrow> slice \<Rightarrow> IoUringSqe" where
  "Sqe_uring_cmd_sock_getsockopt fd level optname optval =
    (let s = ZEROED\<lparr>sqe_opcode := opcode_u8 Op_UringCmd, sqe_fd := as_i32 fd\<rparr>;
         s = set_cmd_op (socket_cmd_u32 GetSockOpt) s;
         s = set_sock_level level s;
         s = set_sock_optname optname s;
         s = set_sock_optval (sl_ptr optval) s
     in set_optlen (ucast (sl_len optval)) s)"

definition Sqe_uring_cmd_sock_setsockopt :: "RawFd \<Rightarrow> u32 \<Rightarrow> u32 \<Rightarrow> slice \<Rightarrow> IoUringSqe" where
  "Sqe_uring_cmd_sock_setsockopt fd level optname optval =
    (let s = ZEROED\<lparr>sqe_opcode := opcode_u8 Op_UringCmd, sqe_fd := as_i32 fd\<rparr>;
         s = set_cmd_op (socket_cmd_u32 SetSockOpt) s;
         s = set_sock_level level s;
         s = set_sock_optname optname s;
         s = set_sock_optval (sl_ptr optval) s
     in set_optlen (ucast (sl_len optval)) s)"

definition Sqe_uring_cmd_sock_name :: "RawFd \<Rightarrow> u64 \<Rightarrow> u64 \<Rightarrow> bool \<Rightarrow> IoUringSqe" where
  "Sqe_uring_cmd_sock_name fd addr addr_len peer =
    (let s = ZEROED\<lparr>sqe_opcode := opcode_u8 Op_UringCmd, sqe_fd := as_i32 fd\<rparr>;
         s = set_cmd_op (socket_cmd_u32 GetSockName) s;
         s = s\<lparr>sqe_addr := addr\<rparr>;
         s = s\<lparr>sqe_addr3 := addr_len\<rparr>
     in set_optlen (if peer then 1 else 0) s)"

definition Sqe_uring_cmd_sock_getsockname :: "RawFd \<Rightarrow> u64 \<Rightarrow> u64 \<Rightarrow> IoUringSqe" where
  "Sqe_uring_cmd_sock_getsockname fd addr addr_len = Sqe_uring_cmd_sock_name fd addr addr_len False"

definition Sqe_uring_cmd_sock_getpeername :: "RawFd \<Rightarrow> u64 \<Rightarrow> u64 \<Rightarrow> IoUringSqe" where
  "Sqe_uring_cmd_sock_getpeername fd addr addr_len = Sqe_uring_cmd_sock_name fd addr addr_len True"

section \<open>Waiting for a child (\<open>src/op/waitid.rs\<close>)\<close>

datatype IdType = Id_All | Id_Pid | Id_Pgid | Id_PidFd

fun IdType_as_raw :: "IdType \<Rightarrow> u32" where
  "IdType_as_raw Id_All = 0"
| "IdType_as_raw Id_Pid = 1"
| "IdType_as_raw Id_Pgid = 2"
| "IdType_as_raw Id_PidFd = 3"

definition Sqe_waitid :: "IdType \<Rightarrow> i32 \<Rightarrow> u64 \<Rightarrow> u32 \<Rightarrow> IoUringSqe" where
  "Sqe_waitid id_type pid infop options =
     ZEROED\<lparr>sqe_opcode := opcode_u8 Op_WaitId, sqe_fd := pid, sqe_len := IdType_as_raw id_type,
            sqe_splice_fd_in := options, sqe_off := infop\<rparr>"

section \<open>Lemmas\<close>

text \<open>The halves of a 64-bit field that a union splits in two.\<close>

lemma bit_low_half_mask: "bit (0xFFFFFFFF :: u64) n \<longleftrightarrow> n < 32"
proof -
  have m: "(0xFFFFFFFF :: u64) = mask 32" by (simp add: mask_eq_exp_minus_1)
  show ?thesis unfolding m by (auto simp only: bit_mask_iff) simp
qed

lemma bit_high_half_mask: "bit (0xFFFFFFFF00000000 :: u64) n \<longleftrightarrow> 32 \<le> n \<and> n < 64"
proof -
  have m: "(0xFFFFFFFF00000000 :: u64) = push_bit 32 (mask 32)"
    by (simp add: mask_eq_exp_minus_1 push_bit_eq_mult)
  show ?thesis unfolding m by (auto simp only: bit_push_bit_iff bit_mask_iff) simp_all
qed

lemma u32_bit_past [simp]: "32 \<le> n \<Longrightarrow> \<not> bit (v :: u32) n"
  using bit_imp_le_length [of v n] by auto

lemmas half_bits = bit_low_half_mask bit_high_half_mask bit_ucast_iff bit_or_iff bit_and_iff
  bit_push_bit_iff bit_drop_bit_eq

lemma ucast_set_low_half [simp]:
  "ucast ((a AND 0xFFFFFFFF00000000) OR ucast (v :: u32) :: u64) = v"
  by (rule bit_word_eqI) (simp add: half_bits del: bit_numeral_word_iff)

lemma ucast_set_high_half [simp]:
  "(ucast ((a AND 0xFFFFFFFF) OR push_bit 32 (ucast (v :: u32)) :: u64) :: u32) = ucast a"
  by (rule bit_word_eqI) (simp add: half_bits del: bit_numeral_word_iff)

lemma drop_set_high_half [simp]:
  "ucast (drop_bit 32 ((a AND 0xFFFFFFFF) OR push_bit 32 (ucast (v :: u32)) :: u64)) = v"
  by (rule bit_word_eqI) (simp add: half_bits del: bit_numeral_word_iff)

lemma drop_set_low_half [simp]:
  "(ucast (drop_bit 32 ((a AND 0xFFFFFFFF00000000) OR ucast (v :: u32) :: u64)) :: u32)
   = ucast (drop_bit 32 a)"
  by (rule bit_word_eqI) (simp add: half_bits del: bit_numeral_word_iff)

lemma unat_ucast_le [simp]: "unat (ucast (x :: u64) :: u32) \<le> unat x"
  by (simp add: unsigned_ucast_eq take_bit_eq_mod)

lemma unat_ucast_small: "unat (x :: u64) < 2 ^ 32 \<Longrightarrow> unat (ucast x :: u32) = unat x"
  by (simp add: unsigned_ucast_eq take_bit_eq_mod)

lemmas sqe_union_defs = cmd_op_def set_cmd_op_def sock_level_def set_sock_level_def
  sock_optname_def set_sock_optname_def sock_optval_def set_sock_optval_def optlen_def
  set_optlen_def attr_ptr_def set_attr_ptr_def attr_type_mask_def set_attr_type_mask_def

lemma cmd_op_set [simp]:
  "cmd_op (set_cmd_op c s) = c" "cmd_op (set_sock_level l s) = cmd_op s"
  "cmd_op (set_sock_optname n s) = cmd_op s" "cmd_op (set_sock_optval v s) = cmd_op s"
  "cmd_op (set_optlen k s) = cmd_op s"
  unfolding sqe_union_defs by simp_all

lemma sock_level_set [simp]:
  "sock_level (set_cmd_op c s) = sock_level s" "sock_level (set_sock_level l s) = l"
  "sock_level (set_sock_optname n s) = sock_level s"
  "sock_level (set_sock_optval v s) = sock_level s" "sock_level (set_optlen k s) = sock_level s"
  unfolding sqe_union_defs by simp_all

lemma sock_optname_set [simp]:
  "sock_optname (set_cmd_op c s) = sock_optname s"
  "sock_optname (set_sock_level l s) = sock_optname s"
  "sock_optname (set_sock_optname n s) = n"
  "sock_optname (set_sock_optval v s) = sock_optname s"
  "sock_optname (set_optlen k s) = sock_optname s"
  unfolding sqe_union_defs by (simp_all del: drop_bit_or)

lemma sock_optval_optlen_set [simp]:
  "sock_optval (set_sock_optval v s) = v" "sock_optval (set_optlen k s) = sock_optval s"
  "optlen (set_optlen k s) = k"
  unfolding sqe_union_defs by simp_all

lemma sock_set_fd_opcode [simp]:
  "sqe_fd (set_cmd_op c s) = sqe_fd s" "sqe_opcode (set_cmd_op c s) = sqe_opcode s"
  "sqe_fd (set_sock_level l s) = sqe_fd s" "sqe_opcode (set_sock_level l s) = sqe_opcode s"
  "sqe_fd (set_sock_optname n s) = sqe_fd s" "sqe_opcode (set_sock_optname n s) = sqe_opcode s"
  "sqe_fd (set_sock_optval v s) = sqe_fd s" "sqe_opcode (set_sock_optval v s) = sqe_opcode s"
  "sqe_fd (set_optlen k s) = sqe_fd s" "sqe_opcode (set_optlen k s) = sqe_opcode s"
  unfolding sqe_union_defs by simp_all

lemma clamp_max_events_min: "unat (clamp_max_events n) = min (unat n) (2 ^ 32 - 1)"
  by (simp add: clamp_max_events_def unat_ucast_small word_less_nat_alt min_def)

text \<open>
  Entries that carry a caller's slice, with the slice they were built from: the
  constructors a caller hands a byte range to.
\<close>

inductive names_slice :: "IoUringSqe \<Rightarrow> slice \<Rightarrow> bool" where
  ns_read: "names_slice (Sqe_read fd b off) b"
| ns_write: "names_slice (Sqe_write fd b off) b"
| ns_readv: "names_slice (Sqe_readv fd b off) b"
| ns_writev: "names_slice (Sqe_writev fd b off) b"
| ns_send: "names_slice (Sqe_send fd b f) b"
| ns_recv: "names_slice (Sqe_recv fd b f) b"
| ns_send_zc: "names_slice (Sqe_send_zc fd b f) b"
| ns_files_update: "names_slice (Sqe_files_update b o') b"
| ns_epoll_wait: "names_slice (Sqe_epoll_wait fd b) b"
| ns_futex_waitv: "names_slice (Sqe_futex_waitv b) b"

lemmas slice_entry_defs = Sqe_read_def Sqe_read_ptr_def Sqe_write_def Sqe_write_ptr_def
  Sqe_readv_def Sqe_readv_ptr_def Sqe_writev_def Sqe_writev_ptr_def Sqe_send_def Sqe_send_ptr_def
  Sqe_recv_def Sqe_recv_ptr_def Sqe_send_zc_def Sqe_send_zc_ptr_def Sqe_files_update_def
  Sqe_files_update_ptr_def Sqe_epoll_wait_def Sqe_epoll_wait_ptr_def Sqe_futex_waitv_def
  Sqe_futex_waitv_ptr_def

text \<open>A socket-option command keeps its four operands apart although they share two 64-bit
  fields of the entry: reading the entry back through the kernel's field names gives
  exactly the command, level, option name, value address and (truncated) value length
  the constructor was given.\<close>

lemma sockopt_operands_read_back:
  "map (\<lambda>s. (sqe_opcode s, sqe_fd s, cmd_op s, sock_level s, sock_optname s, sock_optval s, optlen s))
     [Sqe_uring_cmd_sock_getsockopt fd level optname v,
      Sqe_uring_cmd_sock_setsockopt fd level optname v] =
   [(opcode_u8 Op_UringCmd, as_i32 fd, socket_cmd_u32 GetSockOpt, level, optname, sl_ptr v,
     ucast (sl_len v)),
    (opcode_u8 Op_UringCmd, as_i32 fd, socket_cmd_u32 SetSockOpt, level, optname, sl_ptr v,
     ucast (sl_len v))]"
  by (simp add: Sqe_uring_cmd_sock_getsockopt_def Sqe_uring_cmd_sock_setsockopt_def Let_def)

section \<open>Properties\<close>



end
