(* ===== verification/Ring.thy ===== *)
theory Ring
  imports Ring_Interface Sqe_Net
begin

text \<open>
  The ring itself (\<open>src/ring/mod.rs\<close>): pushing entries, publishing the submission tail,
  entering the kernel, reaping completions and releasing their slots, for the unified
  \<open>IoUring\<close> and for the \<open>Submitter\<close> and \<open>Completer\<close> halves that \<open>split\<close> produces.

  The memory shared with the kernel is the record \<open>shm\<close>: a load or store through one of
  the ring's raw pointers is a read or an update of the field the pointer was parsed to
  point at (\<open>Setup\<close> models the parsing). The handles keep the pointers as addresses, since
  \<open>split\<close> copies them. The kernel is a parameter: \<open>enter\<close> is the \<open>io_uring_enter\<close> system
  call, taking the kernel's own state and the shared memory and returning the raw return
  value with both updated. What the crate relies on is stated as predicates on shared
  memory and on \<open>enter\<close> (\<open>kernel_moves\<close>, \<open>kernel_counts\<close>) and appears as a hypothesis.
\<close>

section \<open>Shared memory and the kernel\<close>

record shm =
  m_sq_head :: u32
  m_sq_tail :: u32
  m_sq_flags :: u32
  m_sqes :: "IoUringSqe list"
  m_cq_head :: u32
  m_cq_tail :: u32
  m_cqes :: "IoUringCqe list"

type_synonym 'k enter_fn = "RawFd \<Rightarrow> u32 \<Rightarrow> u32 \<Rightarrow> u32 \<Rightarrow> 'k \<times> shm \<Rightarrow> isize \<times> 'k \<times> shm"

definition io_uring_enter ::
  "'k enter_fn \<Rightarrow> RawFd \<Rightarrow> u32 \<Rightarrow> u32 \<Rightarrow> u32 \<Rightarrow> 'k \<times> shm \<Rightarrow> (usize, Errno) result \<times> 'k \<times> shm" where
  "io_uring_enter enter fd to_submit min_complete flags w =
     (case enter fd to_submit min_complete flags w of (ret, w') \<Rightarrow> (check ret, w'))"

section \<open>Completions\<close>

record Completion =
  user_data :: u64
  res_code :: i32
  cflags :: u32

definition into_result :: "Completion \<Rightarrow> (u32, Error) result" where
  "into_result c =
     (if sint (res_code c) < 0 then Err (Completion_error (Failed (Errno (- res_code c))))
      else Ok (res_code c))"

definition Completion_is_err :: "Completion \<Rightarrow> bool" where
  "Completion_is_err c \<longleftrightarrow> sint (res_code c) < 0"

definition Completion_buffer_id :: "Completion \<Rightarrow> u16 option" where
  "Completion_buffer_id c =
     (if contains (cflags c) CQE_BUFFER then Some (ucast (drop_bit 16 (cflags c))) else None)"

section \<open>The handles\<close>

record IoUring =
  r_fd :: RawFd
  r_sq_head :: u64
  r_sq_tail :: u64
  r_sq_mask :: u32
  r_sq_flags :: u64
  r_sqes :: u64
  r_sq_tail_local :: u32
  r_sq_submitted :: u32
  r_cq_head :: u64
  r_cq_tail :: u64
  r_cq_mask :: u32
  r_cqes :: u64
  r_cq_head_local :: u32
  r_features :: u32
  r_setup_flags :: u32
  r_do_tag_next :: u64
  r_resources :: u64

record Submitter =
  s_fd :: RawFd
  s_sq_head :: u64
  s_sq_tail :: u64
  s_sq_mask :: u32
  s_sq_flags :: u64
  s_sqes :: u64
  s_sq_tail_local :: u32
  s_sq_submitted :: u32
  s_features :: u32
  s_resources :: u64

record Completer =
  c_fd :: RawFd
  c_cq_head :: u64
  c_cq_tail :: u64
  c_cq_mask :: u32
  c_cqes :: u64
  c_cq_head_local :: u32
  c_resources :: u64

section \<open>The submission half\<close>

definition IORING_SQ_NEED_WAKEUP :: u32 where "IORING_SQ_NEED_WAKEUP = 1"
definition IORING_SQ_CQ_OVERFLOW :: u32 where "IORING_SQ_CQ_OVERFLOW = 2"

definition Submitter_push ::
  "IoUringSqe \<Rightarrow> Submitter \<Rightarrow> shm \<Rightarrow> (unit, Error) result \<times> Submitter \<times> shm" where
  "Submitter_push sqe s m =
    (let head = m_sq_head m;
         next_tail = s_sq_tail_local s + 1
     in if next_tail - head > s_sq_mask s + 1 then (Err (Submit QueueFull), s, m)
        else let idx = s_sq_tail_local s AND s_sq_mask s
             in (Ok (), s\<lparr>s_sq_tail_local := next_tail\<rparr>,
                 m\<lparr>m_sqes := (m_sqes m)[unat idx := sqe]\<rparr>))"

definition Submitter_push_nop ::
  "u64 \<Rightarrow> Submitter \<Rightarrow> shm \<Rightarrow> (unit, Error) result \<times> Submitter \<times> shm" where
  "Submitter_push_nop data s m = Submitter_push (Sqe_user_data data Sqe_nop) s m"

definition Submitter_flush_sq_tail :: "Submitter \<Rightarrow> shm \<Rightarrow> shm" where
  "Submitter_flush_sq_tail s m = m\<lparr>m_sq_tail := s_sq_tail_local s\<rparr>"

definition Submitter_sq_need_wakeup :: "Submitter \<Rightarrow> shm \<Rightarrow> bool" where
  "Submitter_sq_need_wakeup s m \<longleftrightarrow> m_sq_flags m AND IORING_SQ_NEED_WAKEUP \<noteq> 0"

definition Submitter_sq_capacity :: "Submitter \<Rightarrow> u32" where
  "Submitter_sq_capacity s = s_sq_mask s + 1"

definition Submitter_sq_space_left :: "Submitter \<Rightarrow> shm \<Rightarrow> u32" where
  "Submitter_sq_space_left s m =
     Submitter_sq_capacity s - (s_sq_tail_local s - m_sq_head m)"

definition Submitter_submit ::
  "'k enter_fn \<Rightarrow> Submitter \<Rightarrow> 'k \<times> shm \<Rightarrow> (u32, Error) result \<times> Submitter \<times> 'k \<times> shm" where
  "Submitter_submit enter s w =
    (let to_submit = s_sq_tail_local s - s_sq_submitted s;
         w = (fst w, Submitter_flush_sq_tail s (snd w))
     in if to_submit = 0 then (Ok 0, s, w)
        else case io_uring_enter enter (s_fd s) to_submit 0 flags_empty w of
          (Err e, w) \<Rightarrow> (Err (Error_from_Errno e), s, w)
        | (Ok ret, w) \<Rightarrow>
            let consumed = ucast ret
            in (Ok consumed, s\<lparr>s_sq_submitted := s_sq_submitted s + consumed\<rparr>, w))"

definition Submitter_submit_and_wait ::
  "'k enter_fn \<Rightarrow> u32 \<Rightarrow> Submitter \<Rightarrow> 'k \<times> shm \<Rightarrow> (u32, Error) result \<times> Submitter \<times> 'k \<times> shm" where
  "Submitter_submit_and_wait enter min_complete s w =
    (let to_submit = s_sq_tail_local s - s_sq_submitted s;
         w = (fst w, Submitter_flush_sq_tail s (snd w))
     in case io_uring_enter enter (s_fd s) to_submit min_complete ENTER_GETEVENTS w of
          (Err e, w) \<Rightarrow> (Err (Error_from_Errno e), s, w)
        | (Ok ret, w) \<Rightarrow>
            let consumed = ucast ret
            in (Ok consumed, s\<lparr>s_sq_submitted := s_sq_submitted s + consumed\<rparr>, w))"

definition Submitter_submit_sqpoll ::
  "'k enter_fn \<Rightarrow> Submitter \<Rightarrow> 'k \<times> shm \<Rightarrow> (unit, Error) result \<times> Submitter \<times> 'k \<times> shm" where
  "Submitter_submit_sqpoll enter s w =
    (let w = (fst w, Submitter_flush_sq_tail s (snd w));
         s = s\<lparr>s_sq_submitted := s_sq_tail_local s\<rparr>
     in if Submitter_sq_need_wakeup s (snd w)
        then case io_uring_enter enter (s_fd s) 0 0 ENTER_SQ_WAKEUP w of
               (Err e, w) \<Rightarrow> (Err (Error_from_Errno e), s, w)
             | (Ok ret, w) \<Rightarrow> (Ok (), s, w)
        else (Ok (), s, w))"

section \<open>The completion half\<close>

definition Completer_cq_capacity :: "Completer \<Rightarrow> u32" where
  "Completer_cq_capacity c = c_cq_mask c + 1"

definition Completer_complete :: "Completer \<Rightarrow> shm \<Rightarrow> (Completion \<times> Completer) option" where
  "Completer_complete c m =
    (let tail = m_cq_tail m
     in if c_cq_head_local c = tail then None
        else let idx = c_cq_head_local c AND c_cq_mask c;
                 cqe = m_cqes m ! unat idx;
                 completion = \<lparr>user_data = cqe_user_data cqe, res_code = cqe_res cqe,
                               cflags = cqe_flags cqe\<rparr>
             in Some (completion, c\<lparr>c_cq_head_local := c_cq_head_local c + 1\<rparr>))"

definition Completer_sync_cq :: "Completer \<Rightarrow> shm \<Rightarrow> shm" where
  "Completer_sync_cq c m = m\<lparr>m_cq_head := c_cq_head_local c\<rparr>"

definition Completer_wait ::
  "'k enter_fn \<Rightarrow> u32 \<Rightarrow> Completer \<Rightarrow> 'k \<times> shm \<Rightarrow> (unit, Error) result \<times> 'k \<times> shm" where
  "Completer_wait enter min_complete c w =
    (let w = (fst w, Completer_sync_cq c (snd w))
     in case io_uring_enter enter (c_fd c) 0 min_complete ENTER_GETEVENTS w of
          (Err e, w) \<Rightarrow> (Err (Error_from_Errno e), w)
        | (Ok ret, w) \<Rightarrow> (Ok (), w))"

definition SplitCompletions_size_hint :: "Completer \<Rightarrow> shm \<Rightarrow> usize \<times> usize option" where
  "SplitCompletions_size_hint c m = (ucast (m_cq_tail m - c_cq_head_local c), None)"

text \<open>Draining the iterator \<open>completions()\<close>: \<open>next\<close> until it gives \<open>None\<close>.\<close>

function Completer_drain :: "Completer \<Rightarrow> shm \<Rightarrow> Completion list \<times> Completer" where
  "Completer_drain c m =
    (case Completer_complete c m of
       None \<Rightarrow> ([], c)
     | Some (x, c') \<Rightarrow> (case Completer_drain c' m of (xs, c'') \<Rightarrow> (x # xs, c'')))"
  by pat_completeness auto

section \<open>The unified ring\<close>

definition IoUring_push ::
  "IoUringSqe \<Rightarrow> IoUring \<Rightarrow> shm \<Rightarrow> (unit, Error) result \<times> IoUring \<times> shm" where
  "IoUring_push sqe r m =
    (let head = m_sq_head m;
         next_tail = r_sq_tail_local r + 1
     in if next_tail - head > r_sq_mask r + 1 then (Err (Submit QueueFull), r, m)
        else let idx = r_sq_tail_local r AND r_sq_mask r
             in (Ok (), r\<lparr>r_sq_tail_local := next_tail\<rparr>,
                 m\<lparr>m_sqes := (m_sqes m)[unat idx := sqe]\<rparr>))"

definition IoUring_push_nop ::
  "u64 \<Rightarrow> IoUring \<Rightarrow> shm \<Rightarrow> (unit, Error) result \<times> IoUring \<times> shm" where
  "IoUring_push_nop data r m = IoUring_push (Sqe_user_data data Sqe_nop) r m"

definition IoUring_flush_sq_tail :: "IoUring \<Rightarrow> shm \<Rightarrow> shm" where
  "IoUring_flush_sq_tail r m = m\<lparr>m_sq_tail := r_sq_tail_local r\<rparr>"

definition IoUring_flush_cq_head :: "IoUring \<Rightarrow> shm \<Rightarrow> shm" where
  "IoUring_flush_cq_head r m = m\<lparr>m_cq_head := r_cq_head_local r\<rparr>"

definition IoUring_sync_cq :: "IoUring \<Rightarrow> shm \<Rightarrow> shm" where
  "IoUring_sync_cq r m = IoUring_flush_cq_head r m"

definition IoUring_sq_need_wakeup :: "IoUring \<Rightarrow> shm \<Rightarrow> bool" where
  "IoUring_sq_need_wakeup r m \<longleftrightarrow> m_sq_flags m AND IORING_SQ_NEED_WAKEUP \<noteq> 0"

definition IoUring_cq_overflow :: "IoUring \<Rightarrow> shm \<Rightarrow> bool" where
  "IoUring_cq_overflow r m \<longleftrightarrow> m_sq_flags m AND IORING_SQ_CQ_OVERFLOW \<noteq> 0"

definition IoUring_sq_capacity :: "IoUring \<Rightarrow> u32" where
  "IoUring_sq_capacity r = r_sq_mask r + 1"

definition IoUring_cq_capacity :: "IoUring \<Rightarrow> u32" where
  "IoUring_cq_capacity r = r_cq_mask r + 1"

definition IoUring_sq_space_left :: "IoUring \<Rightarrow> shm \<Rightarrow> u32" where
  "IoUring_sq_space_left r m = IoUring_sq_capacity r - (r_sq_tail_local r - m_sq_head m)"

definition IoUring_submit ::
  "'k enter_fn \<Rightarrow> IoUring \<Rightarrow> 'k \<times> shm \<Rightarrow> (u32, Error) result \<times> IoUring \<times> 'k \<times> shm" where
  "IoUring_submit enter r w =
    (let to_submit = r_sq_tail_local r - r_sq_submitted r;
         w = (fst w, IoUring_flush_sq_tail r (snd w))
     in if to_submit = 0 then (Ok 0, r, w)
        else case io_uring_enter enter (r_fd r) to_submit 0 flags_empty w of
          (Err e, w) \<Rightarrow> (Err (Error_from_Errno e), r, w)
        | (Ok ret, w) \<Rightarrow>
            let consumed = ucast ret;
                r = r\<lparr>r_sq_submitted := r_sq_submitted r + consumed\<rparr>
            in (Ok consumed, r, fst w, IoUring_flush_cq_head r (snd w)))"

definition IoUring_submit_and_wait ::
  "'k enter_fn \<Rightarrow> u32 \<Rightarrow> IoUring \<Rightarrow> 'k \<times> shm \<Rightarrow> (u32, Error) result \<times> IoUring \<times> 'k \<times> shm" where
  "IoUring_submit_and_wait enter min_complete r w =
    (let w = (fst w, IoUring_flush_cq_head r (snd w));
         to_submit = r_sq_tail_local r - r_sq_submitted r;
         w = (fst w, IoUring_flush_sq_tail r (snd w));
         cq_tail = m_cq_tail (snd w);
         cq_used = cq_tail - r_cq_head_local r;
         cq_cap = r_cq_mask r + 1
     in if cq_used > cq_cap - (cq_cap div 4) then
          (case io_uring_enter enter (r_fd r) to_submit 0 flags_empty w of
             (Err e, w) \<Rightarrow> (Err (Error_from_Errno e), r, w)
           | (Ok first_ret, w) \<Rightarrow>
               let first_consumed = ucast first_ret;
                   r = r\<lparr>r_sq_submitted := r_sq_submitted r + first_consumed\<rparr>
               in (case io_uring_enter enter (r_fd r) 0 min_complete ENTER_GETEVENTS w of
                     (Err e, w) \<Rightarrow> (Err (Error_from_Errno e), r, w)
                   | (Ok second_ret, w) \<Rightarrow>
                       let second_consumed = ucast second_ret;
                           r = r\<lparr>r_sq_submitted := r_sq_submitted r + second_consumed\<rparr>
                       in (Ok (first_consumed + second_consumed), r, w)))
        else
          (case io_uring_enter enter (r_fd r) to_submit min_complete ENTER_GETEVENTS w of
             (Err e, w) \<Rightarrow> (Err (Error_from_Errno e), r, w)
           | (Ok ret, w) \<Rightarrow>
               let consumed = ucast ret
               in (Ok consumed, r\<lparr>r_sq_submitted := r_sq_submitted r + consumed\<rparr>, w)))"

definition IoUring_submit_sqpoll ::
  "'k enter_fn \<Rightarrow> IoUring \<Rightarrow> 'k \<times> shm \<Rightarrow> (unit, Error) result \<times> IoUring \<times> 'k \<times> shm" where
  "IoUring_submit_sqpoll enter r w =
    (let w = (fst w, IoUring_flush_sq_tail r (snd w));
         r = r\<lparr>r_sq_submitted := r_sq_tail_local r\<rparr>
     in if IoUring_sq_need_wakeup r (snd w)
        then case io_uring_enter enter (r_fd r) 0 0 ENTER_SQ_WAKEUP w of
               (Err e, w) \<Rightarrow> (Err (Error_from_Errno e), r, w)
             | (Ok ret, w) \<Rightarrow> (Ok (), r, w)
        else (Ok (), r, w))"

definition IoUring_complete :: "IoUring \<Rightarrow> shm \<Rightarrow> (Completion \<times> IoUring) option" where
  "IoUring_complete r m =
    (let tail = m_cq_tail m
     in if r_cq_head_local r = tail then None
        else let idx = r_cq_head_local r AND r_cq_mask r;
                 cqe = m_cqes m ! unat idx;
                 completion = \<lparr>user_data = cqe_user_data cqe, res_code = cqe_res cqe,
                               cflags = cqe_flags cqe\<rparr>
             in Some (completion, r\<lparr>r_cq_head_local := r_cq_head_local r + 1\<rparr>))"

definition Completions_size_hint :: "IoUring \<Rightarrow> shm \<Rightarrow> usize \<times> usize option" where
  "Completions_size_hint r m = (ucast (m_cq_tail m - r_cq_head_local r), None)"

section \<open>Splitting\<close>

definition setup_flags_forbid_split :: "u32 \<Rightarrow> bool" where
  "setup_flags_forbid_split flags =
    (let sqpoll = flags AND SETUP_SQPOLL \<noteq> 0;
         single_issuer = flags AND SETUP_SINGLE_ISSUER \<noteq> 0;
         defer_taskrun = flags AND SETUP_DEFER_TASKRUN \<noteq> 0
     in defer_taskrun \<or> (single_issuer \<and> \<not> sqpoll))"

definition can_split :: "IoUring \<Rightarrow> bool" where
  "can_split r \<longleftrightarrow> \<not> setup_flags_forbid_split (r_setup_flags r)"

definition submitter_half :: "IoUring \<Rightarrow> Submitter" where
  "submitter_half r =
     \<lparr>s_fd = r_fd r, s_sq_head = r_sq_head r, s_sq_tail = r_sq_tail r, s_sq_mask = r_sq_mask r,
      s_sq_flags = r_sq_flags r, s_sqes = r_sqes r, s_sq_tail_local = r_sq_tail_local r,
      s_sq_submitted = r_sq_submitted r, s_features = r_features r, s_resources = r_resources r\<rparr>"

definition completer_half :: "IoUring \<Rightarrow> Completer" where
  "completer_half r =
     \<lparr>c_fd = r_fd r, c_cq_head = r_cq_head r, c_cq_tail = r_cq_tail r, c_cq_mask = r_cq_mask r,
      c_cqes = r_cqes r, c_cq_head_local = r_cq_head_local r, c_resources = r_resources r\<rparr>"

section \<open>What the kernel may do to shared memory\<close>

text \<open>
  \<open>kernel_takes\<close>: the kernel writes neither the tail nor the entries, and its head never
  passes the published tail. \<open>kernel_posts\<close>: it never writes the completion head, never
  has more completions outstanding than there are slots, and leaves every posted, not yet
  released completion alone.
\<close>

definition kernel_takes :: "shm \<Rightarrow> shm \<Rightarrow> bool" where
  "kernel_takes m m' \<longleftrightarrow>
     m_sq_tail m' = m_sq_tail m \<and> m_sqes m' = m_sqes m \<and>
     unat (m_sq_head m' - m_sq_head m) \<le> unat (m_sq_tail m - m_sq_head m)"

definition kernel_posts :: "u32 \<Rightarrow> shm \<Rightarrow> shm \<Rightarrow> bool" where
  "kernel_posts cmask m m' \<longleftrightarrow>
     m_cq_head m' = m_cq_head m \<and> length (m_cqes m') = length (m_cqes m) \<and>
     unat (m_cq_tail m - m_cq_head m) \<le> unat (m_cq_tail m' - m_cq_head m) \<and>
     unat (m_cq_tail m' - m_cq_head m) \<le> unat (cmask + 1) \<and>
     ring_window (m_cqes m') cmask (m_cq_head m) (unat (m_cq_tail m - m_cq_head m)) =
     ring_window (m_cqes m) cmask (m_cq_head m) (unat (m_cq_tail m - m_cq_head m))"

definition cqe_completion :: "IoUringCqe \<Rightarrow> Completion" where
  "cqe_completion cqe =
     \<lparr>user_data = cqe_user_data cqe, res_code = cqe_res cqe, cflags = cqe_flags cqe\<rparr>"

text \<open>
  What moved: \<open>taken\<close> reads the slots the kernel's head passed over, \<open>posted\<close> the slots
  behind the old completion tail.
\<close>

definition taken :: "u32 \<Rightarrow> shm \<Rightarrow> shm \<Rightarrow> IoUringSqe list" where
  "taken smask m m' = ring_window (m_sqes m) smask (m_sq_head m) (unat (m_sq_head m' - m_sq_head m))"

definition posted :: "u32 \<Rightarrow> shm \<Rightarrow> shm \<Rightarrow> Completion list" where
  "posted cmask m m' = map cqe_completion
     (drop (unat (m_cq_tail m - m_cq_head m))
       (ring_window (m_cqes m') cmask (m_cq_head m) (unat (m_cq_tail m' - m_cq_head m))))"

text \<open>
  The same for the system call: \<open>kernel_moves\<close> holds of every \<open>io_uring_enter\<close> on shared
  memory whose completion side is in bounds; \<open>kernel_counts\<close> says that, on a ring without
  a polling thread, the entries taken are the ones the return value reports, at most as
  many as asked for, and none when the call fails.
\<close>

definition kernel_moves :: "u32 \<Rightarrow> 'k enter_fn \<Rightarrow> bool" where
  "kernel_moves cmask enter \<longleftrightarrow>
     (\<forall>fd n c f k m. unat (m_cq_tail m - m_cq_head m) \<le> unat (cmask + 1) \<longrightarrow>
        kernel_takes m (snd (snd (enter fd n c f (k, m)))) \<and>
        kernel_posts cmask m (snd (snd (enter fd n c f (k, m)))))"

definition kernel_counts :: "'k enter_fn \<Rightarrow> bool" where
  "kernel_counts enter \<longleftrightarrow>
     (\<forall>fd n c f k m.
        let (ret, k', m') = enter fd n c f (k, m)
        in case check ret of
             Err e \<Rightarrow> m_sq_head m' = m_sq_head m
           | Ok v \<Rightarrow> v \<le> ucast n \<and> m_sq_head m' = m_sq_head m + ucast v)"

section \<open>Abstraction and well-formedness of the two queues\<close>

definition sq_window :: "u32 \<Rightarrow> u32 \<Rightarrow> shm \<Rightarrow> IoUringSqe list" where
  "sq_window smask lt m = ring_window (m_sqes m) smask (m_sq_head m) (unat (lt - m_sq_head m))"

definition sq_wf :: "u32 \<Rightarrow> u32 \<Rightarrow> shm \<Rightarrow> bool" where
  "sq_wf smask lt m \<longleftrightarrow>
     (\<exists>k. pow2_mask k smask \<and> length (m_sqes m) = 2 ^ k) \<and>
     unat (lt - m_sq_head m) \<le> unat (smask + 1) \<and>
     unat (m_sq_tail m - m_sq_head m) \<le> unat (lt - m_sq_head m)"

definition cq_window :: "u32 \<Rightarrow> u32 \<Rightarrow> shm \<Rightarrow> Completion list" where
  "cq_window cmask hl m =
     map cqe_completion (ring_window (m_cqes m) cmask hl (unat (m_cq_tail m - hl)))"

definition cq_wf :: "u32 \<Rightarrow> u32 \<Rightarrow> shm \<Rightarrow> bool" where
  "cq_wf cmask hl m \<longleftrightarrow>
     (\<exists>k. pow2_mask k cmask \<and> length (m_cqes m) = 2 ^ k) \<and>
     unat (m_cq_tail m - m_cq_head m) \<le> unat (cmask + 1) \<and>
     unat (hl - m_cq_head m) \<le> unat (m_cq_tail m - m_cq_head m)"

lemma sq_wf_push_room:
  assumes "sq_wf smask lt m" "unat (lt - m_sq_head m) < unat (smask + 1)"
  shows "\<not> smask + 1 < lt + 1 - m_sq_head m"
    and "sq_wf smask (lt + 1) (m\<lparr>m_sqes := (m_sqes m)[unat (lt AND smask) := x]\<rparr>)"
    and "sq_window smask (lt + 1) (m\<lparr>m_sqes := (m_sqes m)[unat (lt AND smask) := x]\<rparr>)
       = sq_window smask lt m @ [x]"
proof -
  obtain k where k: "pow2_mask k smask" and len: "length (m_sqes m) = 2 ^ k"
    using assms(1) by (auto simp: sq_wf_def)
  have cap: "unat (smask + 1) = 2 ^ k" and k32: "k < 32"
    using k by (auto simp: pow2_mask_capacity) (simp add: pow2_mask_def)
  have step: "unat (lt + 1 - m_sq_head m) = Suc (unat (lt - m_sq_head m))"
    using assms(2) k32 by (intro unat_tail_step [where k = k]) (simp_all add: cap)
  show "\<not> smask + 1 < lt + 1 - m_sq_head m"
    using step assms(2) by (simp add: word_less_nat_alt)
  show "sq_wf smask (lt + 1) (m\<lparr>m_sqes := (m_sqes m)[unat (lt AND smask) := x]\<rparr>)"
    using assms step k len by (auto simp: sq_wf_def)
  show "sq_window smask (lt + 1) (m\<lparr>m_sqes := (m_sqes m)[unat (lt AND smask) := x]\<rparr>)
       = sq_window smask lt m @ [x]"
    using ring_window_push [OF k, of "unat (lt - m_sq_head m)" "m_sqes m" "m_sq_head m" x]
      assms(2) len by (simp add: sq_window_def step cap)
qed

lemma sq_wf_push_full:
  assumes "sq_wf smask lt m" "unat (lt - m_sq_head m) = unat (smask + 1)"
  shows "smask + 1 < lt + 1 - m_sq_head m"
proof -
  obtain k where k: "pow2_mask k smask" using assms(1) by (auto simp: sq_wf_def)
  then have k32: "k < 32" by (simp add: pow2_mask_def)
  have "(2::nat) ^ k \<le> 2 ^ 31" using k32 by (intro power_increasing) auto
  then have "Suc (unat (lt - m_sq_head m)) < 2 ^ 32"
    using assms(2) k by (simp add: pow2_mask_capacity)
  then have "unat (lt - m_sq_head m + 1) = Suc (unat (lt - m_sq_head m))"
    by (simp add: unat_word_ariths)
  then show ?thesis using assms(2) by (simp add: word_less_nat_alt algebra_simps)
qed

lemma sq_wf_flush:
  "sq_wf smask lt m \<Longrightarrow> sq_wf smask lt (m\<lparr>m_sq_tail := lt\<rparr>)"
  by (simp add: sq_wf_def)

lemma sq_window_flush [simp]:
  "sq_window smask lt (m\<lparr>m_sq_tail := t\<rparr>) = sq_window smask lt m"
  "sq_window smask lt (m\<lparr>m_cq_head := h\<rparr>) = sq_window smask lt m"
  by (simp_all add: sq_window_def)

lemma length_sq_window [simp]: "length (sq_window smask lt m) = unat (lt - m_sq_head m)"
  by (simp add: sq_window_def)

lemma kernel_takes_sq:
  assumes "sq_wf smask lt m" "kernel_takes m m'"
  defines "n \<equiv> unat (m_sq_head m' - m_sq_head m)"
  shows "sq_wf smask lt m'" "n \<le> unat (lt - m_sq_head m)"
    "sq_window smask lt m' = drop n (sq_window smask lt m)"
proof -
  have n: "n \<le> unat (m_sq_tail m - m_sq_head m)" "n \<le> unat (lt - m_sq_head m)"
    using assms by (auto simp: kernel_takes_def sq_wf_def)
  have h: "m_sq_head m' = m_sq_head m + of_nat n" by (simp add: n_def)
  have ltm: "unat (lt - m_sq_head m') = unat (lt - m_sq_head m) - n"
    using n(2) by (simp add: h unat_head_advance del: of_nat_add)
  have tail': "unat (m_sq_tail m - m_sq_head m') = unat (m_sq_tail m - m_sq_head m) - n"
    using n(1) by (simp add: h unat_head_advance)
  show "n \<le> unat (lt - m_sq_head m)" by (rule n)
  show "sq_wf smask lt m'"
    using assms(1,2) ltm tail' by (auto simp: sq_wf_def kernel_takes_def)
  show "sq_window smask lt m' = drop n (sq_window smask lt m)"
    using n(2) assms(2) by (simp add: sq_window_def ltm kernel_takes_def)
      (simp add: h ring_window_drop)
qed

lemma length_cq_window [simp]: "length (cq_window cmask hl m) = unat (m_cq_tail m - hl)"
  by (simp add: cq_window_def)

lemma cq_window_irrelevant [simp]:
  "cq_window cmask hl (m\<lparr>m_sq_tail := t\<rparr>) = cq_window cmask hl m"
  "cq_window cmask hl (m\<lparr>m_sqes := q\<rparr>) = cq_window cmask hl m"
  "cq_window cmask hl (m\<lparr>m_cq_head := h\<rparr>) = cq_window cmask hl m"
  by (simp_all add: cq_window_def)

lemma cq_wf_irrelevant [simp]:
  "cq_wf cmask hl (m\<lparr>m_sq_tail := t\<rparr>) = cq_wf cmask hl m"
  "cq_wf cmask hl (m\<lparr>m_sqes := q\<rparr>) = cq_wf cmask hl m"
  by (simp_all add: cq_wf_def)

lemma sq_wf_irrelevant [simp]:
  "sq_wf smask lt (m\<lparr>m_cq_head := h\<rparr>) = sq_wf smask lt m"
  by (simp add: sq_wf_def)

lemma unat_between:
  fixes t h x :: u32
  assumes "unat (x - h) \<le> unat (t - h)"
  shows "unat (t - x) = unat (t - h) - unat (x - h)"
  using unat_head_advance [of "unat (x - h)" t h] assms by simp

lemma cq_wf_bounds:
  assumes "cq_wf cmask hl m"
  shows "unat (m_cq_tail m - hl) = unat (m_cq_tail m - m_cq_head m) - unat (hl - m_cq_head m)"
    and "unat (m_cq_tail m - hl) \<le> unat (cmask + 1)"
  using assms unat_between [of hl "m_cq_head m" "m_cq_tail m"] by (auto simp: cq_wf_def)

lemma cq_wf_release: "cq_wf cmask hl m \<Longrightarrow> cq_wf cmask hl (m\<lparr>m_cq_head := hl\<rparr>)"
  using cq_wf_bounds [of cmask hl m] by (simp add: cq_wf_def)

lemma cq_wf_pop:
  assumes "cq_wf cmask hl m" "hl \<noteq> m_cq_tail m"
  shows "cq_wf cmask (hl + 1) m"
    and "cq_window cmask hl m =
         cqe_completion (m_cqes m ! unat (hl AND cmask)) # cq_window cmask (hl + 1) m"
proof -
  have step: "unat (m_cq_tail m - hl) = Suc (unat (m_cq_tail m - (hl + 1)))"
    using unat_head_step [of "m_cq_tail m" hl] assms(2) by simp
  have lt: "unat (hl - m_cq_head m) < unat (m_cq_tail m - m_cq_head m)"
    using cq_wf_bounds(1) [OF assms(1)] step by linarith
  then have "unat (hl - m_cq_head m) < 2 ^ 32 - 1"
    using unsigned_less [of "m_cq_tail m - m_cq_head m", where 'a = nat] by simp
  then have "unat (hl - m_cq_head m + 1) = Suc (unat (hl - m_cq_head m))"
    by (simp add: unat_word_ariths)
  then have "unat (hl + 1 - m_cq_head m) = Suc (unat (hl - m_cq_head m))"
    by (simp add: algebra_simps)
  then show "cq_wf cmask (hl + 1) m" using assms(1) lt by (auto simp: cq_wf_def)
  show "cq_window cmask hl m =
         cqe_completion (m_cqes m ! unat (hl AND cmask)) # cq_window cmask (hl + 1) m"
    by (simp only: cq_window_def step ring_window_Suc list.map)
qed

lemma drop_common_prefix: "xs = ys @ zs \<Longrightarrow> d \<le> length ys \<Longrightarrow> drop d xs = drop d ys @ zs"
  by simp

lemma kernel_posts_cq:
  assumes wf: "cq_wf cmask hl m" and posts: "kernel_posts cmask m m'"
  shows "cq_wf cmask hl m'" "\<exists>new. cq_window cmask hl m' = cq_window cmask hl m @ new"
proof -
  let ?h = "m_cq_head m" and ?d = "unat (hl - m_cq_head m)"
  let ?n = "unat (m_cq_tail m - m_cq_head m)" and ?n' = "unat (m_cq_tail m' - m_cq_head m)"
  have le: "?d \<le> ?n" "?n \<le> ?n'" using wf posts by (auto simp: cq_wf_def kernel_posts_def)
  show "cq_wf cmask hl m'"
    using wf posts by (auto simp: cq_wf_def kernel_posts_def)
  have rest: "unat (m_cq_tail m - hl) = ?n - ?d" "unat (m_cq_tail m' - hl) = ?n' - ?d"
    using le by (auto intro!: unat_between)
  have hl: "hl = ?h + of_nat ?d" by simp
  have win: "ring_window a cmask hl (j - ?d) = drop ?d (ring_window a cmask ?h j)"
    if "?d \<le> j" for a :: "IoUringCqe list" and j
    by (subst hl) (rule ring_window_drop [OF that])
  have "ring_window (m_cqes m) cmask ?h ?n = take ?n (ring_window (m_cqes m') cmask ?h ?n')"
    using posts le(2) ring_window_take [of "m_cqes m'" cmask ?h ?n ?n']
    by (simp add: kernel_posts_def min_absorb1)
  then have "ring_window (m_cqes m') cmask ?h ?n' =
      ring_window (m_cqes m) cmask ?h ?n @ drop ?n (ring_window (m_cqes m') cmask ?h ?n')"
    by simp
  then have "drop ?d (ring_window (m_cqes m') cmask ?h ?n') =
      drop ?d (ring_window (m_cqes m) cmask ?h ?n) @ drop ?n (ring_window (m_cqes m') cmask ?h ?n')"
    by (rule drop_common_prefix) (simp add: le(1))
  then show "\<exists>new. cq_window cmask hl m' = cq_window cmask hl m @ new"
    using le by (simp add: cq_window_def rest win)
qed

lemma posted_window:
  assumes "cq_wf cmask hl m" "kernel_posts cmask m m'"
  shows "cq_window cmask hl m' = cq_window cmask hl m @ posted cmask m m'"
proof -
  let ?h = "m_cq_head m" and ?d = "unat (hl - m_cq_head m)"
  let ?n = "unat (m_cq_tail m - ?h)" and ?n' = "unat (m_cq_tail m' - ?h)"
  obtain new where new: "cq_window cmask hl m' = cq_window cmask hl m @ new"
    using kernel_posts_cq(2) [OF assms] by blast
  have le: "?d \<le> ?n" "?n \<le> ?n'" using assms by (auto simp: cq_wf_def kernel_posts_def)
  have len: "unat (m_cq_tail m - hl) = ?n - ?d" "unat (m_cq_tail m' - hl) = ?n' - ?d"
    using le by (auto intro!: unat_between)
  have hl: "hl = ?h + of_nat ?d" by simp
  have "ring_window (m_cqes m') cmask hl (?n' - ?d) = drop ?d (ring_window (m_cqes m') cmask ?h ?n')"
    by (subst hl) (rule ring_window_drop, use le in simp)
  then have "cq_window cmask hl m' = drop ?d (map cqe_completion (ring_window (m_cqes m') cmask ?h ?n'))"
    by (simp add: cq_window_def len drop_map)
  moreover have "new = drop (?n - ?d) (cq_window cmask hl m')" using new len by simp
  ultimately have "new = posted cmask m m'" using le by (simp add: posted_def drop_map)
  then show ?thesis using new by simp
qed

lemma taken_window:
  assumes "sq_wf smask lt m" "kernel_takes m m'"
  shows "sq_window smask lt m = taken smask m m' @ sq_window smask lt m'"
proof -
  note k = kernel_takes_sq [OF assms]
  have "take (unat (m_sq_head m' - m_sq_head m)) (sq_window smask lt m) = taken smask m m'"
    using k(2) by (simp add: sq_window_def taken_def min_absorb1 flip: ring_window_take)
  then show ?thesis using k(3) by (metis append_take_drop_id)
qed

lemma Completer_complete_None:
  "Completer_complete c m = None \<longleftrightarrow> c_cq_head_local c = m_cq_tail m"
  by (simp add: Completer_complete_def Let_def)

lemma Completer_complete_Some:
  "Completer_complete c m = Some (x, c') \<longleftrightarrow>
   c_cq_head_local c \<noteq> m_cq_tail m \<and>
   x = cqe_completion (m_cqes m ! unat (c_cq_head_local c AND c_cq_mask c)) \<and>
   c' = c\<lparr>c_cq_head_local := c_cq_head_local c + 1\<rparr>"
  by (auto simp: Completer_complete_def Let_def cqe_completion_def)

termination Completer_drain
proof (relation "measure (\<lambda>(c, m). unat (m_cq_tail m - c_cq_head_local c))")
  show "wf (measure (\<lambda>(c, m). unat (m_cq_tail m - c_cq_head_local c)))" by simp
next
  fix c m xc x c'
  assume "Completer_complete c m = Some xc" "(x, c') = xc"
  then have "c_cq_head_local c \<noteq> m_cq_tail m"
    and c': "c_cq_head_local c' = c_cq_head_local c + 1"
    using Completer_complete_Some [of c m x c'] by auto
  then show "((c', m), c, m) \<in> measure (\<lambda>(c, m). unat (m_cq_tail m - c_cq_head_local c))"
    using unat_head_step [of "m_cq_tail m" "c_cq_head_local c"] by simp
qed

declare Completer_drain.simps [simp del]

section \<open>The two sides as ring producers and consumers\<close>

definition sub_push :: "IoUringSqe \<Rightarrow> Submitter \<times> shm \<Rightarrow> bool \<times> Submitter \<times> shm" where
  "sub_push x sm = (case Submitter_push x (fst sm) (snd sm) of (r, s', m') \<Rightarrow> (is_ok r, s', m'))"

definition ring_push :: "IoUringSqe \<Rightarrow> IoUring \<times> shm \<Rightarrow> bool \<times> IoUring \<times> shm" where
  "ring_push x rm = (case IoUring_push x (fst rm) (snd rm) of (res, r', m') \<Rightarrow> (is_ok res, r', m'))"

definition com_pop :: "Completer \<times> shm \<Rightarrow> (Completion \<times> Completer \<times> shm) option" where
  "com_pop cm = map_option (\<lambda>(x, c'). (x, c', snd cm)) (Completer_complete (fst cm) (snd cm))"

definition ring_pop :: "IoUring \<times> shm \<Rightarrow> (Completion \<times> IoUring \<times> shm) option" where
  "ring_pop rm = map_option (\<lambda>(x, r'). (x, r', snd rm)) (IoUring_complete (fst rm) (snd rm))"

definition sub_inv :: "Submitter \<times> shm \<Rightarrow> bool" where
  "sub_inv sm \<longleftrightarrow> sq_wf (s_sq_mask (fst sm)) (s_sq_tail_local (fst sm)) (snd sm)"

definition sub_queued :: "Submitter \<times> shm \<Rightarrow> IoUringSqe list" where
  "sub_queued sm = sq_window (s_sq_mask (fst sm)) (s_sq_tail_local (fst sm)) (snd sm)"

definition com_inv :: "Completer \<times> shm \<Rightarrow> bool" where
  "com_inv cm \<longleftrightarrow> cq_wf (c_cq_mask (fst cm)) (c_cq_head_local (fst cm)) (snd cm)"

definition com_pending :: "Completer \<times> shm \<Rightarrow> Completion list" where
  "com_pending cm = cq_window (c_cq_mask (fst cm)) (c_cq_head_local (fst cm)) (snd cm)"

definition ring_inv :: "IoUring \<times> shm \<Rightarrow> bool" where
  "ring_inv rm \<longleftrightarrow> sq_wf (r_sq_mask (fst rm)) (r_sq_tail_local (fst rm)) (snd rm) \<and>
                  cq_wf (r_cq_mask (fst rm)) (r_cq_head_local (fst rm)) (snd rm)"

definition ring_queued :: "IoUring \<times> shm \<Rightarrow> IoUringSqe list" where
  "ring_queued rm = sq_window (r_sq_mask (fst rm)) (r_sq_tail_local (fst rm)) (snd rm)"

definition ring_pending :: "IoUring \<times> shm \<Rightarrow> Completion list" where
  "ring_pending rm = cq_window (r_cq_mask (fst rm)) (r_cq_head_local (fst rm)) (snd rm)"

text \<open>
  The environment of each handle, labelled with the entries that moved. The kernel changes
  shared memory only, and \<open>submit\<close> accounts for a move in the counter of submitted entries;
  a unified ring's owner also works on the other queue, which is part of the environment of
  this one.
\<close>

definition sub_env :: "Submitter \<times> shm \<Rightarrow> IoUringSqe list \<Rightarrow> Submitter \<times> shm \<Rightarrow> bool" where
  "sub_env sm xs sm' \<longleftrightarrow> (\<exists>n. fst sm' = (fst sm)\<lparr>s_sq_submitted := n\<rparr>) \<and> kernel_takes (snd sm) (snd sm') \<and>
     xs = taken (s_sq_mask (fst sm)) (snd sm) (snd sm')"

definition com_env :: "Completer \<times> shm \<Rightarrow> Completion list \<Rightarrow> Completer \<times> shm \<Rightarrow> bool" where
  "com_env cm xs cm' \<longleftrightarrow> fst cm' = fst cm \<and> kernel_posts (c_cq_mask (fst cm)) (snd cm) (snd cm') \<and>
     xs = posted (c_cq_mask (fst cm)) (snd cm) (snd cm')"

definition ring_env ::
  "IoUring \<times> shm \<Rightarrow> IoUringSqe list \<Rightarrow> Completion list \<Rightarrow> IoUring \<times> shm \<Rightarrow> bool" where
  "ring_env rm xs ys rm' \<longleftrightarrow> (\<exists>n. fst rm' = (fst rm)\<lparr>r_sq_submitted := n\<rparr>) \<and>
     kernel_takes (snd rm) (snd rm') \<and>
     kernel_posts (r_cq_mask (fst rm)) (snd rm) (snd rm') \<and>
     xs = taken (r_sq_mask (fst rm)) (snd rm) (snd rm') \<and>
     ys = posted (r_cq_mask (fst rm)) (snd rm) (snd rm')"

abbreviation sub_publish :: "Submitter \<times> shm \<Rightarrow> Submitter \<times> shm" where
  "sub_publish sm \<equiv> (fst sm, Submitter_flush_sq_tail (fst sm) (snd sm))"

abbreviation ring_publish :: "IoUring \<times> shm \<Rightarrow> IoUring \<times> shm" where
  "ring_publish rm \<equiv> (fst rm, IoUring_flush_sq_tail (fst rm) (snd rm))"

abbreviation com_release :: "Completer \<times> shm \<Rightarrow> Completer \<times> shm" where
  "com_release cm \<equiv> (fst cm, Completer_sync_cq (fst cm) (snd cm))"

abbreviation ring_release :: "IoUring \<times> shm \<Rightarrow> IoUring \<times> shm" where
  "ring_release rm \<equiv> (fst rm, IoUring_sync_cq (fst rm) (snd rm))"

definition ring_sq_env :: "IoUring \<times> shm \<Rightarrow> IoUringSqe list \<Rightarrow> IoUring \<times> shm \<Rightarrow> bool" where
  "ring_sq_env rm xs rm' \<longleftrightarrow> (\<exists>ys. ring_env rm xs ys rm') \<or>
     xs = [] \<and> (rm' = ring_release rm \<or> (\<exists>y. ring_pop rm = Some (y, rm')))"

definition ring_cq_env :: "IoUring \<times> shm \<Rightarrow> Completion list \<Rightarrow> IoUring \<times> shm \<Rightarrow> bool" where
  "ring_cq_env rm ys rm' \<longleftrightarrow> (\<exists>xs. ring_env rm xs ys rm') \<or>
     ys = [] \<and> (rm' = ring_publish rm \<or> (\<exists>x. rm' = snd (ring_push x rm)))"

lemmas handle_defs = sub_inv_def sub_queued_def sub_push_def sub_env_def ring_inv_def
  ring_queued_def ring_pending_def ring_push_def ring_pop_def ring_env_def com_inv_def
  com_pending_def com_pop_def com_env_def

lemmas flush_defs [simp, unfold_ops] = Submitter_flush_sq_tail_def IoUring_flush_sq_tail_def
  Completer_sync_cq_def IoUring_sync_cq_def IoUring_flush_cq_head_def

lemma Submitter_push_room:
  "sub_inv (s, m) \<Longrightarrow> length (sub_queued (s, m)) < unat (s_sq_mask s + 1) \<Longrightarrow>
   Submitter_push x s m = (Ok (), s\<lparr>s_sq_tail_local := s_sq_tail_local s + 1\<rparr>,
     m\<lparr>m_sqes := (m_sqes m)[unat (s_sq_tail_local s AND s_sq_mask s) := x]\<rparr>)"
  using sq_wf_push_room(1) [of "s_sq_mask s" "s_sq_tail_local s" m]
  by (simp add: Submitter_push_def handle_defs Let_def)

lemma Submitter_push_full:
  "sub_inv (s, m) \<Longrightarrow> length (sub_queued (s, m)) = unat (s_sq_mask s + 1) \<Longrightarrow>
   Submitter_push x s m = (Err (Submit QueueFull), s, m)"
  using sq_wf_push_full [of "s_sq_mask s" "s_sq_tail_local s" m]
  by (simp add: Submitter_push_def handle_defs Let_def)

lemma IoUring_push_halves:
  "IoUring_push x r m =
     (case Submitter_push x (submitter_half r) m of
        (res, s', m') \<Rightarrow> (res, r\<lparr>r_sq_tail_local := s_sq_tail_local s'\<rparr>, m'))"
  by (simp add: IoUring_push_def Submitter_push_def submitter_half_def Let_def)

lemma IoUring_complete_halves:
  "IoUring_complete r m =
     map_option (\<lambda>(x, c'). (x, r\<lparr>r_cq_head_local := c_cq_head_local c'\<rparr>))
       (Completer_complete (completer_half r) m)"
  by (simp add: IoUring_complete_def Completer_complete_def completer_half_def Let_def)

interpretation sq: ring_producer sub_inv sub_queued "\<lambda>sm. unat (s_sq_mask (fst sm) + 1)"
  sub_push sub_publish sub_env
proof
  fix sm :: "Submitter \<times> shm" and x
  obtain s m where sm: "sm = (s, m)" by fastforce
  show "length (sub_queued sm) \<le> unat (s_sq_mask (fst sm) + 1)" if "sub_inv sm"
    using that by (simp add: handle_defs sq_wf_def)
  show "sub_push x sm = (False, sm)"
    if "sub_inv sm" "length (sub_queued sm) = unat (s_sq_mask (fst sm) + 1)"
    using that Submitter_push_full [of s m x] by (simp add: sm sub_push_def)
  show "\<exists>s'. sub_push x sm = (True, s') \<and> sub_inv s' \<and> sub_queued s' = sub_queued sm @ [x] \<and>
      unat (s_sq_mask (fst s') + 1) = unat (s_sq_mask (fst sm) + 1)"
    if "sub_inv sm" "length (sub_queued sm) < unat (s_sq_mask (fst sm) + 1)"
    using that Submitter_push_room [of s m x]
      sq_wf_push_room(2,3) [of "s_sq_mask s" "s_sq_tail_local s" m x]
    by (simp add: sm sub_push_def sub_inv_def sub_queued_def)
qed (auto simp: handle_defs sq_wf_flush taken_window dest: kernel_takes_sq(1))

lemma ring_push_halves:
  "ring_push x (r, m) =
     (case sub_push x (submitter_half r, m) of
        (b, s', m') \<Rightarrow> (b, r\<lparr>r_sq_tail_local := s_sq_tail_local s'\<rparr>, m'))"
  by (simp add: ring_push_def sub_push_def IoUring_push_halves split: prod.splits)

lemma half_projections [simp]:
  "sub_queued (submitter_half r, m) = ring_queued (r, m)"
  "com_pending (completer_half r, m) = ring_pending (r, m)"
  "ring_inv (r, m) \<Longrightarrow> sub_inv (submitter_half r, m)"
  "ring_inv (r, m) \<Longrightarrow> com_inv (completer_half r, m)"
  by (simp_all add: handle_defs submitter_half_def completer_half_def)

lemma ring_inv_halves:
  "ring_inv (r, m) \<longleftrightarrow> sub_inv (submitter_half r, m) \<and> com_inv (completer_half r, m)"
  by (simp add: handle_defs submitter_half_def completer_half_def)

lemma Submitter_push_frame:
  "Submitter_push x s m = (res, s', m') \<Longrightarrow>
   s_sq_mask s' = s_sq_mask s \<and> s_sq_submitted s' = s_sq_submitted s \<and> s_fd s' = s_fd s \<and>
   m_sq_head m' = m_sq_head m \<and> m_sq_tail m' = m_sq_tail m \<and> m_sq_flags m' = m_sq_flags m \<and>
   m_cq_head m' = m_cq_head m \<and> m_cq_tail m' = m_cq_tail m \<and> m_cqes m' = m_cqes m"
  by (auto simp: Submitter_push_def Let_def split: if_splits)

lemma IoUring_push_room:
  assumes "ring_inv (r, m)" "length (ring_queued (r, m)) < unat (r_sq_mask r + 1)"
  shows "\<exists>m'. IoUring_push x r m = (Ok (), r\<lparr>r_sq_tail_local := r_sq_tail_local r + 1\<rparr>, m') \<and>
     ring_inv (r\<lparr>r_sq_tail_local := r_sq_tail_local r + 1\<rparr>, m') \<and>
     ring_queued (r\<lparr>r_sq_tail_local := r_sq_tail_local r + 1\<rparr>, m') = ring_queued (r, m) @ [x] \<and>
     ring_pending (r\<lparr>r_sq_tail_local := r_sq_tail_local r + 1\<rparr>, m') = ring_pending (r, m) \<and>
     m_sq_head m' = m_sq_head m"
  using assms Submitter_push_room [of "submitter_half r" m x]
    sq_wf_push_room(2,3) [of "r_sq_mask r" "r_sq_tail_local r" m x]
  by (simp add: IoUring_push_halves ring_inv_def ring_queued_def ring_pending_def sub_inv_def
      sub_queued_def submitter_half_def)

lemma IoUring_push_full:
  assumes "ring_inv (r, m)" "length (ring_queued (r, m)) = unat (r_sq_mask r + 1)"
  shows "IoUring_push x r m = (Err (Submit QueueFull), r, m)"
  using assms Submitter_push_full [of "submitter_half r" m x]
  by (simp add: IoUring_push_halves) (simp add: submitter_half_def)

lemma Completer_complete_cases:
  assumes "com_inv (c, m)"
  shows "Completer_complete c m = None \<longleftrightarrow> com_pending (c, m) = []"
    and "Completer_complete c m = Some (x, c') \<Longrightarrow>
         com_inv (c', m) \<and> com_pending (c, m) = x # com_pending (c', m)"
proof -
  show "Completer_complete c m = None \<longleftrightarrow> com_pending (c, m) = []"
    by (auto simp: Completer_complete_None com_pending_def cq_window_def)
      (metis length_0_conv length_ring_window unat_diff_zero_iff)+
  show "com_inv (c', m) \<and> com_pending (c, m) = x # com_pending (c', m)"
    if "Completer_complete c m = Some (x, c')"
    using that assms cq_wf_pop [of "c_cq_mask c" "c_cq_head_local c" m]
    by (auto simp: Completer_complete_Some com_inv_def com_pending_def)
qed

interpretation cq: ring_consumer com_inv com_pending com_pop com_release com_env
proof
  fix cm :: "Completer \<times> shm" and x cm'
  obtain c m where cm: "cm = (c, m)" by fastforce
  show "(com_pop cm = None) = (com_pending cm = [])" if "com_inv cm"
    using that Completer_complete_cases(1) [of c m] by (simp add: cm com_pop_def)
  show "com_inv cm' \<and> com_pending cm = x # com_pending cm'"
    if "com_inv cm" "com_pop cm = Some (x, cm')"
    using that Completer_complete_cases(2) [of c m x] by (auto simp: cm com_pop_def)
qed (auto simp: handle_defs cq_wf_release posted_window dest: kernel_posts_cq(1))

lemma ring_pop_halves:
  "ring_pop (r, m) = map_option (\<lambda>(x, c', m'). (x, r\<lparr>r_cq_head_local := c_cq_head_local c'\<rparr>, m'))
     (com_pop (completer_half r, m))"
  by (cases "Completer_complete (completer_half r) m")
    (auto simp: ring_pop_def com_pop_def IoUring_complete_halves)

lemma IoUring_complete_cases:
  assumes "ring_inv (r, m)"
  shows "IoUring_complete r m = None \<longleftrightarrow> ring_pending (r, m) = []"
    and "IoUring_complete r m = Some (x, r') \<Longrightarrow>
         ring_inv (r', m) \<and> ring_pending (r, m) = x # ring_pending (r', m) \<and>
         r' = r\<lparr>r_cq_head_local := r_cq_head_local r + 1\<rparr> \<and> ring_queued (r', m) = ring_queued (r, m)"
proof -
  have inv: "com_inv (completer_half r, m)" using assms by simp
  show "IoUring_complete r m = None \<longleftrightarrow> ring_pending (r, m) = []"
    using Completer_complete_cases(1) [OF inv] by (simp add: IoUring_complete_halves)
  assume "IoUring_complete r m = Some (x, r')"
  then obtain c' where c: "Completer_complete (completer_half r) m = Some (x, c')"
    and r': "r' = r\<lparr>r_cq_head_local := c_cq_head_local c'\<rparr>"
    by (auto simp: IoUring_complete_halves)
  have c': "c' = completer_half r'" "r' = r\<lparr>r_cq_head_local := r_cq_head_local r + 1\<rparr>"
    using c r' by (auto simp: Completer_complete_Some completer_half_def)
  have "com_inv (completer_half r', m)"
    and "ring_pending (r, m) = x # ring_pending (r', m)"
    using Completer_complete_cases(2) [OF inv c] unfolding c'(1) by simp_all
  moreover have "sub_inv (submitter_half r', m)" "ring_queued (r', m) = ring_queued (r, m)"
    using assms unfolding c'(2) by (simp_all add: handle_defs submitter_half_def)
  ultimately show "ring_inv (r', m) \<and> ring_pending (r, m) = x # ring_pending (r', m) \<and>
         r' = r\<lparr>r_cq_head_local := r_cq_head_local r + 1\<rparr> \<and> ring_queued (r', m) = ring_queued (r, m)"
    using c'(2) unfolding ring_inv_halves by blast
qed

lemma ring_env_moves:
  assumes "ring_inv rm" "ring_env rm xs ys rm'"
  shows "ring_inv rm'" "r_sq_mask (fst rm') = r_sq_mask (fst rm)" "ring_queued rm = xs @ ring_queued rm'"
    "ring_pending rm' = ring_pending rm @ ys"
  using assms
  by (auto simp: handle_defs taken_window posted_window dest: kernel_takes_sq(1) kernel_posts_cq(1))

lemma ring_kept:
  assumes "ring_inv rm"
  shows "ring_inv (ring_publish rm)" "ring_inv (ring_release rm)"
    "ring_queued (ring_publish rm) = ring_queued rm" "ring_pending (ring_publish rm) = ring_pending rm"
    "ring_queued (ring_release rm) = ring_queued rm" "ring_pending (ring_release rm) = ring_pending rm"
  using assms by (simp_all add: handle_defs sq_wf_flush cq_wf_release)

lemma ring_pushed:
  assumes "ring_inv rm"
  shows "ring_inv (snd (ring_push x rm)) \<and> ring_pending (snd (ring_push x rm)) = ring_pending rm"
proof (cases rm)
  case (Pair r m)
  have le: "length (ring_queued (r, m)) \<le> unat (r_sq_mask r + 1)"
    using assms by (simp add: Pair handle_defs sq_wf_def)
  show ?thesis
  proof (cases "length (ring_queued (r, m)) = unat (r_sq_mask r + 1)")
    case True
    then show ?thesis using assms IoUring_push_full [of r m x] by (simp add: Pair ring_push_def)
  next
    case False
    then show ?thesis using assms le IoUring_push_room [of r m x] by (auto simp: Pair ring_push_def)
  qed
qed

lemma ring_popped:
  assumes "ring_inv rm" "ring_pop rm = Some (y, rm')"
  shows "ring_inv rm'" "ring_pending rm = y # ring_pending rm'" "ring_queued rm' = ring_queued rm"
    "r_sq_mask (fst rm') = r_sq_mask (fst rm)"
  using assms IoUring_complete_cases(2) [of "fst rm" "snd rm" y "fst rm'"]
  by (auto simp: ring_pop_def)

interpretation ring_sq: ring_producer ring_inv ring_queued "\<lambda>rm. unat (r_sq_mask (fst rm) + 1)"
  ring_push ring_publish ring_sq_env
proof
  fix rm :: "IoUring \<times> shm" and x
  obtain r m where rm: "rm = (r, m)" by fastforce
  show "length (ring_queued rm) \<le> unat (r_sq_mask (fst rm) + 1)" if "ring_inv rm"
    using that by (simp add: handle_defs sq_wf_def)
  show "ring_push x rm = (False, rm)"
    if "ring_inv rm" "length (ring_queued rm) = unat (r_sq_mask (fst rm) + 1)"
    using that IoUring_push_full [of r m x] by (simp add: rm ring_push_def)
  show "\<exists>s'. ring_push x rm = (True, s') \<and> ring_inv s' \<and> ring_queued s' = ring_queued rm @ [x] \<and>
      unat (r_sq_mask (fst s') + 1) = unat (r_sq_mask (fst rm) + 1)"
    if "ring_inv rm" "length (ring_queued rm) < unat (r_sq_mask (fst rm) + 1)"
    using that IoUring_push_room [of r m x] by (auto simp: rm ring_push_def)
  show "ring_inv s' \<and> unat (r_sq_mask (fst s') + 1) = unat (r_sq_mask (fst rm) + 1) \<and>
      ring_queued rm = xs @ ring_queued s'" if "ring_inv rm" "ring_sq_env rm xs s'" for xs s'
    using that
    by (auto simp: ring_sq_env_def ring_kept simp del: flush_defs dest: ring_env_moves ring_popped)
qed (auto simp: handle_defs sq_wf_flush)

interpretation ring_cq: ring_consumer ring_inv ring_pending ring_pop ring_release ring_cq_env
proof
  fix rm :: "IoUring \<times> shm" and x rm'
  obtain r m where rm: "rm = (r, m)" by fastforce
  show "(ring_pop rm = None) = (ring_pending rm = [])" if "ring_inv rm"
    using that IoUring_complete_cases(1) [of r m] by (simp add: rm ring_pop_def)
  show "ring_inv rm' \<and> ring_pending rm = x # ring_pending rm'"
    if "ring_inv rm" "ring_pop rm = Some (x, rm')"
    using that IoUring_complete_cases(2) [of r m x] by (auto simp: rm ring_pop_def)
  show "ring_inv s' \<and> ring_pending s' = ring_pending rm @ xs"
    if "ring_inv rm" "ring_cq_env rm xs s'" for xs s'
    using that
    by (auto simp: ring_cq_env_def ring_kept ring_pushed simp del: flush_defs dest: ring_env_moves)
qed (auto simp: handle_defs cq_wf_release)

lemma Completer_drain_pending:
  "com_inv (c, m) \<Longrightarrow>
   Completer_drain c m = (com_pending (c, m), c\<lparr>c_cq_head_local := m_cq_tail m\<rparr>)"
proof (induction c m rule: Completer_drain.induct)
  case (1 c m)
  show ?case
  proof (cases "Completer_complete c m")
    case None
    then show ?thesis
      using Completer_complete_cases(1) [OF 1(2)]
      by (simp add: Completer_drain.simps) (simp add: Completer_complete_None)
  next
    case (Some xc)
    obtain x c' where xc: "xc = (x, c')" by fastforce
    note step = Completer_complete_cases(2) [OF 1(2) Some [unfolded xc]]
    have "c' = c\<lparr>c_cq_head_local := c_cq_head_local c + 1\<rparr>"
      using Some xc by (simp add: Completer_complete_Some)
    then show ?thesis
      using 1(1) [OF Some xc [symmetric]] step Some xc
      by (simp add: Completer_drain.simps [of c m])
  qed
qed

section \<open>Accounting of submissions\<close>

lemma enter_obeys:
  assumes "kernel_moves cmask enter" "unat (m_cq_tail m - m_cq_head m) \<le> unat (cmask + 1)"
    and "io_uring_enter enter fd n c f (k, m) = (res, k', m')"
  shows "kernel_takes m m'" "kernel_posts cmask m m'"
  using assms by (auto simp: kernel_moves_def io_uring_enter_def split: prod.splits)
    (metis snd_conv)+

lemma enter_counted:
  assumes "kernel_counts enter" "io_uring_enter enter fd n c f (k, m) = (res, k', m')"
  shows "case res of Err e \<Rightarrow> m_sq_head m' = m_sq_head m
         | Ok v \<Rightarrow> v \<le> ucast n \<and> m_sq_head m' = m_sq_head m + ucast v"
  using assms unfolding kernel_counts_def io_uring_enter_def Let_def
  by (cases "enter fd n c f (k, m)") (force split: prod.splits)

text \<open>
  \<open>ring_synced\<close>: the counter of submitted entries agrees with the kernel's head, so the
  count the next call asks the kernel to take is exactly what is queued. \<open>ring_advanced\<close>
  is the outcome of any sequence of kernel calls on such a ring: still well-formed and
  in step, the first \<open>j\<close> queued entries taken, completions only added.
\<close>

definition ring_synced :: "IoUring \<times> shm \<Rightarrow> bool" where
  "ring_synced rm \<longleftrightarrow> r_sq_submitted (fst rm) = m_sq_head (snd rm)"

definition ring_advanced :: "IoUring \<times> shm \<Rightarrow> nat \<Rightarrow> IoUring \<times> shm \<Rightarrow> bool" where
  "ring_advanced rm j rm' \<longleftrightarrow>
     ring_inv rm' \<and> ring_synced rm' \<and>
     (\<exists>sub. fst rm' = (fst rm)\<lparr>r_sq_submitted := sub\<rparr>) \<and>
     j \<le> length (ring_queued rm) \<and> ring_queued rm' = drop j (ring_queued rm) \<and>
     (\<exists>new. ring_pending rm' = ring_pending rm @ new)"

lemma ring_to_submit:
  "ring_synced (r, m) \<Longrightarrow> unat (r_sq_tail_local r - r_sq_submitted r) = length (ring_queued (r, m))"
  by (simp add: ring_synced_def ring_queued_def)

lemma ring_advanced_refl: "ring_inv rm \<Longrightarrow> ring_synced rm \<Longrightarrow> ring_advanced rm 0 rm"
  by (auto simp: ring_advanced_def intro!: exI [of _ "r_sq_submitted (fst rm)"])

lemma ring_advanced_trans:
  assumes "ring_advanced rm i rm'" "ring_advanced rm' j rm''"
  shows "ring_advanced rm (i + j) rm''"
  using assms unfolding ring_advanced_def by (auto simp: add.commute)

lemma ring_flushed:
  assumes "ring_inv (r, m)" "ring_synced (r, m)"
  shows "ring_advanced (r, m) 0 (r, IoUring_flush_sq_tail r m)"
    and "ring_advanced (r, m) 0 (r, IoUring_flush_cq_head r m)"
  using assms
  by (auto simp: ring_advanced_def ring_synced_def handle_defs sq_wf_flush cq_wf_release
      intro!: exI [of _ "r_sq_submitted r"])

lemma unat_ucast_count:
  assumes "(v :: u64) \<le> ucast (n :: u32)"
  shows "unat (ucast v :: u32) \<le> unat n"
proof -
  have "unat v \<le> unat n" using assms by (simp add: word_le_nat_alt)
  with unat_ucast_le [of v] show ?thesis by (rule order_trans)
qed

text \<open>One accounted call: take what it reports off the queue and add it to the counter.\<close>

lemma enter_advances:
  assumes inv: "ring_inv (r, m)" and sync: "ring_synced (r, m)"
    and moves: "kernel_moves (r_cq_mask r) enter" and counts: "kernel_counts enter"
    and call: "io_uring_enter enter (r_fd r) n c f (k, m) = (res, k', m')"
  shows "case res of
      Err e \<Rightarrow> ring_advanced (r, m) 0 (r, m')
    | Ok v \<Rightarrow> ring_advanced (r, m) (unat (ucast v :: u32))
               (r\<lparr>r_sq_submitted := r_sq_submitted r + ucast v\<rparr>, m') \<and>
             unat (ucast v :: u32) \<le> unat n"
proof -
  have cq: "unat (m_cq_tail m - m_cq_head m) \<le> unat (r_cq_mask r + 1)"
    using inv by (simp add: ring_inv_def cq_wf_def)
  note takes = enter_obeys(1) [OF moves cq call] and posts = enter_obeys(2) [OF moves cq call]
  have wf: "sq_wf (r_sq_mask r) (r_sq_tail_local r) m" "cq_wf (r_cq_mask r) (r_cq_head_local r) m"
    using inv by (simp_all add: ring_inv_def)
  note sq = kernel_takes_sq [OF wf(1) takes] and cqs = kernel_posts_cq [OF wf(2) posts]
  have adv: "ring_advanced (r, m) (unat (m_sq_head m' - m_sq_head m))
      (r\<lparr>r_sq_submitted := m_sq_head m'\<rparr>, m')"
    using sq cqs by (auto simp: ring_advanced_def ring_synced_def handle_defs)
  have same: "r\<lparr>r_sq_submitted := m_sq_head m\<rparr> = r"
    using sync by (simp add: ring_synced_def)
  show ?thesis
  proof (cases res)
    case (Err e)
    then have "m_sq_head m' = m_sq_head m" using enter_counted [OF counts call] by simp
    then show ?thesis using adv Err same by simp
  next
    case (Ok v)
    then have v: "v \<le> ucast n" "m_sq_head m' = m_sq_head m + ucast v"
      using enter_counted [OF counts call] by simp_all
    then show ?thesis
      using adv Ok sync unat_ucast_count [OF v(1)] by (simp add: ring_synced_def)
  qed
qed

lemma submit_advances:
  assumes "ring_inv (r, m)" "ring_synced (r, m)" "kernel_moves (r_cq_mask r) enter"
    "kernel_counts enter" "IoUring_submit enter r (k, m) = (res, r', k', m')"
  shows "ring_advanced (r, m) (case res of Ok n \<Rightarrow> unat n | Err e \<Rightarrow> 0) (r', m')"
proof -
  let ?m = "IoUring_flush_sq_tail r m" and ?n = "r_sq_tail_local r - r_sq_submitted r"
  have f: "ring_advanced (r, m) 0 (r, ?m)" using ring_flushed(1) [OF assms(1,2)] .
  then have fi: "ring_inv (r, ?m)" "ring_synced (r, ?m)" by (auto simp: ring_advanced_def)
  obtain q k1 m1 where call: "io_uring_enter enter (r_fd r) ?n 0 flags_empty (k, ?m) = (q, k1, m1)"
    by (metis prod_cases3)
  note adv = enter_advances [OF fi assms(3,4) call]
  show ?thesis
  proof (cases "?n = 0")
    case True
    then show ?thesis using f assms(5) by (auto simp: IoUring_submit_def Let_def)
  next
    case False
    show ?thesis
    proof (cases q)
      case (Err e)
      then show ?thesis using f adv False assms(5) call ring_advanced_trans [OF f]
        by (auto simp: IoUring_submit_def Let_def simp del: flush_defs)
    next
      case (Ok v)
      let ?r = "r\<lparr>r_sq_submitted := r_sq_submitted r + ucast v\<rparr>"
      have a: "ring_advanced (r, m) (unat (ucast v :: u32)) (?r, m1)"
        using adv Ok ring_advanced_trans [OF f] by fastforce
      then have "ring_advanced (?r, m1) 0 (?r, IoUring_flush_cq_head ?r m1)"
        by (intro ring_flushed(2)) (auto simp: ring_advanced_def)
      from ring_advanced_trans [OF a this] show ?thesis
        using Ok False assms(5) call
        by (auto simp: IoUring_submit_def Let_def simp del: flush_defs)
    qed
  qed
qed

text \<open>
  \<open>submit_and_wait\<close> on both branches: with room in the completion queue one call, with
  the queue more than three quarters full two calls whose counts add up. An error of the
  second call keeps the first call's progress.
\<close>

text \<open>The two entries of a wait under pressure: hand over what is queued, then wait.\<close>

lemma submit_then_wait_advances:
  assumes "ring_advanced (r, m) (unat (ucast v :: u32)) (r1, m1)" "r_cq_mask r1 = r_cq_mask r"
    and "kernel_moves (r_cq_mask r) enter" "kernel_counts enter"
    and "io_uring_enter enter (r_fd r1) 0 c ENTER_GETEVENTS (k1, m1) = (q, k2, m2)"
  shows "ring_advanced (r, m) (unat (ucast v :: u32)) (r1, m2)" "q = Ok v2 \<Longrightarrow> (ucast v2 :: u32) = 0"
proof -
  have "ring_inv (r1, m1)" "ring_synced (r1, m1)" using assms(1) by (auto simp: ring_advanced_def)
  note step = enter_advances [OF this _ assms(4, 5), unfolded assms(2), OF assms(3)]
  show z: "q = Ok v2 \<Longrightarrow> (ucast v2 :: u32) = 0" for v2 using step by (simp add: unat_eq_0)
  show "ring_advanced (r, m) (unat (ucast v :: u32)) (r1, m2)"
    using step z ring_advanced_trans [OF assms(1)] by (cases q) fastforce+
qed

lemma submit_and_wait_advances:
  assumes "ring_inv (r, m)" "ring_synced (r, m)" "kernel_moves (r_cq_mask r) enter"
    "kernel_counts enter" "IoUring_submit_and_wait enter c r (k, m) = (res, r', k', m')"
  shows "\<exists>j. ring_advanced (r, m) j (r', m') \<and> (\<forall>n. res = Ok n \<longrightarrow> j = unat n)"
proof -
  let ?m = "IoUring_flush_sq_tail r (IoUring_flush_cq_head r m)"
  let ?n = "r_sq_tail_local r - r_sq_submitted r"
  let ?cap = "r_cq_mask r + 1"
  have f0: "ring_advanced (r, m) 0 (r, IoUring_flush_cq_head r m)"
    using ring_flushed(2) [OF assms(1,2)] .
  then have "ring_advanced (r, IoUring_flush_cq_head r m) 0 (r, ?m)"
    by (intro ring_flushed(1)) (auto simp: ring_advanced_def)
  from ring_advanced_trans [OF f0 this] have f: "ring_advanced (r, m) 0 (r, ?m)" by simp
  then have fi: "ring_inv (r, ?m)" "ring_synced (r, ?m)" by (auto simp: ring_advanced_def)
  note step = enter_advances [OF fi assms(3,4)]
  note unf = IoUring_submit_and_wait_def Let_def
  show ?thesis
  proof (cases "m_cq_tail m - r_cq_head_local r > ?cap - ?cap div 4")
    case False
    obtain q k1 m1
      where call: "io_uring_enter enter (r_fd r) ?n c ENTER_GETEVENTS (k, ?m) = (q, k1, m1)"
      by (metis prod_cases3)
    show ?thesis using step [OF call] ring_advanced_trans [OF f] False assms(5) call
      by (cases q) (fastforce simp: unf)+
  next
    case True
    obtain q k1 m1 where call: "io_uring_enter enter (r_fd r) ?n 0 flags_empty (k, ?m) = (q, k1, m1)"
      by (metis prod_cases3)
    show ?thesis
    proof (cases q)
      case (Err e)
      then show ?thesis using step [OF call] ring_advanced_trans [OF f] True assms(5) call
        by (fastforce simp: unf)
    next
      case (Ok v)
      let ?r = "r\<lparr>r_sq_submitted := r_sq_submitted r + ucast v\<rparr>"
      have a: "ring_advanced (r, m) (unat (ucast v :: u32)) (?r, m1)"
        using step [OF call] Ok ring_advanced_trans [OF f] by fastforce
      obtain q2 k2 m2
        where call2: "io_uring_enter enter (r_fd ?r) 0 c ENTER_GETEVENTS (k1, m1) = (q2, k2, m2)"
        by (metis prod_cases3)
      note wait = submit_then_wait_advances [OF a _ assms(3, 4) call2]
      show ?thesis
      proof (cases q2)
        case (Err e)
        then have "r' = ?r" "m' = m2" "res = Err (Error_from_Errno e)"
          using True assms(5) call call2 Ok by (simp_all add: unf)
        then show ?thesis using wait(1) by auto
      next
        case Ok2: (Ok v2)
        then have "r' = ?r" "m' = m2" "res = Ok (ucast v)"
          using True assms(5) call call2 Ok wait(2) [of v2] by (simp_all add: unf)
        then show ?thesis using wait(1) by auto
      qed
    qed
  qed
qed

lemma enter_published:
  assumes "kernel_moves cmask enter" "unat (m_cq_tail m - m_cq_head m) \<le> unat (cmask + 1)"
    and "io_uring_enter enter fd n c f (k, m) = (res, k', m')"
  shows "m_cq_head m' = m_cq_head m" "m_sq_tail m' = m_sq_tail m"
    "unat (m_cq_tail m' - m_cq_head m') \<le> unat (cmask + 1)"
  using enter_obeys [OF assms] by (auto simp: kernel_takes_def kernel_posts_def)

lemma submit_and_wait_published:
  assumes "ring_inv (r, m)" "kernel_moves (r_cq_mask r) enter"
    "IoUring_submit_and_wait enter c r (k, m) = (res, r', k', m')"
  shows "m_cq_head m' = r_cq_head_local r' \<and> m_sq_tail m' = r_sq_tail_local r'"
proof -
  let ?m = "IoUring_flush_sq_tail r (IoUring_flush_cq_head r m)"
  have cq: "unat (m_cq_tail ?m - m_cq_head ?m) \<le> unat (r_cq_mask r + 1)"
    using assms(1) cq_wf_bounds(2) [of "r_cq_mask r" "r_cq_head_local r" m]
    by (simp add: ring_inv_def)
  define P where "P m \<longleftrightarrow> m_cq_head m = r_cq_head_local r \<and> m_sq_tail m = r_sq_tail_local r \<and>
    unat (m_cq_tail m - m_cq_head m) \<le> unat (r_cq_mask r + 1)" for m :: shm
  have keep: "io_uring_enter enter fd n c f (k1, m1) = (q, k2, m2) \<Longrightarrow> P m1 \<Longrightarrow> P m2"
    for fd n c f k1 m1 q k2 m2
    using enter_published [OF assms(2)] unfolding P_def by metis
  have "P ?m" using cq by (simp add: P_def)
  then have "P m'" and "r_cq_head_local r' = r_cq_head_local r"
    and "r_sq_tail_local r' = r_sq_tail_local r"
    using assms(3)
    by (auto simp: IoUring_submit_and_wait_def Let_def simp del: flush_defs
        split: if_splits prod.splits result.splits dest: keep)
  then show ?thesis by (simp add: P_def)
qed

section \<open>A concrete ring and kernel\<close>

text \<open>
  For the witnesses: a kernel that takes one entry per call, and a two-slot ring whose
  indices are about to wrap around, with two entries queued and one completion pending.
\<close>

definition ex_enter :: "unit enter_fn" where
  "ex_enter fd n c f w =
     (let m = snd w
      in if n = 0 \<or> m_sq_head m = m_sq_tail m then (0, (), m)
         else (1, (), m\<lparr>m_sq_head := m_sq_head m + 1\<rparr>))"

definition ex_sqe :: "u64 \<Rightarrow> IoUringSqe" where
  "ex_sqe d = Sqe_user_data d Sqe_nop"

definition ex_cqe :: "u64 \<Rightarrow> i32 \<Rightarrow> IoUringCqe" where
  "ex_cqe d v = \<lparr>cqe_user_data = d, cqe_res = v, cqe_flags = 0\<rparr>"

definition ex_shm :: shm where
  "ex_shm = \<lparr>m_sq_head = 0xFFFFFFFF, m_sq_tail = 0xFFFFFFFF, m_sq_flags = 0,
     m_sqes = [ex_sqe 8, ex_sqe 7], m_cq_head = 0xFFFFFFFF, m_cq_tail = 0,
     m_cqes = [ex_cqe 0 0, ex_cqe 5 3]\<rparr>"

definition ex_ring :: IoUring where
  "ex_ring = \<lparr>r_fd = RawFd 3, r_sq_head = 4096, r_sq_tail = 4100, r_sq_mask = 1, r_sq_flags = 4112,
     r_sqes = 8192, r_sq_tail_local = 1, r_sq_submitted = 0xFFFFFFFF, r_cq_head = 4160,
     r_cq_tail = 4164, r_cq_mask = 1, r_cqes = 4224, r_cq_head_local = 0xFFFFFFFF,
     r_features = 1, r_setup_flags = 0, r_do_tag_next = 0x8000000000000000, r_resources = 12288\<rparr>"

lemmas ex_defs = ex_ring_def ex_shm_def ex_sqe_def ex_cqe_def

lemma ex_enter_moves [simp]: "kernel_moves cm ex_enter"
  by (auto simp: kernel_moves_def ex_enter_def kernel_takes_def kernel_posts_def Let_def
      Suc_le_eq unat_gt_0)

lemma ex_enter_counts [simp]: "kernel_counts ex_enter"
  by (auto simp: kernel_counts_def ex_enter_def check_def Let_def word_le_nat_alt Suc_le_eq unat_gt_0)

lemma pow2_mask_1: "pow2_mask 1 (1 :: u32)"
  by (simp add: pow2_mask_def mask_eq_exp_minus_1)

lemma ex_ring_inv [simp]: "ring_inv (ex_ring, ex_shm)"
  by (auto simp: ring_inv_def sq_wf_def cq_wf_def ex_ring_def ex_shm_def
      intro!: exI [of _ 1] pow2_mask_1)

lemma ex_ring_synced [simp]: "ring_synced (ex_ring, ex_shm)"
  by (simp add: ring_synced_def ex_ring_def ex_shm_def)

text \<open>
  Two runs on it: publish, let the kernel take one entry, push another into the freed slot;
  and reap the pending completion, release its slot, let the kernel post the next one.
\<close>

lemma ex_producer_run:
  "\<exists>r' m'. producer_run ring_push ring_publish ring_sq_env (ex_ring, ex_shm)
     [ex_sqe 9] [ex_sqe 7] (r', m')"
proof -
  define m1 where "m1 = IoUring_flush_sq_tail ex_ring ex_shm"
  define m2 where "m2 = m1\<lparr>m_sq_head := 0\<rparr>"
  have "ring_env (ex_ring, m1) [ex_sqe 7] [] (ex_ring, m2)"
    by (auto simp: ring_env_def kernel_takes_def kernel_posts_def taken_def posted_def m1_def m2_def
        ex_ring_def ex_shm_def ring_window_Suc intro!: exI [of _ "r_sq_submitted ex_ring"])
  then have e: "ring_sq_env (ex_ring, m1) [ex_sqe 7] (ex_ring, m2)" by (auto simp: ring_sq_env_def)
  have p: "ring_push (ex_sqe 9) (ex_ring, m2) = (True, snd (ring_push (ex_sqe 9) (ex_ring, m2)))"
    by (simp add: ring_push_def IoUring_push_def m1_def m2_def ex_ring_def ex_shm_def)
  let ?run = "producer_run ring_push ring_publish ring_sq_env (ex_ring, ex_shm)"
  have "?run [] [] (ex_ring, ex_shm)" by (rule run_start)
  from run_publish [OF this] have "?run [] [] (ex_ring, m1)" by (simp add: m1_def)
  from run_env [OF this e] have "?run [] [ex_sqe 7] (ex_ring, m2)" by simp
  from run_push [OF this p] show ?thesis
    by (cases "snd (ring_push (ex_sqe 9) (ex_ring, m2))") (simp only: append_Nil, blast)
qed

lemma ex_consumer_run:
  "\<exists>c' m'. consumer_run com_pop com_release com_env (completer_half ex_ring, ex_shm)
     [cqe_completion (ex_cqe 6 4)] [cqe_completion (ex_cqe 5 3)] (c', m')"
proof -
  define c where "c = (completer_half ex_ring)\<lparr>c_cq_head_local := 0\<rparr>"
  define m1 where "m1 = Completer_sync_cq c ex_shm"
  define m2 where "m2 = m1\<lparr>m_cq_tail := 1, m_cqes := [ex_cqe 6 4, ex_cqe 5 3]\<rparr>"
  have p: "com_pop (completer_half ex_ring, ex_shm) = Some (cqe_completion (ex_cqe 5 3), c, ex_shm)"
    by (simp add: com_pop_def Completer_complete_def c_def completer_half_def ex_ring_def ex_shm_def
        cqe_completion_def ex_cqe_def)
  have e: "com_env (c, m1) [cqe_completion (ex_cqe 6 4)] (c, m2)"
    by (simp add: com_env_def kernel_posts_def posted_def c_def m1_def m2_def completer_half_def
        ex_ring_def ex_shm_def ring_window_Suc)
  let ?run = "consumer_run com_pop com_release com_env (completer_half ex_ring, ex_shm)"
  have "?run [] [] (completer_half ex_ring, ex_shm)" by (rule crun_start)
  from crun_pop [OF this p] have "?run [] [cqe_completion (ex_cqe 5 3)] (c, ex_shm)" by simp
  from crun_release [OF this] have "?run [] [cqe_completion (ex_cqe 5 3)] (c, m1)"
    by (simp add: m1_def)
  from crun_env [OF this e] show ?thesis by auto
qed

section \<open>Properties\<close>

text \<open>C1. No submission is lost, duplicated, altered or reordered on its way to the kernel. Over
  any interleaving of pushes, publications of the tail, work on the completion queue and
  moves of the kernel (which may consume published entries at any time, as its polling
  thread does), and across the wrap-around of the 32-bit indices, the entries queued before
  together with the entries accepted since are exactly the entries the kernel read out of
  the slots, in order, followed by the entries still queued; the caller is never more than
  one ring ahead of the kernel.\<close>

theorem submission_queue_is_fifo:
  assumes "ring_inv (r, m)"
    and "producer_run ring_push ring_publish ring_sq_env (r, m) accepted read_by_kernel (r', m')"
  shows "ring_inv (r', m') \<and>
    ring_queued (r, m) @ accepted = read_by_kernel @ ring_queued (r', m') \<and>
    length (ring_queued (r, m)) + length accepted \<le> length read_by_kernel + unat (r_sq_mask r + 1)"
  using ring_sq.run_invariant [OF assms(2,1)] ring_sq.run_length [OF assms(2,1)] by simp

theorem submission_queue_is_fifo_witness:
  "\<exists>r' m'. producer_run ring_push ring_publish ring_sq_env (ex_ring, ex_shm)
       [ex_sqe 9] [ex_sqe 7] (r', m') \<and>
     ring_queued (r', m') = [ex_sqe 8, ex_sqe 9]"
proof -
  obtain r' m' where run: "producer_run ring_push ring_publish ring_sq_env (ex_ring, ex_shm)
      [ex_sqe 9] [ex_sqe 7] (r', m')"
    using ex_producer_run by blast
  have "ring_queued (ex_ring, ex_shm) = [ex_sqe 7, ex_sqe 8]" by code_simp
  then show ?thesis
    using run submission_queue_is_fifo [OF ex_ring_inv run] by (auto intro!: exI [of _ r'] exI [of _ m'])
qed

text \<open>C2. No completion is lost, duplicated, altered or reordered on its way from the kernel: over
  any interleaving of reaping, releasing slots and the kernel posting, the completions
  pending before together with those the kernel wrote since are exactly the ones reaped, in
  order, followed by the ones still pending.\<close>

theorem completion_queue_is_fifo:
  assumes "com_inv (c, m)"
    and "consumer_run com_pop com_release com_env (c, m) written_by_kernel reaped (c', m')"
  shows "com_inv (c', m') \<and>
         com_pending (c, m) @ written_by_kernel = reaped @ com_pending (c', m')"
  using cq.run_invariant [OF assms(2,1)] by simp

theorem completion_queue_is_fifo_witness:
  "\<exists>c' m'. consumer_run com_pop com_release com_env (completer_half ex_ring, ex_shm)
       [cqe_completion (ex_cqe 6 4)] [cqe_completion (ex_cqe 5 3)] (c', m') \<and>
     com_pending (c', m') = [cqe_completion (ex_cqe 6 4)]"
proof -
  obtain c' m' where run: "consumer_run com_pop com_release com_env (completer_half ex_ring, ex_shm)
      [cqe_completion (ex_cqe 6 4)] [cqe_completion (ex_cqe 5 3)] (c', m')"
    using ex_consumer_run by blast
  have "com_pending (completer_half ex_ring, ex_shm) = [cqe_completion (ex_cqe 5 3)]" by code_simp
  then show ?thesis
    using run completion_queue_is_fifo [OF half_projections(4) [OF ex_ring_inv] run]
    by (auto intro!: exI [of _ c'] exI [of _ m'])
qed

text \<open>C12. A push fails exactly when every slot is occupied. It then reports that the queue is
  full and changes neither the ring nor shared memory; otherwise the entry is appended.
  \<open>sq_space_left\<close> is the number of free slots, so it is zero exactly when a push fails.\<close>

theorem push_fails_iff_full:
  assumes "ring_inv (r, m)"
  shows "unat (IoUring_sq_space_left r m) = unat (r_sq_mask r + 1) - length (ring_queued (r, m)) \<and>
    (if IoUring_sq_space_left r m = 0
     then IoUring_push x r m = (Err (Submit QueueFull), r, m)
     else \<exists>r' m'. IoUring_push x r m = (Ok (), r', m') \<and> ring_inv (r', m') \<and>
            ring_queued (r', m') = ring_queued (r, m) @ [x] \<and>
            ring_pending (r', m') = ring_pending (r, m))"
proof
  have le: "length (ring_queued (r, m)) \<le> unat (r_sq_mask r + 1)"
    using ring_sq.bounded [OF assms] by simp
  have space:
    "unat (IoUring_sq_space_left r m) = unat (r_sq_mask r + 1) - length (ring_queued (r, m))"
    using le by (simp add: IoUring_sq_space_left_def IoUring_sq_capacity_def ring_queued_def unat_sub
        word_le_nat_alt)
  then show "unat (IoUring_sq_space_left r m) = unat (r_sq_mask r + 1) - length (ring_queued (r, m))" .
  show "if IoUring_sq_space_left r m = 0
         then IoUring_push x r m = (Err (Submit QueueFull), r, m)
         else \<exists>r' m'. IoUring_push x r m = (Ok (), r', m') \<and> ring_inv (r', m') \<and>
                ring_queued (r', m') = ring_queued (r, m) @ [x] \<and>
                ring_pending (r', m') = ring_pending (r, m)"
    using space le IoUring_push_full [OF assms, of x] IoUring_push_room [OF assms, of x]
    by (auto simp: unat_eq_0 [symmetric] simp del: unat_eq_0)
qed

theorem push_fails_iff_full_witness:
  "IoUring_push (ex_sqe 9) ex_ring ex_shm = (Err (Submit QueueFull), ex_ring, ex_shm)"
proof -
  have "IoUring_sq_space_left ex_ring ex_shm = 0"
    by (simp add: IoUring_sq_space_left_def IoUring_sq_capacity_def ex_ring_def ex_shm_def)
  then show ?thesis using push_fails_iff_full [OF ex_ring_inv, of "ex_sqe 9"] by simp
qed

text \<open>C10. A submission reports exactly what the kernel took. On a ring without a polling
  thread \<open>submit\<close> hands every queued entry over; if it returns a count, that many entries
  left the front of the queue, and the rest, which a partial submission leaves behind,
  is exactly what the next call will ask the kernel to take. On an error nothing left
  the queue and nothing is counted as submitted.\<close>

theorem submit_counts_what_left:
  assumes "ring_inv (r, m)" "ring_synced (r, m)"
    and "kernel_moves (r_cq_mask r) enter" "kernel_counts enter"
    and "IoUring_submit enter r (k, m) = (res, r', k', m')"
  shows "ring_inv (r', m') \<and> ring_synced (r', m') \<and>
    ring_queued (r', m') = drop (case res of Ok n \<Rightarrow> unat n | Err e \<Rightarrow> 0) (ring_queued (r, m)) \<and>
    unat (r_sq_tail_local r' - r_sq_submitted r') = length (ring_queued (r', m')) \<and>
    (\<exists>new. ring_pending (r', m') = ring_pending (r, m) @ new)"
  using submit_advances [OF assms] ring_to_submit [of r' m'] by (simp add: ring_advanced_def)

theorem submit_counts_what_left_witness:
  "ring_queued (case IoUring_submit ex_enter ex_ring ((), ex_shm) of (res, r', k', m') \<Rightarrow> (r', m'))
   = [ex_sqe 8]"
proof -
  obtain res r' k' m' where s: "IoUring_submit ex_enter ex_ring ((), ex_shm) = (res, r', k', m')"
    by (metis prod_cases4)
  moreover have "res = Ok 1" using s
    by (simp add: IoUring_submit_def io_uring_enter_def ex_enter_def check_def ex_ring_def ex_shm_def
        Let_def)
  moreover have "ring_queued (ex_ring, ex_shm) = [ex_sqe 7, ex_sqe 8]"
    by code_simp
  ultimately show ?thesis
    using submit_counts_what_left [OF ex_ring_inv ex_ring_synced ex_enter_moves ex_enter_counts s]
    by simp
qed



text \<open>C15. Draining the completion iterator terminates and yields exactly the completions that
  are pending, in the order the kernel posted them; afterwards nothing is pending, and
  the iterator's size hint was the number it yielded.\<close>

theorem drain_yields_pending:
  assumes "com_inv (c, m)"
  shows "fst (Completer_drain c m) = com_pending (c, m) \<and>
         com_inv (snd (Completer_drain c m), m) \<and>
         com_pending (snd (Completer_drain c m), m) = [] \<and>
         unat (fst (SplitCompletions_size_hint c m)) = length (fst (Completer_drain c m))"
  using assms
  by (simp add: Completer_drain_pending SplitCompletions_size_hint_def)
    (simp add: com_inv_def com_pending_def cq_wf_def cq_window_def)

theorem drain_yields_pending_witness:
  "fst (Completer_drain (completer_half ex_ring) ex_shm) = [cqe_completion (ex_cqe 5 3)]"
proof -
  have "com_pending (completer_half ex_ring, ex_shm) = [cqe_completion (ex_cqe 5 3)]"
    by code_simp
  then show ?thesis using drain_yields_pending [OF half_projections(4) [OF ex_ring_inv]] by simp
qed


end
