(* ===== verification/Split_Threads.thy ===== *)
theory Split_Threads
  imports Ring
begin

text \<open>
  The two halves of a split ring on two threads (\<open>src/ring/mod.rs\<close>, the \<open>Send\<close> instances of
  \<open>Submitter\<close> and \<open>Completer\<close>). A push loads the kernel's head and only later compares it and
  writes its slot, a reap loads the kernel's tail and only later reads its slot; in between
  the other thread and the kernel may have moved, so the value compared is stale. The
  system here interleaves the two threads and the kernel at these accesses (each load,
  store and slot access is one step; the orderings \<open>Acquire\<close> and \<open>Release\<close> of the source
  are taken to make the accesses appear in program order). What every party has done is
  kept in logs, and the result is that each thread is a client of the contract of
  \<open>Ring_Interface\<close>: the fine-grained run projects to a run of atomic operations on either
  queue.
\<close>

section \<open>The operations from their shared load on\<close>

definition Submitter_push_at ::
  "u32 \<Rightarrow> IoUringSqe \<Rightarrow> Submitter \<Rightarrow> shm \<Rightarrow> (unit, Error) result \<times> Submitter \<times> shm" where
  "Submitter_push_at head sqe s m =
    (let next_tail = s_sq_tail_local s + 1
     in if next_tail - head > s_sq_mask s + 1 then (Err (Submit QueueFull), s, m)
        else let idx = s_sq_tail_local s AND s_sq_mask s
             in (Ok (), s\<lparr>s_sq_tail_local := next_tail\<rparr>,
                 m\<lparr>m_sqes := (m_sqes m)[unat idx := sqe]\<rparr>))"

definition Completer_complete_at :: "u32 \<Rightarrow> Completer \<Rightarrow> shm \<Rightarrow> (Completion \<times> Completer) option" where
  "Completer_complete_at tail c m =
    (if c_cq_head_local c = tail then None
     else let idx = c_cq_head_local c AND c_cq_mask c;
              cqe = m_cqes m ! unat idx;
              completion = \<lparr>user_data = cqe_user_data cqe, res_code = cqe_res cqe,
                            cflags = cqe_flags cqe\<rparr>
          in Some (completion, c\<lparr>c_cq_head_local := c_cq_head_local c + 1\<rparr>))"

lemma whole_operations:
  "Submitter_push sqe s m = Submitter_push_at (m_sq_head m) sqe s m"
  "Completer_complete c m = Completer_complete_at (m_cq_tail m) c m"
  by (simp_all add: Submitter_push_def Submitter_push_at_def Completer_complete_def
      Completer_complete_at_def Let_def)

section \<open>The system\<close>

datatype push_pc = Push_idle | Push_loaded IoUringSqe u32

datatype reap_pc = Reap_idle | Reap_loaded u32

record split_sys =
  ss_sub :: Submitter
  ss_com :: Completer
  ss_mem :: shm
  ss_push :: push_pc
  ss_reap :: reap_pc
  ss_accepted :: "IoUringSqe list"
  ss_taken :: "IoUringSqe list"
  ss_posted :: "Completion list"
  ss_reaped :: "Completion list"

text \<open>
  The logs \<open>ss_accepted\<close> and \<open>ss_reaped\<close> hold what the threads' calls reported, \<open>ss_taken\<close> what
  the kernel read out of the submission slots it passed and \<open>ss_posted\<close> what it wrote.
\<close>

inductive split_step :: "split_sys \<Rightarrow> split_sys \<Rightarrow> bool" where
  load_head: "ss_push s = Push_idle \<Longrightarrow>
     split_step s (s\<lparr>ss_push := Push_loaded sqe (m_sq_head (ss_mem s))\<rparr>)"
| push_accepted: "ss_push s = Push_loaded sqe h \<Longrightarrow>
     Submitter_push_at h sqe (ss_sub s) (ss_mem s) = (Ok (), sub, m) \<Longrightarrow>
     split_step s (s\<lparr>ss_sub := sub, ss_mem := m, ss_push := Push_idle,
                    ss_accepted := ss_accepted s @ [sqe]\<rparr>)"
| push_refused: "ss_push s = Push_loaded sqe h \<Longrightarrow>
     Submitter_push_at h sqe (ss_sub s) (ss_mem s) = (Err e, sub, m) \<Longrightarrow>
     split_step s (s\<lparr>ss_sub := sub, ss_mem := m, ss_push := Push_idle\<rparr>)"
| publish_tail: "ss_push s = Push_idle \<Longrightarrow>
     split_step s (s\<lparr>ss_mem := Submitter_flush_sq_tail (ss_sub s) (ss_mem s)\<rparr>)"
| count_submitted: "ss_push s = Push_idle \<Longrightarrow>
     split_step s (s\<lparr>ss_sub := (ss_sub s)\<lparr>s_sq_submitted := n\<rparr>\<rparr>)"
| load_tail: "ss_reap s = Reap_idle \<Longrightarrow>
     split_step s (s\<lparr>ss_reap := Reap_loaded (m_cq_tail (ss_mem s))\<rparr>)"
| reap_one: "ss_reap s = Reap_loaded t \<Longrightarrow>
     Completer_complete_at t (ss_com s) (ss_mem s) = Some (x, com) \<Longrightarrow>
     split_step s (s\<lparr>ss_com := com, ss_reap := Reap_idle, ss_reaped := ss_reaped s @ [x]\<rparr>)"
| reap_none: "ss_reap s = Reap_loaded t \<Longrightarrow>
     Completer_complete_at t (ss_com s) (ss_mem s) = None \<Longrightarrow>
     split_step s (s\<lparr>ss_reap := Reap_idle\<rparr>)"
| release_head: "ss_reap s = Reap_idle \<Longrightarrow>
     split_step s (s\<lparr>ss_mem := Completer_sync_cq (ss_com s) (ss_mem s)\<rparr>)"
| kernel_runs: "kernel_takes (ss_mem s) m \<Longrightarrow> kernel_posts (c_cq_mask (ss_com s)) (ss_mem s) m \<Longrightarrow>
     split_step s (s\<lparr>ss_mem := m,
       ss_taken := ss_taken s @ taken (s_sq_mask (ss_sub s)) (ss_mem s) m,
       ss_posted := ss_posted s @ posted (c_cq_mask (ss_com s)) (ss_mem s) m\<rparr>)"

inductive split_reach :: "split_sys \<Rightarrow> split_sys \<Rightarrow> bool" where
  reach_start: "split_reach s s"
| reach_step: "split_reach s s' \<Longrightarrow> split_step s' s'' \<Longrightarrow> split_reach s s''"

definition split_system :: "Submitter \<Rightarrow> Completer \<Rightarrow> shm \<Rightarrow> split_sys" where
  "split_system s c m =
     \<lparr>ss_sub = s, ss_com = c, ss_mem = m, ss_push = Push_idle, ss_reap = Reap_idle,
      ss_accepted = [], ss_taken = [], ss_posted = [], ss_reaped = []\<rparr>"

abbreviation ss_sq :: "split_sys \<Rightarrow> Submitter \<times> shm" where
  "ss_sq s \<equiv> (ss_sub s, ss_mem s)"

abbreviation ss_cq :: "split_sys \<Rightarrow> Completer \<times> shm" where
  "ss_cq s \<equiv> (ss_com s, ss_mem s)"

section \<open>What a stale index still guarantees\<close>

text \<open>
  A loaded head is a head the kernel has since moved forward, so it shows at most the room
  there is; a loaded tail is one the kernel has since moved forward, so it shows at most
  the completions there are.
\<close>

fun push_pc_ok :: "push_pc \<Rightarrow> Submitter \<Rightarrow> shm \<Rightarrow> bool" where
  "push_pc_ok Push_idle s m \<longleftrightarrow> True"
| "push_pc_ok (Push_loaded sqe h) s m \<longleftrightarrow>
     unat (s_sq_tail_local s - m_sq_head m) \<le> unat (s_sq_tail_local s - h) \<and>
     unat (s_sq_tail_local s - h) \<le> unat (s_sq_mask s + 1)"

fun reap_pc_ok :: "reap_pc \<Rightarrow> Completer \<Rightarrow> shm \<Rightarrow> bool" where
  "reap_pc_ok Reap_idle c m \<longleftrightarrow> True"
| "reap_pc_ok (Reap_loaded t) c m \<longleftrightarrow>
     unat (t - c_cq_head_local c) \<le> unat (m_cq_tail m - c_cq_head_local c)"

definition split_inv :: "split_sys \<Rightarrow> bool" where
  "split_inv s \<longleftrightarrow> sub_inv (ss_sq s) \<and> com_inv (ss_cq s) \<and>
     push_pc_ok (ss_push s) (ss_sub s) (ss_mem s) \<and> reap_pc_ok (ss_reap s) (ss_com s) (ss_mem s)"

text \<open>An accepted push on a stale head is the push on the current one.\<close>

lemma push_at_stale:
  assumes "sub_inv (s, m)" "push_pc_ok (Push_loaded sqe h) s m"
    and "Submitter_push_at h sqe s m = (Ok u, s', m')"
  shows "sub_push sqe (s, m) = (True, s', m')"
proof -
  let ?m = "m\<lparr>m_sq_head := h, m_sq_tail := s_sq_tail_local s\<rparr>"
  have "sq_wf (s_sq_mask s) (s_sq_tail_local s) ?m"
    using assms(1,2) by (auto simp: sub_inv_def sq_wf_def)
  then have "unat (s_sq_tail_local s - h) \<noteq> unat (s_sq_mask s + 1)"
    using sq_wf_push_full [of "s_sq_mask s" "s_sq_tail_local s" ?m] assms(3)
    by (auto simp: Submitter_push_at_def Let_def split: if_splits)
  then have "length (sub_queued (s, m)) < unat (s_sq_mask s + 1)"
    using assms(2) by (simp add: sub_queued_def)
  from Submitter_push_room [OF assms(1) this, of sqe] show ?thesis
    using assms(3) by (auto simp: sub_push_def Submitter_push_at_def Let_def split: if_splits)
qed

lemma push_at_refused: "Submitter_push_at h sqe s m = (Err e, s', m') \<Longrightarrow> s' = s \<and> m' = m"
  by (auto simp: Submitter_push_at_def Let_def split: if_splits)

lemma push_at_frame:
  "Submitter_push_at h sqe s m = (r, s', m') \<Longrightarrow>
   s_sq_mask s' = s_sq_mask s \<and> m_cq_head m' = m_cq_head m \<and> m_cq_tail m' = m_cq_tail m \<and>
   m_cqes m' = m_cqes m"
  by (auto simp: Submitter_push_at_def Let_def split: if_splits)

text \<open>A reap on a stale tail is the reap on the current one, or finds nothing.\<close>

lemma complete_at_stale:
  assumes "reap_pc_ok (Reap_loaded t) c m" "Completer_complete_at t c m = Some (x, c')"
  shows "com_pop (c, m) = Some (x, c', m)"
proof -
  have "t \<noteq> c_cq_head_local c" using assms(2) by (auto simp: Completer_complete_at_def)
  then have "unat (t - c_cq_head_local c) \<noteq> 0" by simp
  then have "m_cq_tail m \<noteq> c_cq_head_local c" using assms(1) by auto
  then show ?thesis
    using assms(2) by (auto simp: com_pop_def Completer_complete_def Completer_complete_at_def Let_def
        split: if_splits)
qed

section \<open>Neither thread disturbs the other\<close>

text \<open>Seen from one queue, a step on the other queue is a move of the environment that moves nothing.\<close>

lemma posts_nothing:
  assumes "com_inv (c, m)" "m_cq_head m' = m_cq_head m" "m_cq_tail m' = m_cq_tail m" "m_cqes m' = m_cqes m"
  shows "com_env (c, m) [] (c, m')"
  using assms by (simp add: com_env_def kernel_posts_def posted_def com_inv_def cq_wf_def)

lemma takes_nothing:
  assumes "m_sq_head m' = m_sq_head m" "m_sq_tail m' = m_sq_tail m" "m_sqes m' = m_sqes m"
  shows "sub_env (s, m) [] (s\<lparr>s_sq_submitted := n\<rparr>, m')"
  using assms by (auto simp: sub_env_def kernel_takes_def taken_def)

lemma env_keeps_pcs:
  assumes "sub_inv (s, m)" "com_inv (c, m)" "kernel_takes m m'" "kernel_posts (c_cq_mask c) m m'"
  shows "push_pc_ok p s m \<Longrightarrow> push_pc_ok p s m'" "reap_pc_ok q c m \<Longrightarrow> reap_pc_ok q c m'"
proof -
  have sq: "sq_wf (s_sq_mask s) (s_sq_tail_local s) m" and cq: "cq_wf (c_cq_mask c) (c_cq_head_local c) m"
    using assms(1,2) by (simp_all add: sub_inv_def com_inv_def)
  have "length (sq_window (s_sq_mask s) (s_sq_tail_local s) m') \<le>
        length (sq_window (s_sq_mask s) (s_sq_tail_local s) m)"
    using taken_window [OF sq assms(3)] by (metis le_add2 length_append)
  then show "push_pc_ok p s m \<Longrightarrow> push_pc_ok p s m'" by (cases p) auto
  have "length (cq_window (c_cq_mask c) (c_cq_head_local c) m) \<le>
        length (cq_window (c_cq_mask c) (c_cq_head_local c) m')"
    using posted_window [OF cq assms(4)] by simp
  then show "reap_pc_ok q c m \<Longrightarrow> reap_pc_ok q c m'" by (cases q) auto
qed

text \<open>
  One step of the system, seen from the submission queue and from the completion queue: at
  most one atomic operation of the owner, or one move of the environment.
\<close>

lemma step_projects_sq:
  assumes "split_step s s'" "split_inv s"
    and "producer_run sub_push sub_publish sub_env i (ss_accepted s) (ss_taken s) (ss_sq s)"
  shows "producer_run sub_push sub_publish sub_env i (ss_accepted s') (ss_taken s') (ss_sq s')"
  using assms
proof (cases rule: split_step.cases)
  case (push_accepted sqe h sub m)
  then have "sub_push sqe (ss_sq s) = (True, sub, m)"
    using assms(2) by (intro push_at_stale) (auto simp: split_inv_def)
  from run_push [OF assms(3) this] show ?thesis using push_accepted by simp
next
  case publish_tail
  then show ?thesis using run_publish [OF assms(3)] by simp
next
  case (count_submitted n)
  then show ?thesis
    using run_env [OF assms(3) takes_nothing [of "ss_mem s" "ss_mem s" "ss_sub s" n]] by simp
next
  case release_head
  then show ?thesis
    using run_env [OF assms(3) takes_nothing [of "ss_mem s'" "ss_mem s" "ss_sub s" "s_sq_submitted (ss_sub s)"]]
    by simp
next
  case (kernel_runs m)
  have "sub_env (ss_sq s) (taken (s_sq_mask (ss_sub s)) (ss_mem s) m) (ss_sub s, m)"
    using kernel_runs by (auto simp: sub_env_def intro!: exI [of _ "s_sq_submitted (ss_sub s)"])
  from run_env [OF assms(3) this] show ?thesis using kernel_runs by simp
qed (auto dest: push_at_refused)

lemma step_projects_cq:
  assumes "split_step s s'" "split_inv s"
    and "consumer_run com_pop com_release com_env i (ss_posted s) (ss_reaped s) (ss_cq s)"
  shows "consumer_run com_pop com_release com_env i (ss_posted s') (ss_reaped s') (ss_cq s')"
proof -
  have quiet: ?thesis if "ss_com s' = ss_com s" "ss_posted s' = ss_posted s" "ss_reaped s' = ss_reaped s"
      "m_cq_head (ss_mem s') = m_cq_head (ss_mem s)" "m_cq_tail (ss_mem s') = m_cq_tail (ss_mem s)"
      "m_cqes (ss_mem s') = m_cqes (ss_mem s)"
    using that assms(2) crun_env [OF assms(3) posts_nothing [of "ss_com s" "ss_mem s" "ss_mem s'"]]
    by (simp add: split_inv_def)
  show ?thesis using assms(1)
  proof (cases rule: split_step.cases)
    case (push_accepted sqe h sub m)
    then show ?thesis by (intro quiet) (auto dest: push_at_frame)
  next
    case (push_refused sqe h e sub m)
    then show ?thesis by (intro quiet) (auto dest: push_at_frame)
  next
    case (reap_one t x com)
    then have "com_pop (ss_cq s) = Some (x, com, ss_mem s)"
      using assms(2) by (intro complete_at_stale) (auto simp: split_inv_def)
    from crun_pop [OF assms(3) this] show ?thesis using reap_one by simp
  next
    case release_head
    then show ?thesis using crun_release [OF assms(3)] by simp
  next
    case (kernel_runs m)
    have "com_env (ss_cq s) (posted (c_cq_mask (ss_com s)) (ss_mem s) m) (ss_com s, m)"
      using kernel_runs by (auto simp: com_env_def)
    from crun_env [OF assms(3) this] show ?thesis using kernel_runs by simp
  qed (use quiet in simp_all)
qed

lemma step_keeps_pcs:
  assumes "split_step s s'" "split_inv s"
  shows "push_pc_ok (ss_push s') (ss_sub s') (ss_mem s') \<and> reap_pc_ok (ss_reap s') (ss_com s') (ss_mem s')"
proof -
  have sq: "unat (s_sq_tail_local (ss_sub s) - m_sq_head (ss_mem s)) \<le> unat (s_sq_mask (ss_sub s) + 1)"
    using assms(2) by (simp add: split_inv_def sub_inv_def sq_wf_def)
  have pcs: "push_pc_ok (ss_push s) (ss_sub s) (ss_mem s)" "reap_pc_ok (ss_reap s) (ss_com s) (ss_mem s)"
    using assms(2) by (simp_all add: split_inv_def)
  show ?thesis using assms(1)
  proof (cases rule: split_step.cases)
    case (push_accepted sqe h sub m)
    then show ?thesis using pcs by (cases "ss_reap s") (auto dest: push_at_frame)
  next
    case (push_refused sqe h e sub m)
    then show ?thesis using pcs by (auto dest: push_at_refused)
  next
    case release_head
    then show ?thesis using pcs by (cases "ss_push s") auto
  next
    case (kernel_runs m)
    then show ?thesis
      using assms(2) env_keeps_pcs [of "ss_sub s" "ss_mem s" "ss_com s" m] by (simp add: split_inv_def)
  next
    case publish_tail
    then show ?thesis using pcs by (cases "ss_reap s") auto
  qed (use sq pcs in auto)
qed

lemma reach_projects:
  assumes "split_reach s0 s" "s0 = split_system sub com m" "sub_inv (sub, m)" "com_inv (com, m)"
  shows "split_inv s \<and>
    producer_run sub_push sub_publish sub_env (sub, m) (ss_accepted s) (ss_taken s) (ss_sq s) \<and>
    consumer_run com_pop com_release com_env (com, m) (ss_posted s) (ss_reaped s) (ss_cq s)"
  using assms
proof (induction rule: split_reach.induct)
  case (reach_start s)
  then show ?case
    by (auto simp: split_system_def split_inv_def intro: run_start crun_start)
next
  case (reach_step s s' s'')
  then have inv: "split_inv s'"
    and sq: "producer_run sub_push sub_publish sub_env (sub, m) (ss_accepted s') (ss_taken s') (ss_sq s')"
    and cq: "consumer_run com_pop com_release com_env (com, m) (ss_posted s') (ss_reaped s') (ss_cq s')"
    by auto
  note sq' = step_projects_sq [OF reach_step(2) inv sq] and cq' = step_projects_cq [OF reach_step(2) inv cq]
  show ?case
    using sq' cq' sq.run_invariant [OF sq'] cq.run_invariant [OF cq'] reach_step.prems
      step_keeps_pcs [OF reach_step(2) inv] by (simp add: split_inv_def)
qed

section \<open>The kernel calls of the two threads as steps\<close>

text \<open>
  A call into the kernel is a step of the kernel, and the published tail and the counter are
  steps of the submitting thread, so the calls of the two halves add nothing to the runs
  above: \<open>submit\<close>, \<open>submit_and_wait\<close>, \<open>submit_sqpoll\<close> and \<open>wait\<close> lead from an idle thread to an
  idle thread by steps of the system, with nothing accepted and nothing reaped.
\<close>

definition split_called :: "split_sys \<Rightarrow> Submitter \<Rightarrow> shm \<Rightarrow> bool" where
  "split_called s sub m \<longleftrightarrow> (\<exists>s'. split_reach s s' \<and> ss_sub s' = sub \<and> ss_mem s' = m \<and>
     ss_com s' = ss_com s \<and> ss_push s' = ss_push s \<and> ss_reap s' = ss_reap s \<and>
     ss_accepted s' = ss_accepted s \<and> ss_reaped s' = ss_reaped s)"

lemma split_reach_trans: "split_reach s' s'' \<Longrightarrow> split_reach s s' \<Longrightarrow> split_reach s s''"
  by (induction rule: split_reach.induct) (auto intro: reach_step)

lemma split_called_refl: "split_called s (ss_sub s) (ss_mem s)"
  by (auto simp: split_called_def intro: reach_start)

lemma split_called_step:
  assumes "split_called s sub m"
    and "\<And>s'. ss_sub s' = sub \<Longrightarrow> ss_mem s' = m \<Longrightarrow> ss_com s' = ss_com s \<Longrightarrow> ss_push s' = ss_push s \<Longrightarrow>
       ss_reap s' = ss_reap s \<Longrightarrow> \<exists>s''. split_step s' s'' \<and> ss_sub s'' = sub' \<and> ss_mem s'' = m' \<and>
         ss_com s'' = ss_com s' \<and> ss_push s'' = ss_push s' \<and> ss_reap s'' = ss_reap s' \<and>
         ss_accepted s'' = ss_accepted s' \<and> ss_reaped s'' = ss_reaped s'"
  shows "split_called s sub' m'"
proof -
  obtain s' where s': "split_reach s s'" "ss_sub s' = sub" "ss_mem s' = m" "ss_com s' = ss_com s"
    "ss_push s' = ss_push s" "ss_reap s' = ss_reap s" "ss_accepted s' = ss_accepted s"
    "ss_reaped s' = ss_reaped s"
    using assms(1) by (auto simp: split_called_def)
  obtain s'' where "split_step s' s''" "ss_sub s'' = sub'" "ss_mem s'' = m'" "ss_com s'' = ss_com s'"
    "ss_push s'' = ss_push s'" "ss_reap s'' = ss_reap s'" "ss_accepted s'' = ss_accepted s'"
    "ss_reaped s'' = ss_reaped s'"
    using assms(2) [OF s'(2-6)] by blast
  then show ?thesis using s' reach_step [OF s'(1)] by (auto simp: split_called_def)
qed

lemma called_publish:
  "split_called s sub m \<Longrightarrow> ss_push s = Push_idle \<Longrightarrow> split_called s sub (Submitter_flush_sq_tail sub m)"
  by (erule split_called_step, rule exI, rule conjI, rule publish_tail) simp_all

lemma called_count:
  "split_called s sub m \<Longrightarrow> ss_push s = Push_idle \<Longrightarrow> split_called s (sub\<lparr>s_sq_submitted := n\<rparr>) m"
  by (erule split_called_step, rule exI, rule conjI, rule count_submitted) simp_all

lemma called_release:
  "split_called s sub m \<Longrightarrow> ss_reap s = Reap_idle \<Longrightarrow>
   split_called s sub (Completer_sync_cq (ss_com s) m)"
  by (erule split_called_step, rule exI, rule conjI, rule release_head) simp_all

lemma called_enter:
  assumes "split_called s sub m" "kernel_moves (c_cq_mask (ss_com s)) enter"
    and "unat (m_cq_tail m - m_cq_head m) \<le> unat (c_cq_mask (ss_com s) + 1)"
    and "io_uring_enter enter fd n c f (k, m) = (res, k', m')"
  shows "split_called s sub m'"
  by (rule split_called_step [OF assms(1)], rule exI, rule conjI, rule kernel_runs [where m = m'])
    (use enter_obeys [OF assms(2-4)] in simp_all)

lemma released_bound:
  "com_inv (c, m) \<Longrightarrow> unat (m_cq_tail m - c_cq_head_local c) \<le> unat (c_cq_mask c + 1)"
  using cq_wf_bounds(2) [of "c_cq_mask c" "c_cq_head_local c" m] by (simp add: com_inv_def)

lemma submitter_calls_are_steps:
  assumes "split_inv s" "ss_push s = Push_idle" "kernel_moves (c_cq_mask (ss_com s)) enter"
  shows "Submitter_submit enter (ss_sub s) (k, ss_mem s) = (res, sub, k', m) \<Longrightarrow> split_called s sub m"
    and "Submitter_submit_and_wait enter n (ss_sub s) (k, ss_mem s) = (res, sub, k', m) \<Longrightarrow>
         split_called s sub m"
    and "Submitter_submit_sqpoll enter (ss_sub s) (k, ss_mem s) = (res', sub, k', m) \<Longrightarrow>
         split_called s sub m"
proof -
  let ?m = "Submitter_flush_sq_tail (ss_sub s) (ss_mem s)"
  have f: "split_called s (ss_sub s) ?m" by (rule called_publish [OF split_called_refl assms(2)])
  have b: "unat (m_cq_tail ?m - m_cq_head ?m) \<le> unat (c_cq_mask (ss_com s) + 1)"
    using assms(1) by (simp add: split_inv_def com_inv_def cq_wf_def)
  note enter = called_enter [OF _ assms(3) b] and count = called_count [OF _ assms(2)]
  show "Submitter_submit enter (ss_sub s) (k, ss_mem s) = (res, sub, k', m) \<Longrightarrow> split_called s sub m"
    by (auto simp: Submitter_submit_def Let_def simp del: flush_defs
        split: if_splits prod.splits result.splits intro: f enter [OF f] count)
  show "Submitter_submit_and_wait enter n (ss_sub s) (k, ss_mem s) = (res, sub, k', m) \<Longrightarrow>
      split_called s sub m"
    by (auto simp: Submitter_submit_and_wait_def Let_def simp del: flush_defs
        split: prod.splits result.splits intro: enter [OF f] count)
  show "Submitter_submit_sqpoll enter (ss_sub s) (k, ss_mem s) = (res', sub, k', m) \<Longrightarrow>
      split_called s sub m"
    by (auto simp: Submitter_submit_sqpoll_def Let_def simp del: flush_defs
        split: if_splits prod.splits result.splits intro: f enter [OF f] enter [OF count [OF f]] count)
qed

lemma completer_wait_is_steps:
  assumes "split_inv s" "ss_reap s = Reap_idle" "kernel_moves (c_cq_mask (ss_com s)) enter"
    and "Completer_wait enter n (ss_com s) (k, ss_mem s) = (res, k', m)"
  shows "split_called s (ss_sub s) m"
proof -
  let ?m = "Completer_sync_cq (ss_com s) (ss_mem s)"
  have f: "split_called s (ss_sub s) ?m" by (rule called_release [OF split_called_refl assms(2)])
  have b: "unat (m_cq_tail ?m - m_cq_head ?m) \<le> unat (c_cq_mask (ss_com s) + 1)"
    using assms(1) released_bound by (simp add: split_inv_def)
  show ?thesis using assms(4)
    by (auto simp: Completer_wait_def Let_def simp del: flush_defs
        split: prod.splits result.splits intro: called_enter [OF f assms(3) b])
qed

section \<open>A run with stale indices\<close>

text \<open>
  On the full two-slot ring: publish; the kernel takes the first entry; the push loads the
  head; the kernel takes the second entry; both threads go on with what they loaded.
\<close>

lemma ex_split_run:
  "\<exists>s. split_reach (split_system (submitter_half ex_ring) (completer_half ex_ring) ex_shm) s \<and>
     ss_accepted s = [ex_sqe 9] \<and> ss_taken s = [ex_sqe 7, ex_sqe 8] \<and> ss_posted s = [] \<and>
     ss_reaped s = [cqe_completion (ex_cqe 5 3)]"
proof -
  define s0 where "s0 = split_system (submitter_half ex_ring) (completer_half ex_ring) ex_shm"
  define s1 where "s1 = s0\<lparr>ss_mem := Submitter_flush_sq_tail (ss_sub s0) (ss_mem s0)\<rparr>"
  define s2 where "s2 = s1\<lparr>ss_mem := (ss_mem s1)\<lparr>m_sq_head := 0\<rparr>, ss_taken := [ex_sqe 7]\<rparr>"
  define s3 where "s3 = s2\<lparr>ss_push := Push_loaded (ex_sqe 9) 0\<rparr>"
  define s4 where "s4 = s3\<lparr>ss_mem := (ss_mem s3)\<lparr>m_sq_head := 1\<rparr>, ss_taken := [ex_sqe 7, ex_sqe 8]\<rparr>"
  define s5 where "s5 = s4\<lparr>ss_reap := Reap_loaded 0\<rparr>"
  define s6 where "s6 = s5\<lparr>ss_sub := (ss_sub s5)\<lparr>s_sq_tail_local := 2\<rparr>,
    ss_mem := (ss_mem s5)\<lparr>m_sqes := [ex_sqe 8, ex_sqe 9]\<rparr>, ss_push := Push_idle, ss_accepted := [ex_sqe 9]\<rparr>"
  define s7 where "s7 = s6\<lparr>ss_com := (ss_com s6)\<lparr>c_cq_head_local := 0\<rparr>, ss_reap := Reap_idle,
    ss_reaped := [cqe_completion (ex_cqe 5 3)]\<rparr>"
  note ds = s0_def s1_def s2_def s3_def s4_def s5_def s6_def s7_def split_system_def
    submitter_half_def completer_half_def ex_ring_def ex_shm_def
  note km = kernel_takes_def kernel_posts_def taken_def posted_def ring_window_Suc
  have "split_step s0 s1" using publish_tail [of s0] by (simp add: ds)
  moreover have "split_step s1 s2"
    using kernel_runs [of s1 "(ss_mem s1)\<lparr>m_sq_head := 0\<rparr>"] by (simp add: ds km)
  moreover have "split_step s2 s3" using load_head [of s2 "ex_sqe 9"] by (simp add: ds)
  moreover have "split_step s3 s4"
    using kernel_runs [of s3 "(ss_mem s3)\<lparr>m_sq_head := 1\<rparr>"] by (simp add: ds km)
  moreover have "split_step s4 s5" using load_tail [of s4] by (simp add: ds)
  moreover have "split_step s5 s6"
    using push_accepted [of s5 "ex_sqe 9" 0 "ss_sub s6" "ss_mem s6"] by (simp add: ds Submitter_push_at_def)
  moreover have "split_step s6 s7"
    using reap_one [of s6 0 "cqe_completion (ex_cqe 5 3)" "ss_com s7"]
    by (simp add: ds Completer_complete_at_def cqe_completion_def ex_cqe_def)
  ultimately have "split_reach s0 s7" using reach_start reach_step by meson
  moreover have "ss_accepted s7 = [ex_sqe 9]" "ss_taken s7 = [ex_sqe 7, ex_sqe 8]" "ss_posted s7 = []"
    "ss_reaped s7 = [cqe_completion (ex_cqe 5 3)]" by (simp_all add: ds)
  ultimately show ?thesis unfolding s0_def by blast
qed

section \<open>Properties\<close>

text \<open>C3. The two halves of a split ring can be used from two threads without a lock. Over every
  interleaving of the submitting thread, the completing thread and the kernel, taken at the
  single loads, stores and slot accesses, so that a push may decide on a head and a reap on a
  tail that the kernel has already moved: the entries queued at the start and accepted since
  are exactly those the kernel read, in order, followed by those queued; the completions
  pending at the start and written since are exactly those reaped, in order, followed by
  those pending; and neither queue ever holds more than its slots.\<close>

theorem split_threads_keep_both_queues:
  assumes "sub_inv (sub, m)" "com_inv (com, m)" "split_reach (split_system sub com m) s"
  shows "sub_inv (ss_sub s, ss_mem s) \<and> com_inv (ss_com s, ss_mem s) \<and>
    sub_queued (sub, m) @ ss_accepted s = ss_taken s @ sub_queued (ss_sub s, ss_mem s) \<and>
    com_pending (com, m) @ ss_posted s = ss_reaped s @ com_pending (ss_com s, ss_mem s) \<and>
    length (sub_queued (ss_sub s, ss_mem s)) \<le> unat (s_sq_mask sub + 1)"
proof -
  have sq: "producer_run sub_push sub_publish sub_env (sub, m) (ss_accepted s) (ss_taken s) (ss_sq s)"
    and cq: "consumer_run com_pop com_release com_env (com, m) (ss_posted s) (ss_reaped s) (ss_cq s)"
    using reach_projects [OF assms(3) refl assms(1,2)] by simp_all
  note s = sq.run_invariant [OF sq assms(1)]
  then show ?thesis using cq.run_invariant [OF cq assms(2)] sq.bounded [of "ss_sq s"] by simp
qed

theorem split_threads_keep_both_queues_witness:
  "\<exists>s. split_reach (split_system (submitter_half ex_ring) (completer_half ex_ring) ex_shm) s \<and>
     ss_accepted s = [ex_sqe 9] \<and> ss_taken s = [ex_sqe 7, ex_sqe 8] \<and>
     ss_reaped s = [cqe_completion (ex_cqe 5 3)] \<and>
     sub_queued (ss_sub s, ss_mem s) = [ex_sqe 9] \<and> com_pending (ss_com s, ss_mem s) = []"
proof -
  obtain s where s: "split_reach (split_system (submitter_half ex_ring) (completer_half ex_ring) ex_shm) s"
    and logs: "ss_accepted s = [ex_sqe 9]" "ss_taken s = [ex_sqe 7, ex_sqe 8]" "ss_posted s = []"
      "ss_reaped s = [cqe_completion (ex_cqe 5 3)]"
    using ex_split_run by blast
  have "sub_queued (submitter_half ex_ring, ex_shm) = [ex_sqe 7, ex_sqe 8]"
    "com_pending (completer_half ex_ring, ex_shm) = [cqe_completion (ex_cqe 5 3)]" by code_simp+
  then show ?thesis
    using s logs split_threads_keep_both_queues [OF half_projections(3,4) [OF ex_ring_inv] s]
    by (intro exI [of _ s]) simp
qed

end
