(* ===== verification/Sqpoll.thy ===== *)
theory Sqpoll
  imports Ring
begin

text \<open>
  Waking the kernel's polling thread (\<open>submit_sqpoll\<close> of \<open>src/ring/mod.rs\<close>). The application
  stores the tail with \<open>Release\<close> ordering and then loads the flag word with \<open>Acquire\<close> ordering;
  the polling thread, when it finds nothing to do, sets \<open>IORING_SQ_NEED_WAKEUP\<close>, looks at the
  tail once more and goes to sleep. These two orderings do not keep a store in front of a
  later load of another location, and x86-64 uses that freedom: a store may sit in the
  processor's buffer while later loads go ahead. The system here has that buffer. With
  \<open>fence\<close> the load waits until the buffer has drained, which is what a full fence between the
  two accesses, or program order, would give; the source has no fence.
\<close>

section \<open>The protocol\<close>

text \<open>
  The application is between calls, has stored the tail and not yet loaded the flags, or has
  found the flag set. The polling thread runs, has set the flag, or sleeps.
\<close>

datatype call_pc = At_rest | Tail_stored | Must_wake

datatype poller = Poller_runs | Poller_flagged | Poller_asleep

record sqpoll_sys =
  q_sub :: Submitter
  q_mem :: shm
  q_buf :: "u32 list"
  q_pc :: call_pc
  q_poller :: poller

text \<open>
  The steps of \<open>submit_sqpoll\<close> in the order of the source: the tail is stored and counted as
  submitted, the flags are loaded, and the system call is made if they ask for it. The
  entries themselves are written before the tail and the buffer keeps stores in order, so a
  push acts on memory at once. The system call wakes the thread, which clears its flag.
\<close>

inductive sqpoll_app :: "bool \<Rightarrow> sqpoll_sys \<Rightarrow> sqpoll_sys \<Rightarrow> bool" for fence where
  app_push: "q_pc s = At_rest \<Longrightarrow> Submitter_push sqe (q_sub s) (q_mem s) = (r, sub, m) \<Longrightarrow>
     sqpoll_app fence s (s\<lparr>q_sub := sub, q_mem := m\<rparr>)"
| app_store: "q_pc s = At_rest \<Longrightarrow>
     sqpoll_app fence s
       (s\<lparr>q_buf := q_buf s @ [m_sq_tail (Submitter_flush_sq_tail (q_sub s) (q_mem s))],
          q_sub := (q_sub s)\<lparr>s_sq_submitted := s_sq_tail_local (q_sub s)\<rparr>, q_pc := Tail_stored\<rparr>)"
| app_check: "q_pc s = Tail_stored \<Longrightarrow> fence \<longrightarrow> q_buf s = [] \<Longrightarrow>
     sqpoll_app fence s
       (s\<lparr>q_pc := (if Submitter_sq_need_wakeup (q_sub s) (q_mem s) then Must_wake else At_rest)\<rparr>)"
| app_wake: "q_pc s = Must_wake \<Longrightarrow> q_buf s = [] \<Longrightarrow>
     sqpoll_app fence s
       (if q_poller s = Poller_asleep
        then s\<lparr>q_pc := At_rest, q_poller := Poller_runs,
               q_mem := (q_mem s)\<lparr>m_sq_flags := m_sq_flags (q_mem s) AND NOT IORING_SQ_NEED_WAKEUP\<rparr>\<rparr>
        else s\<lparr>q_pc := At_rest\<rparr>)"

text \<open>
  What happens without the application: the oldest buffered store becomes visible; the running
  thread takes published entries; finding none it sets the flag; then, still finding none, it
  sleeps, or else it clears the flag and runs on.
\<close>

inductive sqpoll_env :: "sqpoll_sys \<Rightarrow> sqpoll_sys \<Rightarrow> bool" where
  env_drain: "q_buf s = t # ts \<Longrightarrow>
     sqpoll_env s (s\<lparr>q_mem := (q_mem s)\<lparr>m_sq_tail := t\<rparr>, q_buf := ts\<rparr>)"
| env_take: "q_poller s = Poller_runs \<Longrightarrow> kernel_takes (q_mem s) m \<Longrightarrow> m_sq_flags m = m_sq_flags (q_mem s) \<Longrightarrow>
     sqpoll_env s (s\<lparr>q_mem := m\<rparr>)"
| env_flag: "q_poller s = Poller_runs \<Longrightarrow> m_sq_head (q_mem s) = m_sq_tail (q_mem s) \<Longrightarrow>
     sqpoll_env s (s\<lparr>q_poller := Poller_flagged,
       q_mem := (q_mem s)\<lparr>m_sq_flags := m_sq_flags (q_mem s) OR IORING_SQ_NEED_WAKEUP\<rparr>\<rparr>)"
| env_sleep: "q_poller s = Poller_flagged \<Longrightarrow> m_sq_head (q_mem s) = m_sq_tail (q_mem s) \<Longrightarrow>
     sqpoll_env s (s\<lparr>q_poller := Poller_asleep\<rparr>)"
| env_resume: "q_poller s = Poller_flagged \<Longrightarrow> m_sq_head (q_mem s) \<noteq> m_sq_tail (q_mem s) \<Longrightarrow>
     sqpoll_env s (s\<lparr>q_poller := Poller_runs,
       q_mem := (q_mem s)\<lparr>m_sq_flags := m_sq_flags (q_mem s) AND NOT IORING_SQ_NEED_WAKEUP\<rparr>\<rparr>)"

inductive_cases sqpoll_envE: "sqpoll_env s s'"

inductive sqpoll_reach :: "bool \<Rightarrow> sqpoll_sys \<Rightarrow> sqpoll_sys \<Rightarrow> bool" for fence where
  sqpoll_refl: "sqpoll_reach fence s s"
| sqpoll_by_app: "sqpoll_reach fence s s' \<Longrightarrow> sqpoll_app fence s' s'' \<Longrightarrow> sqpoll_reach fence s s''"
| sqpoll_by_env: "sqpoll_reach fence s s' \<Longrightarrow> sqpoll_env s' s'' \<Longrightarrow> sqpoll_reach fence s s''"

definition sqpoll_start :: "Submitter \<Rightarrow> shm \<Rightarrow> sqpoll_sys" where
  "sqpoll_start sub m =
     \<lparr>q_sub = sub, q_mem = m, q_buf = [], q_pc = At_rest, q_poller = Poller_runs\<rparr>"

text \<open>Without the buffer the steps are the operation: with nothing in between they give its result.\<close>

lemma submit_sqpoll_steps:
  assumes "Submitter_submit_sqpoll enter sub (k, m) = (res, sub', k', m')"
  shows "sub' = sub\<lparr>s_sq_submitted := s_sq_tail_local sub\<rparr>"
    and "\<not> Submitter_sq_need_wakeup sub m \<Longrightarrow> res = Ok () \<and> k' = k \<and>
      sqpoll_reach True (sqpoll_start sub m) (sqpoll_start sub' m')"
proof -
  show s: "sub' = sub\<lparr>s_sq_submitted := s_sq_tail_local sub\<rparr>"
    using assms by (auto simp: Submitter_submit_sqpoll_def Let_def split: if_splits prod.splits result.splits)
  assume no: "\<not> Submitter_sq_need_wakeup sub m"
  define m1 where "m1 = Submitter_flush_sq_tail sub m"
  define s1 where "s1 = (sqpoll_start sub m)\<lparr>q_buf := [s_sq_tail_local sub], q_sub := sub', q_pc := Tail_stored\<rparr>"
  define s2 where "s2 = s1\<lparr>q_mem := m1, q_buf := []\<rparr>"
  have no1: "\<not> Submitter_sq_need_wakeup sub' m1"
    using no by (simp add: Submitter_sq_need_wakeup_def m1_def)
  then have r: "res = Ok () \<and> k' = k \<and> m' = m1"
    using assms by (auto simp: Submitter_submit_sqpoll_def Submitter_sq_need_wakeup_def Let_def m1_def split: if_splits)
  have "sqpoll_app True (sqpoll_start sub m) s1"
    using app_store [of "sqpoll_start sub m" True] by (simp add: s1_def sqpoll_start_def s)
  moreover have "sqpoll_env s1 s2"
    using env_drain [of s1] by (simp add: s2_def s1_def sqpoll_start_def m1_def)
  moreover have "sqpoll_app True s2 (s2\<lparr>q_pc := At_rest\<rparr>)"
    using app_check [of s2 True] no1 by (simp add: s2_def s1_def)
  ultimately have "sqpoll_reach True (sqpoll_start sub m) (s2\<lparr>q_pc := At_rest\<rparr>)"
    by (meson sqpoll_refl sqpoll_by_app sqpoll_by_env)
  then show "res = Ok () \<and> k' = k \<and> sqpoll_reach True (sqpoll_start sub m) (sqpoll_start sub' m')"
    using r by (simp add: s2_def s1_def sqpoll_start_def)
qed

section \<open>With a fence no wakeup is lost\<close>

definition sqpoll_inv :: "sqpoll_sys \<Rightarrow> bool" where
  "sqpoll_inv s \<longleftrightarrow> (q_pc s \<noteq> Tail_stored \<longrightarrow> q_buf s = []) \<and>
     (Submitter_sq_need_wakeup (q_sub s) (q_mem s) \<longleftrightarrow> q_poller s \<noteq> Poller_runs) \<and>
     (q_poller s = Poller_asleep \<and> m_sq_head (q_mem s) \<noteq> m_sq_tail (q_mem s) \<longrightarrow> q_pc s \<noteq> At_rest)"

lemma wakeup_flag:
  "IORING_SQ_NEED_WAKEUP \<noteq> 0"
  "(f AND NOT IORING_SQ_NEED_WAKEUP) AND IORING_SQ_NEED_WAKEUP = 0"
  by (simp_all add: IORING_SQ_NEED_WAKEUP_def and.assoc)

lemma sqpoll_inv_app: "sqpoll_app True s s' \<Longrightarrow> sqpoll_inv s \<Longrightarrow> sqpoll_inv s'"
proof (induction rule: sqpoll_app.induct)
  case (app_push s sqe r sub m)
  then show ?case
    using Submitter_push_frame [of sqe "q_sub s" "q_mem s" r sub m]
    by (auto simp: sqpoll_inv_def Submitter_sq_need_wakeup_def)
qed (auto simp: sqpoll_inv_def Submitter_sq_need_wakeup_def wakeup_flag)

lemma sqpoll_inv_env: "sqpoll_env s s' \<Longrightarrow> sqpoll_inv s \<Longrightarrow> sqpoll_inv s'"
  by (induction rule: sqpoll_env.induct)
    (auto simp: sqpoll_inv_def Submitter_sq_need_wakeup_def wakeup_flag)

lemma fenced_wakeup_not_lost:
  assumes "sqpoll_reach True (sqpoll_start sub m) s" "m_sq_flags m AND IORING_SQ_NEED_WAKEUP = 0"
    and "q_pc s = At_rest" "q_poller s = Poller_asleep"
  shows "q_buf s = [] \<and> m_sq_head (q_mem s) = m_sq_tail (q_mem s)"
proof -
  have "s0 = sqpoll_start sub m \<Longrightarrow> sqpoll_inv s" if "sqpoll_reach True s0 s" for s0 s
    using that
  proof (induction rule: sqpoll_reach.induct)
    case (sqpoll_refl s)
    then show ?case
      using assms(2) by (simp add: sqpoll_start_def sqpoll_inv_def Submitter_sq_need_wakeup_def)
  qed (auto intro: sqpoll_inv_app sqpoll_inv_env)
  then have "sqpoll_inv s" using assms(1) by blast
  then show ?thesis using assms(3,4) by (auto simp: sqpoll_inv_def)
qed

section \<open>Properties\<close>

text \<open>C14. As written, a wakeup can be lost. On a ring with a polling thread the following is
  reachable: \<open>submit_sqpoll\<close> has returned without a system call, the entry it was called for is
  queued, published, visible and counted as submitted, the polling thread is asleep, and
  neither the memory system nor the kernel has a step left, so the entry stays where it is
  until the application happens to call again. The tail was still in the store buffer when
  the flags were loaded; only a full fence between the two accesses excludes it.\<close>

theorem sqpoll_wakeup_lost:
  "\<exists>s. sqpoll_reach False
       (sqpoll_start (submitter_half ex_ring) (ex_shm\<lparr>m_sq_head := 1, m_sq_tail := 1\<rparr>)) s \<and>
     q_pc s = At_rest \<and> q_buf s = [] \<and> sub_inv (q_sub s, q_mem s) \<and>
     sub_queued (q_sub s, q_mem s) = [ex_sqe 9] \<and>
     m_sq_tail (q_mem s) = s_sq_tail_local (q_sub s) \<and> s_sq_submitted (q_sub s) = s_sq_tail_local (q_sub s) \<and>
     q_poller s = Poller_asleep \<and> (\<forall>s'. \<not> sqpoll_env s s')"
proof -
  define s0 where "s0 = sqpoll_start (submitter_half ex_ring) (ex_shm\<lparr>m_sq_head := 1, m_sq_tail := 1\<rparr>)"
  define s1 where "s1 = s0\<lparr>q_sub := (q_sub s0)\<lparr>s_sq_tail_local := 2\<rparr>,
    q_mem := (q_mem s0)\<lparr>m_sqes := [ex_sqe 8, ex_sqe 9]\<rparr>\<rparr>"
  define s2 where "s2 = s1\<lparr>q_buf := [2], q_sub := (q_sub s1)\<lparr>s_sq_submitted := 2\<rparr>, q_pc := Tail_stored\<rparr>"
  define s3 where "s3 = s2\<lparr>q_pc := At_rest\<rparr>"
  define s4 where "s4 = s3\<lparr>q_poller := Poller_flagged, q_mem := (q_mem s3)\<lparr>m_sq_flags := 1\<rparr>\<rparr>"
  define s5 where "s5 = s4\<lparr>q_poller := Poller_asleep\<rparr>"
  define s6 where "s6 = s5\<lparr>q_mem := (q_mem s5)\<lparr>m_sq_tail := 2\<rparr>, q_buf := []\<rparr>"
  note ds = s0_def s1_def s2_def s3_def s4_def s5_def s6_def sqpoll_start_def submitter_half_def
    ex_ring_def ex_shm_def IORING_SQ_NEED_WAKEUP_def
  have "sqpoll_app False s0 s1"
    using app_push [of s0 "ex_sqe 9" "Ok ()" "q_sub s1" "q_mem s1" False]
    by (simp add: ds Submitter_push_def)
  moreover have "sqpoll_app False s1 s2" using app_store [of s1 False] by (simp add: ds)
  moreover have "sqpoll_app False s2 s3"
    using app_check [of s2 False] by (simp add: ds Submitter_sq_need_wakeup_def)
  moreover have "sqpoll_env s3 s4" using env_flag [of s3] by (simp add: ds)
  moreover have "sqpoll_env s4 s5" using env_sleep [of s4] by (simp add: ds)
  moreover have "sqpoll_env s5 s6" using env_drain [of s5] by (simp add: ds)
  ultimately have "sqpoll_reach False s0 s6" by (meson sqpoll_refl sqpoll_by_app sqpoll_by_env)
  moreover have "sub_inv (q_sub s6, q_mem s6)"
    by (auto simp: ds sub_inv_def sq_wf_def intro!: exI [of _ 1] pow2_mask_1)
  moreover have "sub_queued (q_sub s6, q_mem s6) = [ex_sqe 9]"
    by (simp add: ds sub_queued_def sq_window_def ring_window_Suc)
  moreover have "\<not> sqpoll_env s6 s'" for s' by (auto simp: ds elim!: sqpoll_envE)
  ultimately show ?thesis unfolding s0_def by (intro exI [of _ s6]) (simp add: ds)
qed

end
