(* ===== verification/Run_One.thy ===== *)
theory Run_One
  imports Ring
begin

text \<open>
  The synchronous helpers of \<open>src/ring/ops.rs\<close>. \<open>run_one\<close> pushes one tagged entry, waits,
  and drains completions until the tagged one arrives. The draining loop has no bound in
  the source, so it is a partial function into \<open>option\<close>: \<open>None\<close> means that it never
  returns. The lemmas show that it does return once the kernel has posted the tagged
  completion, what it returns, and that it never returns the result of another request.
\<close>

section \<open>Tags\<close>

definition DO_TAG_MARKER :: u64 where "DO_TAG_MARKER = push_bit 63 1"

definition next_do_tag :: "IoUring \<Rightarrow> u64 \<times> IoUring" where
  "next_do_tag r =
    (let tag = r_do_tag_next r
     in (tag, r\<lparr>r_do_tag_next := DO_TAG_MARKER OR ((tag + 1) AND NOT DO_TAG_MARKER)\<rparr>))"

section \<open>Submitting one entry and waiting for it\<close>

partial_function (option) run_one_loop ::
  "'k enter_fn \<Rightarrow> u64 \<Rightarrow> u64 option \<Rightarrow> IoUring \<Rightarrow> 'k \<times> shm \<Rightarrow>
   ((u32, Error) result \<times> IoUring \<times> 'k \<times> shm) option" where
  "run_one_loop enter tag stray r w =
    (case IoUring_complete r (snd w) of
       None \<Rightarrow> Some (Err (Completion_error NoCompletion), r, w)
     | Some (completion, r) \<Rightarrow>
         if user_data completion = tag then
           Some (case stray of
                   None \<Rightarrow> into_result completion
                 | Some fnd \<Rightarrow> Err (Completion_error (UnexpectedCompletion tag fnd)), r, w)
         else
           (case IoUring_submit_and_wait enter 1 r w of
              (Err e, r, w) \<Rightarrow> Some (Err e, r, w)
            | (Ok _, r, w) \<Rightarrow>
                run_one_loop enter tag
                  (case stray of None \<Rightarrow> Some (user_data completion) | Some s \<Rightarrow> Some s) r w))"

definition run_one ::
  "'k enter_fn \<Rightarrow> IoUringSqe \<Rightarrow> IoUring \<Rightarrow> 'k \<times> shm \<Rightarrow>
   ((u32, Error) result \<times> IoUring \<times> 'k \<times> shm) option" where
  "run_one enter sqe r w =
    (case next_do_tag r of (tag, r) \<Rightarrow>
      (case IoUring_push (Sqe_user_data tag sqe) r (snd w) of
         (Err e, r, m) \<Rightarrow> Some (Err e, r, fst w, m)
       | (Ok _, r, m) \<Rightarrow>
           (case IoUring_submit_and_wait enter 1 r (fst w, m) of
              (Err e, r, w) \<Rightarrow> Some (Err e, r, w)
            | (Ok _, r, w) \<Rightarrow> run_one_loop enter tag None r w)))"

definition do_read where
  "do_read enter fd buf offset r w = run_one enter (Sqe_read fd buf offset) r w"

definition do_write where
  "do_write enter fd buf offset r w = run_one enter (Sqe_write fd buf offset) r w"

definition do_openat where
  "do_openat enter dfd path flags mode r w = run_one enter (Sqe_openat dfd path flags mode) r w"

definition do_close where
  "do_close enter fd r w = run_one enter (Sqe_close fd) r w"

definition do_send where
  "do_send enter fd buf flags r w = run_one enter (Sqe_send fd buf flags) r w"

definition do_recv where
  "do_recv enter fd buf flags r w = run_one enter (Sqe_recv fd buf flags) r w"

definition do_accept where
  "do_accept enter fd flags r w = run_one enter (Sqe_accept fd flags) r w"

definition do_statx where
  "do_statx enter dfd path flags m statx_buf r w =
     run_one enter (Sqe_statx dfd path flags m statx_buf) r w"

definition do_fsync where
  "do_fsync enter fd flags r w = run_one enter (Sqe_fsync fd flags) r w"

section \<open>Lemmas on tags\<close>

lemma bit_marker: "bit DO_TAG_MARKER n \<longleftrightarrow> n = 63"
  unfolding DO_TAG_MARKER_def bit_push_bit_iff bit_1_iff by auto

lemma mod_step: "(N + x mod N + 1) mod N = (x + 1) mod (N :: nat)"
proof -
  have "(N + x mod N + 1) mod N = (x mod N + 1) mod N"
    by (simp only: add.assoc mod_add_self1)
  then show ?thesis by (simp only: mod_add_left_eq)
qed

lemma and_not_marker: "(x AND NOT DO_TAG_MARKER) = take_bit 63 (x :: u64)"
proof (rule bit_word_eqI)
  fix n assume "n < LENGTH(64)"
  then show "bit (x AND NOT DO_TAG_MARKER) n = bit (take_bit 63 x) n"
    by (auto simp: bit_marker bit_and_iff bit_not_iff bit_take_bit_iff)
qed

lemma marker_value: "unat DO_TAG_MARKER = 2 ^ 63"
  by (simp add: DO_TAG_MARKER_def)

lemma marker_or: "unat (DO_TAG_MARKER OR take_bit 63 (x :: u64)) = 2 ^ 63 + unat x mod 2 ^ 63"
proof -
  have "DO_TAG_MARKER AND take_bit 63 x = 0"
    by (rule bit_word_eqI) (auto simp: bit_marker bit_and_iff bit_take_bit_iff)
  then have "DO_TAG_MARKER OR take_bit 63 x = DO_TAG_MARKER + take_bit 63 x"
    by (simp add: disjunctive_add_eq_or)
  moreover have "unat (take_bit 63 x) = unat x mod 2 ^ 63" by (rule unat_take_bit_mod)
  moreover have "unat x mod 2 ^ 63 < 2 ^ 63" by simp
  ultimately show ?thesis
    by (simp only: unat_word_ariths marker_value) simp
qed

definition do_tag_wf :: "IoUring \<Rightarrow> bool" where
  "do_tag_wf r \<longleftrightarrow> r_do_tag_next r AND DO_TAG_MARKER \<noteq> 0"

text \<open>\<open>nth_do_tag r n\<close>: the tag of the \<open>n\<close>-th synchronous submission from \<open>r\<close> on.\<close>

definition nth_do_tag :: "IoUring \<Rightarrow> nat \<Rightarrow> u64" where
  "nth_do_tag r n = fst (next_do_tag (((\<lambda>r. snd (next_do_tag r)) ^^ n) r))"

lemma next_do_tag_step:
  "unat (r_do_tag_next (snd (next_do_tag r))) = 2 ^ 63 + (unat (r_do_tag_next r) + 1) mod 2 ^ 63"
proof -
  have "unat (r_do_tag_next r + 1) mod 2 ^ 63 = (unat (r_do_tag_next r) + 1) mod 2 ^ 63"
    using unat_add_of_nat_mod [of 63 "r_do_tag_next r" 1] by simp
  then show ?thesis by (simp add: next_do_tag_def Let_def and_not_marker marker_or)
qed

lemma nth_do_tag_unat:
  assumes "unat (r_do_tag_next r) = 2 ^ 63 + j" "j < 2 ^ 63"
  shows "unat (nth_do_tag r n) = 2 ^ 63 + (j + n) mod 2 ^ 63"
proof -
  have "unat (r_do_tag_next (((\<lambda>r. snd (next_do_tag r)) ^^ n) r)) = 2 ^ 63 + (j + n) mod 2 ^ 63"
  proof (induction n)
    case (Suc n)
    have "(2 ^ 63 + (j + n) mod 2 ^ 63 + 1) mod 2 ^ 63 = (j + n + 1) mod (2 ^ 63 :: nat)"
      by (rule mod_step)
    then show ?case by (simp only: funpow.simps comp_def next_do_tag_step Suc) simp
  qed (use assms in simp)
  then show ?thesis by (simp add: nth_do_tag_def next_do_tag_def Let_def)
qed

lemma marker_set_iff: "(x AND DO_TAG_MARKER \<noteq> 0) \<longleftrightarrow> 2 ^ 63 \<le> unat x"
proof -
  have m: "x AND DO_TAG_MARKER = (if bit x 63 then DO_TAG_MARKER else 0)"
    by (rule bit_word_eqI) (auto simp: bit_and_iff bit_marker)
  have "DO_TAG_MARKER \<noteq> 0" by (simp add: DO_TAG_MARKER_def)
  with m have "(x AND DO_TAG_MARKER \<noteq> 0) \<longleftrightarrow> bit x 63" by simp
  also have "\<dots> \<longleftrightarrow> odd (unat x div 2 ^ 63)" 
    using bit_unsigned_iff [of x 63, where 'a = nat] by (simp add: bit_iff_odd [of "unat x"])
  also have "\<dots> \<longleftrightarrow> 2 ^ 63 \<le> unat x"
  proof -
    have "unat x < 2 * 2 ^ 63" using unsigned_less [of x, where 'a = nat] by simp
    then have "unat x div 2 ^ 63 < 2" by (simp only: less_mult_imp_div_less)
    then have "odd (unat x div 2 ^ 63) \<longleftrightarrow> 0 < unat x div 2 ^ 63" by (auto simp: less_2_cases_iff)
    then show ?thesis by (simp only: div_greater_zero_iff) simp
  qed
  finally show ?thesis .
qed

lemma upper_half_iff: "n < N + N \<Longrightarrow> N \<le> n \<longleftrightarrow> (\<exists>j < N. n = N + j)" for n N :: nat
  by (auto intro!: exI [of _ "n - N"])

lemma do_tag_wf_iff: "do_tag_wf r \<longleftrightarrow> (\<exists>j < 2 ^ 63. unat (r_do_tag_next r) = 2 ^ 63 + j)"
proof -
  have "unat (r_do_tag_next r) < 2 ^ 63 + 2 ^ 63"
    using unsigned_less [of "r_do_tag_next r", where 'a = nat] by simp
  then have "2 ^ 63 \<le> unat (r_do_tag_next r) \<longleftrightarrow> (\<exists>j < 2 ^ 63. unat (r_do_tag_next r) = 2 ^ 63 + j)"
    by (rule upper_half_iff)
  then show ?thesis by (simp only: do_tag_wf_def marker_set_iff)
qed

section \<open>Lemmas on the loop\<close>

text \<open>\<open>own_or_stray tag stray c\<close>: what the loop returns when it reaps its own completion \<open>c\<close>.\<close>

definition own_or_stray :: "u64 \<Rightarrow> u64 option \<Rightarrow> Completion \<Rightarrow> (u32, Error) result" where
  "own_or_stray tag stray c =
     (case stray of None \<Rightarrow> into_result c
      | Some fnd \<Rightarrow> Err (Completion_error (UnexpectedCompletion tag fnd)))"

definition first_stray :: "u64 option \<Rightarrow> Completion list \<Rightarrow> u64 option" where
  "first_stray stray cs =
     (case stray of Some s \<Rightarrow> Some s
      | None \<Rightarrow> (case cs of [] \<Rightarrow> None | c # _ \<Rightarrow> Some (user_data c)))"

text \<open>\<open>kernel_succeeds\<close>: no \<open>io_uring_enter\<close> of this run fails.\<close>

definition kernel_succeeds :: "'k enter_fn \<Rightarrow> bool" where
  "kernel_succeeds enter \<longleftrightarrow> (\<forall>fd n c f k m. is_ok (check (fst (enter fd n c f (k, m)))))"

lemma submit_and_wait_succeeds:
  assumes "kernel_succeeds enter"
  shows "\<exists>n r' k' m'. IoUring_submit_and_wait enter c r (k, m) = (Ok n, r', k', m')"
proof -
  have "\<exists>v w'. io_uring_enter enter fd n c f w = (Ok v, w')" for fd n c f w
    using assms by (cases w; cases "enter fd n c f w")
      (auto simp: kernel_succeeds_def io_uring_enter_def is_ok_iff, metis fst_conv)
  then have ok: "\<exists>v k' m'. io_uring_enter enter fd n c f w = (Ok v, k', m')" for fd n c f w
    by (metis prod.collapse)
  obtain v1 k1 m1 where 1: "io_uring_enter enter (r_fd r) (r_sq_tail_local r - r_sq_submitted r) c
      ENTER_GETEVENTS (k, IoUring_flush_sq_tail r (IoUring_flush_cq_head r m)) = (Ok v1, k1, m1)"
    using ok by metis
  obtain v2 k2 m2 where 2: "io_uring_enter enter (r_fd r) (r_sq_tail_local r - r_sq_submitted r) 0
      flags_empty (k, IoUring_flush_sq_tail r (IoUring_flush_cq_head r m)) = (Ok v2, k2, m2)"
    using ok by metis
  obtain v3 k3 m3 where 3: "io_uring_enter enter (r_fd r) 0 c ENTER_GETEVENTS (k2, m2) = (Ok v3, k3, m3)"
    using ok by metis
  show ?thesis using 1 2 3 by (simp add: IoUring_submit_and_wait_def Let_def)
qed

lemma run_one_loop_own:
  assumes "ring_inv (r, m)" "ring_pending (r, m) = c # rest" "user_data c = tag"
  shows "\<exists>r'. run_one_loop enter tag stray r (k, m) = Some (own_or_stray tag stray c, r', k, m) \<and>
    ring_inv (r', m) \<and> ring_pending (r', m) = rest"
proof -
  obtain r' where "IoUring_complete r m = Some (c, r')" "ring_inv (r', m)" "ring_pending (r', m) = rest"
    using ring_cq.pop_Cons [OF assms(1,2)] by (auto simp: ring_pop_def)
  then show ?thesis
    using assms(3) by (simp add: run_one_loop.simps own_or_stray_def split: option.splits)
qed

lemma run_one_loop_returns:
  assumes kernel: "kernel_moves (r_cq_mask r) enter" "kernel_counts enter" "kernel_succeeds enter"
    and "ring_inv (r, m)" "ring_synced (r, m)"
    and "ring_pending (r, m) = strays @ c # rest"
    and "\<forall>s\<in>set strays. user_data s \<noteq> tag" "user_data c = tag"
  shows "\<exists>r' k' m' new. run_one_loop enter tag stray r (k, m) =
       Some (own_or_stray tag (first_stray stray strays) c, r', k', m') \<and>
     ring_inv (r', m') \<and> ring_pending (r', m') = rest @ new"
  using assms(1,4-7)
proof (induction strays arbitrary: r m k stray rest)
  case Nil
  have "first_stray stray [] = stray" by (simp add: first_stray_def split: option.splits)
  then show ?case using run_one_loop_own [of r m c rest tag enter stray k] Nil assms(8) by fastforce
next
  case (Cons s strays)
  obtain r1 where r1: "IoUring_complete r m = Some (s, r1)"
    using ring_cq.pop_Cons [OF Cons.prems(2)] Cons.prems(4) by (auto simp: ring_pop_def)
  note c1 = IoUring_complete_cases(2) [OF Cons.prems(2) r1]
  have r1': "ring_inv (r1, m)" "ring_synced (r1, m)" "kernel_moves (r_cq_mask r1) enter"
    using c1 Cons.prems(1,3) by (auto simp: ring_synced_def)
  obtain n r2 k2 m2 where w: "IoUring_submit_and_wait enter 1 r1 (k, m) = (Ok n, r2, k2, m2)"
    using submit_and_wait_succeeds [OF kernel(3)] by blast
  obtain j where adv: "ring_advanced (r1, m) j (r2, m2)"
    using submit_and_wait_advances [OF r1' kernel(2) w] by blast
  have "ring_pending (r1, m) = strays @ c # rest" using c1 Cons.prems(4) by simp
  with adv obtain new where pend: "ring_pending (r2, m2) = strays @ c # rest @ new"
    by (fastforce simp: ring_advanced_def)
  have "ring_inv (r2, m2)" "ring_synced (r2, m2)" "kernel_moves (r_cq_mask r2) enter"
    using adv r1'(3) by (auto simp: ring_advanced_def)
  from Cons.IH [OF this(3,1,2) pend, of "first_stray stray [s]" k2] Cons.prems(5)
  obtain r' k' m' new' where "run_one_loop enter tag (first_stray stray [s]) r2 (k2, m2) =
       Some (own_or_stray tag (first_stray (first_stray stray [s]) strays) c, r', k', m')"
    "ring_inv (r', m')" "ring_pending (r', m') = (rest @ new) @ new'" by auto
  moreover have "first_stray (first_stray stray [s]) strays = first_stray stray (s # strays)"
    and "first_stray stray [s] = (case stray of None \<Rightarrow> Some (user_data s) | Some s \<Rightarrow> Some s)"
    by (simp_all add: first_stray_def split: option.splits)
  ultimately show ?case
    using r1 w Cons.prems(5) by (simp add: run_one_loop.simps [of enter tag stray r])
qed

text \<open>Every way the loop can return, whatever the kernel does.\<close>

definition reaped_own :: "u64 \<Rightarrow> (u32, Error) result \<Rightarrow> IoUring \<Rightarrow> shm \<Rightarrow> bool" where
  "reaped_own tag res r' m' \<longleftrightarrow>
     (\<exists>c r''. IoUring_complete r'' m' = Some (c, r') \<and> user_data c = tag \<and>
        (res = into_result c \<or>
         (\<exists>fnd. fnd \<noteq> tag \<and> res = Err (Completion_error (UnexpectedCompletion tag fnd)))))"

lemma submit_and_wait_error:
  "IoUring_submit_and_wait enter c r w = (Err e, r', w') \<Longrightarrow> \<exists>errno. e = Syscall errno"
  by (auto simp: IoUring_submit_and_wait_def Let_def split: if_splits prod.splits result.splits)

lemma run_one_loop_outcomes:
  assumes "run_one_loop enter tag stray r w = Some y"
  shows "stray \<noteq> Some tag \<longrightarrow>
    (case y of (res, r', w') \<Rightarrow> reaped_own tag res r' (snd w') \<or>
      res = Err (Completion_error NoCompletion) \<or> (\<exists>e. res = Err (Syscall e)))"
  using assms
proof (induction enter tag stray r w y
    rule: run_one_loop.raw_induct [rotated, consumes 1, case_names step])
  case (step rec enter tag stray r w y)
  show ?case
  proof (cases "IoUring_complete r (snd w)")
    case None
    then show ?thesis using step(2) by auto
  next
    case (Some cr)
    obtain c r1 where cr: "cr = (c, r1)" by fastforce
    show ?thesis
    proof (cases "user_data c = tag")
      case True
      then show ?thesis using step(2) Some cr
        by (cases stray) (auto simp: reaped_own_def)
    next
      case False
      obtain q r2 w2 where sw: "IoUring_submit_and_wait enter 1 r1 w = (q, r2, w2)"
        by (metis prod_cases3)
      show ?thesis
      proof (cases q)
        case (Err e)
        then show ?thesis
          using step(2) Some cr False sw submit_and_wait_error [of enter 1 r1 w e r2 w2] by auto
      next
        case (Ok n)
        let ?stray = "case stray of None \<Rightarrow> Some (user_data c) | Some s \<Rightarrow> Some s"
        have "rec enter tag ?stray r2 w2 = Some y" using step(2) Some cr False sw Ok by simp
        from step(1) [OF this] show ?thesis using False by (auto split: option.splits)
      qed
    qed
  qed
qed

lemma push_has_room:
  assumes "ring_inv (r, m)" "IoUring_sq_space_left r m \<noteq> 0"
  shows "\<exists>r' m'. IoUring_push x r m = (Ok (), r', m') \<and> ring_queued (r', m') = ring_queued (r, m) @ [x]"
proof -
  have le: "length (ring_queued (r, m)) \<le> unat (r_sq_mask r + 1)"
    using ring_sq.bounded [OF assms(1)] by simp
  have "length (ring_queued (r, m)) \<noteq> unat (r_sq_mask r + 1)"
  proof
    assume "length (ring_queued (r, m)) = unat (r_sq_mask r + 1)"
    then have "r_sq_tail_local r - m_sq_head m = r_sq_mask r + 1"
      by (intro word_unat_eq_iff [THEN iffD2]) (simp add: ring_queued_def)
    then show False
      using assms(2) by (simp add: IoUring_sq_space_left_def IoUring_sq_capacity_def)
  qed
  then show ?thesis using IoUring_push_room [OF assms(1), of x] le by fastforce
qed

lemma push_ok_synced:
  assumes "ring_inv (r, m)" "ring_synced (r, m)" "IoUring_push x r m = (Ok u, r', m')"
  shows "ring_inv (r', m')" "ring_synced (r', m')" "r_cq_mask r' = r_cq_mask r"
proof -
  have room: "length (ring_queued (r, m)) < unat (r_sq_mask r + 1)"
    using ring_sq.bounded [OF assms(1)] IoUring_push_full [OF assms(1), of x] assms(3)
    by (auto simp: le_less)
  have "r' = r\<lparr>r_sq_tail_local := r_sq_tail_local r + 1\<rparr>" "ring_inv (r', m')"
    "m_sq_head m' = m_sq_head m"
    using IoUring_push_room [OF assms(1) room, of x] assms(3) by auto
  then show "ring_inv (r', m')" "ring_synced (r', m')" "r_cq_mask r' = r_cq_mask r"
    using assms(2) by (auto simp: ring_synced_def)
qed

lemma submit_and_wait_refused:
  assumes "ring_inv (r, m)" "ring_synced (r, m)" "kernel_moves (r_cq_mask r) enter"
    and "kernel_counts enter" "\<forall>fd n c f k m. check (fst (enter fd n c f (k, m))) = Err e"
    and wait: "IoUring_submit_and_wait enter c r (k, m) = (res, r', k', m')"
  shows "res = Err (Syscall e)" "ring_queued (r', m') = ring_queued (r, m)"
proof -
  have refuse: "\<exists>k' m'. io_uring_enter enter fd n c f (k, m) = (Err e, k', m')" for fd n c f k m
    using assms(5) by (cases "enter fd n c f (k, m)")
      (auto simp: io_uring_enter_def, metis fst_conv)
  let ?m = "IoUring_flush_sq_tail r (IoUring_flush_cq_head r m)"
  obtain k1 m1 where 1: "io_uring_enter enter (r_fd r) (r_sq_tail_local r - r_sq_submitted r) c
      ENTER_GETEVENTS (k, ?m) = (Err e, k1, m1)" using refuse by metis
  obtain k2 m2 where 2: "io_uring_enter enter (r_fd r) (r_sq_tail_local r - r_sq_submitted r) 0
      flags_empty (k, ?m) = (Err e, k2, m2)" using refuse by metis
  show "res = Err (Syscall e)" using wait 1 2
    by (auto simp: IoUring_submit_and_wait_def Let_def split: if_splits)
  have r': "r' = r" using wait 1 2
    by (auto simp: IoUring_submit_and_wait_def Let_def split: if_splits)
  have head: "m_sq_head m' = m_sq_head m"
    using wait 1 2 enter_counted [OF assms(4) 1] enter_counted [OF assms(4) 2]
    by (auto simp: IoUring_submit_and_wait_def Let_def split: if_splits)
  obtain j where j: "ring_queued (r', m') = drop j (ring_queued (r, m))"
    "j \<le> length (ring_queued (r, m))"
    using submit_and_wait_advances [OF assms(1-4) wait] by (auto simp: ring_advanced_def)
  have "length (ring_queued (r', m')) = length (ring_queued (r, m))"
    by (simp add: ring_queued_def r' head)
  with j have "j = 0" by simp
  with j(1) show "ring_queued (r', m') = ring_queued (r, m)" by simp
qed

section \<open>Concrete kernels\<close>

text \<open>
  For the witnesses: \<open>ex_echo\<close> takes one entry per call and completes it at once with
  result 0, \<open>ex_fail\<close> rejects every call with \<open>EAGAIN\<close>, both next to an empty two-slot
  ring whose indices are about to wrap.
\<close>

definition ex_echo :: "unit enter_fn" where
  "ex_echo fd n c f w =
     (let m = snd w
      in if n = 0 \<or> m_sq_head m = m_sq_tail m \<or> \<not> unat (m_cq_tail m - m_cq_head m) < 2
         then (0, (), m)
         else (1, (), m\<lparr>m_sq_head := m_sq_head m + 1, m_cq_tail := m_cq_tail m + 1,
                m_cqes := (m_cqes m)[unat (m_cq_tail m AND 1) :=
                  ex_cqe (sqe_user_data (m_sqes m ! unat (m_sq_head m AND 1))) 0]\<rparr>))"

definition ex_fail :: "unit enter_fn" where
  "ex_fail fd n c f w = (- 11, (), snd w)"

definition ex_idle_ring :: IoUring where
  "ex_idle_ring = ex_ring\<lparr>r_sq_tail_local := 0xFFFFFFFF, r_cq_head_local := 0\<rparr>"

lemma ex_echo_moves [simp]: "kernel_moves 1 ex_echo"
proof -
  have "kernel_takes m (snd (snd (ex_echo fd n c f (k, m)))) \<and>
      kernel_posts 1 m (snd (snd (ex_echo fd n c f (k, m))))"
    if bound: "unat (m_cq_tail m - m_cq_head m) \<le> 2" for fd n c f k m
  proof (cases "n = 0 \<or> m_sq_head m = m_sq_tail m \<or> \<not> unat (m_cq_tail m - m_cq_head m) < 2")
    case True
    then show ?thesis using bound
      by (auto simp: ex_echo_def kernel_takes_def kernel_posts_def Let_def)
  next
    case False
    then have lt: "unat (m_cq_tail m - m_cq_head m) < 2 ^ 1" and sq: "m_sq_head m \<noteq> m_sq_tail m"
      by auto
    have "unat (m_cq_tail m + 1 - m_cq_head m) = Suc (unat (m_cq_tail m - m_cq_head m))"
      by (rule unat_tail_step [OF lt]) simp
    moreover have "ring_window ((m_cqes m)[unat (m_cq_tail m AND 1) := v]) 1 (m_cq_head m)
        (unat (m_cq_tail m - m_cq_head m))
      = ring_window (m_cqes m) 1 (m_cq_head m) (unat (m_cq_tail m - m_cq_head m))" for v
      using ring_window_update_past [OF pow2_mask_1 lt, of "m_cqes m" "m_cq_head m" v] by simp
    ultimately show ?thesis using False lt sq
      by (auto simp: ex_echo_def kernel_takes_def kernel_posts_def Let_def Suc_le_eq unat_gt_0)
  qed
  then show ?thesis by (auto simp: kernel_moves_def)
qed

lemma ex_echo_counts [simp]: "kernel_counts ex_echo" "kernel_succeeds ex_echo"
  by (auto simp: kernel_counts_def kernel_succeeds_def ex_echo_def check_def Let_def
      word_le_nat_alt Suc_le_eq unat_gt_0)

lemma ex_fail_kernel [simp]: "kernel_counts ex_fail"
  and ex_fail_moves [simp]: "kernel_moves cm ex_fail"
  by (auto simp: kernel_counts_def kernel_moves_def kernel_takes_def kernel_posts_def ex_fail_def
      check_def MAX_ERRNO_def)

lemma ex_idle_ring_inv [simp]: "ring_inv (ex_idle_ring, ex_shm)" "ring_synced (ex_idle_ring, ex_shm)"
  by (auto simp: ring_inv_def sq_wf_def cq_wf_def ring_synced_def ex_idle_ring_def ex_ring_def
      ex_shm_def intro!: exI [of _ 1] pow2_mask_1)

section \<open>Properties\<close>

text \<open>C4. A synchronous call never returns the outcome of another request. Whatever the kernel
  does, when \<open>run_one\<close> returns a value, a failure of the operation or an unexpected
  completion, the last completion it reaped carries the tag it minted for this call, and a
  returned value is that completion's result; otherwise the queue was full, the kernel
  call failed, or there was no completion at all.\<close>

theorem run_one_never_returns_other:
  assumes "run_one enter sqe r w = Some (res, r', w')"
  shows "reaped_own (r_do_tag_next r) res r' (snd w') \<or> res = Err (Submit QueueFull) \<or>
    res = Err (Completion_error NoCompletion) \<or> (\<exists>e. res = Err (Syscall e))"
proof -
  obtain p r1 m1 where p: "IoUring_push (Sqe_user_data (r_do_tag_next r) sqe)
      (r\<lparr>r_do_tag_next := DO_TAG_MARKER OR ((r_do_tag_next r + 1) AND NOT DO_TAG_MARKER)\<rparr>) (snd w)
      = (p, r1, m1)"
    by (metis prod_cases3)
  obtain q r2 w2 where q: "IoUring_submit_and_wait enter 1 r1 (fst w, m1) = (q, r2, w2)"
    by (metis prod_cases3)
  show ?thesis
  proof (cases p)
    case (Err e)
    then have "e = Submit QueueFull" using p by (auto simp: IoUring_push_def Let_def split: if_splits)
    then show ?thesis using assms p Err by (simp add: run_one_def next_do_tag_def Let_def)
  next
    case Ok1: (Ok u)
    show ?thesis
    proof (cases q)
      case (Err e)
      then show ?thesis using assms p Ok1 q submit_and_wait_error [of enter 1 r1 "(fst w, m1)" e r2 w2]
        by (auto simp: run_one_def next_do_tag_def Let_def)
    next
      case (Ok n)
      then have "run_one_loop enter (r_do_tag_next r) None r2 w2 = Some (res, r', w')"
        using assms p Ok1 q by (simp add: run_one_def next_do_tag_def Let_def)
      from run_one_loop_outcomes [OF this] show ?thesis by auto
    qed
  qed
qed

theorem run_one_never_returns_other_witness:
  "\<exists>r' w'. run_one ex_echo (ex_sqe 0) ex_idle_ring ((), ex_shm) = Some (Ok 0, r', w') \<and>
     reaped_own 0x8000000000000000 (Ok 0) r' (snd w')"
proof -
  have "\<exists>r' w'. run_one ex_echo (ex_sqe 0) ex_idle_ring ((), ex_shm) = Some (Ok 0, r', w')"
    by (simp add: run_one_def next_do_tag_def Let_def run_one_loop.simps IoUring_push_def
        IoUring_submit_and_wait_def io_uring_enter_def ex_echo_def ex_idle_ring_def ex_defs
        check_def IoUring_complete_def into_result_def DO_TAG_MARKER_def Sqe_user_data_def)
  then obtain r' w' where 1: "run_one ex_echo (ex_sqe 0) ex_idle_ring ((), ex_shm) = Some (Ok 0, r', w')"
    by blast
  have "r_do_tag_next ex_idle_ring = 0x8000000000000000" by (simp add: ex_idle_ring_def ex_ring_def)
  with run_one_never_returns_other [OF 1] 1 show ?thesis by auto
qed

text \<open>C5. A synchronous call returns once its own completion is there. If the entry fits the
  queue, the kernel calls succeed and, after the first wait, the pending completions are
  some strays followed by the one with this call's tag, then \<open>run_one\<close> returns: with that
  completion's own outcome when there was no stray, and otherwise, after draining every
  stray and its own completion, with an error naming this tag and the first stray's.\<close>

theorem run_one_returns:
  assumes "kernel_moves (r_cq_mask r) enter" "kernel_counts enter" "kernel_succeeds enter"
    and "ring_inv (r, m)" "ring_synced (r, m)"
    and "IoUring_push (Sqe_user_data (r_do_tag_next r) sqe) (snd (next_do_tag r)) m = (Ok (), r1, m1)"
    and "IoUring_submit_and_wait enter 1 r1 (k, m1) = (Ok n, r2, k2, m2)"
    and "ring_pending (r2, m2) = strays @ c # rest"
    and "\<forall>s\<in>set strays. user_data s \<noteq> r_do_tag_next r" "user_data c = r_do_tag_next r"
  shows "\<exists>r' k' m' new. run_one enter sqe r (k, m) =
      Some (case strays of
              [] \<Rightarrow> into_result c
            | s # _ \<Rightarrow> Err (Completion_error (UnexpectedCompletion (r_do_tag_next r) (user_data s))),
            r', k', m') \<and>
      ring_inv (r', m') \<and> ring_pending (r', m') = rest @ new"
proof -
  let ?tag = "r_do_tag_next r" and ?r0 = "snd (next_do_tag r)"
  have r0: "ring_inv (?r0, m)" "ring_synced (?r0, m)" "r_cq_mask ?r0 = r_cq_mask r"
    using assms(4,5) by (simp_all add: next_do_tag_def Let_def ring_inv_def ring_synced_def)
  have r1: "ring_inv (r1, m1)" "ring_synced (r1, m1)" "r_cq_mask r1 = r_cq_mask r"
    using push_ok_synced [OF r0(1,2) assms(6)] r0(3) by simp_all
  obtain j where adv: "ring_advanced (r1, m1) j (r2, m2)"
    using submit_and_wait_advances [OF r1(1,2) _ assms(2,7)] assms(1) r1(3) by auto
  then have r2: "ring_inv (r2, m2)" "ring_synced (r2, m2)" "r_cq_mask r2 = r_cq_mask r"
    using r1(3) by (auto simp: ring_advanced_def)
  have run: "run_one enter sqe r (k, m) = run_one_loop enter ?tag None r2 (k2, m2)"
    using assms(6,7) by (simp add: run_one_def next_do_tag_def Let_def)
  have own: "own_or_stray ?tag (first_stray None strays) c =
      (case strays of [] \<Rightarrow> into_result c
       | s # _ \<Rightarrow> Err (Completion_error (UnexpectedCompletion ?tag (user_data s))))"
    by (simp add: own_or_stray_def first_stray_def split: list.splits)
  show ?thesis
    using run_one_loop_returns [OF _ assms(2,3) r2(1,2) assms(8-10), of None k2] assms(1) r2(3)
    unfolding run own by simp
qed

text \<open>C13. An error of the kernel call leaves the entry behind. When the kernel refuses the
  submission, a synchronous call returns that error while its entry, with the tag and
  the address of the caller's borrowed buffer, is still queued and already published, so
  the next submission on this ring hands it to the kernel after the borrow has ended.\<close>

theorem run_one_error_leaves_entry_queued:
  assumes "ring_inv (r, m)" "ring_synced (r, m)" "IoUring_sq_space_left r m \<noteq> 0"
    and "kernel_moves (r_cq_mask r) enter" "kernel_counts enter"
    and "\<forall>fd n c f k m. check (fst (enter fd n c f (k, m))) = Err e"
  shows "\<exists>r' k' m'. run_one enter sqe r (k, m) = Some (Err (Syscall e), r', k', m') \<and>
    ring_queued (r', m') = ring_queued (r, m) @ [Sqe_user_data (r_do_tag_next r) sqe] \<and>
    m_sq_tail m' = r_sq_tail_local r'"
proof -
  let ?x = "Sqe_user_data (r_do_tag_next r) sqe" and ?r0 = "snd (next_do_tag r)"
  have r0: "ring_inv (?r0, m)" "ring_synced (?r0, m)" "r_cq_mask ?r0 = r_cq_mask r"
      "IoUring_sq_space_left ?r0 m \<noteq> 0" "ring_queued (?r0, m) = ring_queued (r, m)"
    using assms(1-3) by (simp_all add: next_do_tag_def Let_def ring_inv_def ring_synced_def
        IoUring_sq_space_left_def IoUring_sq_capacity_def ring_queued_def)
  obtain r1 m1 where push: "IoUring_push ?x ?r0 m = (Ok (), r1, m1)"
    and q1: "ring_queued (r1, m1) = ring_queued (r, m) @ [?x]"
    using push_has_room [OF r0(1,4), of ?x] r0(5) by auto
  have r1: "ring_inv (r1, m1)" "ring_synced (r1, m1)" "r_cq_mask r1 = r_cq_mask r"
    using push_ok_synced [OF r0(1,2) push] r0(3) by simp_all
  obtain res r2 k2 m2 where wait: "IoUring_submit_and_wait enter 1 r1 (k, m1) = (res, r2, k2, m2)"
    by (metis prod_cases4)
  have res: "res = Err (Syscall e)" and same: "ring_queued (r2, m2) = ring_queued (r1, m1)"
    using submit_and_wait_refused [OF r1(1,2) _ assms(5,6) wait] assms(4) r1(3) by simp_all
  have "run_one enter sqe r (k, m) = Some (Err (Syscall e), r2, k2, m2)"
    using push wait res by (simp add: run_one_def next_do_tag_def Let_def)
  moreover have "m_sq_tail m2 = r_sq_tail_local r2"
    using submit_and_wait_published [OF r1(1) _ wait] assms(4) r1(3) by simp
  ultimately show ?thesis using same q1 by auto
qed

theorem run_one_returns_witness:
  "\<exists>r' k' m'. run_one ex_echo (ex_sqe 0) ex_idle_ring ((), ex_shm) = Some (Ok 0, r', k', m') \<and>
     ring_inv (r', m')"
proof -
  let ?c = "cqe_completion (ex_cqe 0x8000000000000000 0)"
  obtain r1 m1 where p: "IoUring_push (Sqe_user_data (r_do_tag_next ex_idle_ring) (ex_sqe 0))
      (snd (next_do_tag ex_idle_ring)) ex_shm = (Ok (), r1, m1)"
    by (simp add: IoUring_push_def next_do_tag_def Let_def ex_idle_ring_def ex_defs)
  obtain n r2 k2 m2 where w: "IoUring_submit_and_wait ex_echo 1 r1 ((), m1) = (Ok n, r2, k2, m2)"
    using submit_and_wait_succeeds [OF ex_echo_counts(2)] by blast
  have "ring_pending (r2, m2) = [] @ ?c # []" using p w
    by (auto simp: IoUring_push_def next_do_tag_def Let_def ex_idle_ring_def ex_defs
        IoUring_submit_and_wait_def io_uring_enter_def ex_echo_def check_def ring_pending_def
        cq_window_def ring_window_Suc Sqe_user_data_def cqe_completion_def)
  moreover have "user_data ?c = r_do_tag_next ex_idle_ring" "into_result ?c = Ok 0"
    "r_cq_mask ex_idle_ring = 1"
    by (simp_all add: cqe_completion_def ex_cqe_def ex_idle_ring_def ex_ring_def into_result_def)
  ultimately show ?thesis
    using run_one_returns [OF _ ex_echo_counts ex_idle_ring_inv p w, of "[]" ?c "[]"] by auto
qed

theorem run_one_error_leaves_entry_queued_witness:
  "\<exists>r' k' m'. do_read ex_fail (RawFd 4) \<lparr>sl_ptr = 65536, sl_len = 16\<rparr> 0 ex_idle_ring ((), ex_shm)
       = Some (Err (Syscall EAGAIN), r', k', m') \<and>
     map sqe_addr (ring_queued (r', m')) = [65536]"
proof -
  have "IoUring_sq_space_left ex_idle_ring ex_shm \<noteq> 0"
    by (simp add: IoUring_sq_space_left_def IoUring_sq_capacity_def ex_idle_ring_def ex_ring_def
        ex_shm_def)
  moreover have "\<forall>fd n c f k m. check (fst (ex_fail fd n c f (k, m))) = Err EAGAIN"
    by (simp add: ex_fail_def check_def MAX_ERRNO_def EAGAIN_def)
  moreover have "ring_queued (ex_idle_ring, ex_shm) = []"
    by (simp add: ring_queued_def sq_window_def ex_idle_ring_def ex_ring_def ex_shm_def)
  moreover have "sqe_addr (Sqe_user_data d (Sqe_read (RawFd 4) \<lparr>sl_ptr = 65536, sl_len = 16\<rparr> 0)) = 65536"
    for d by (simp add: Sqe_user_data_def Sqe_read_def Sqe_read_ptr_def)
  ultimately show ?thesis
    using run_one_error_leaves_entry_queued
      [OF ex_idle_ring_inv _ ex_fail_moves ex_fail_kernel, of EAGAIN
        "Sqe_read (RawFd 4) \<lparr>sl_ptr = 65536, sl_len = 16\<rparr> 0" "()"]
    unfolding do_read_def by fastforce
qed

text \<open>C17. Tags of synchronous calls do not repeat: every tag has the marker bit set, so it lies
  in the upper half of the tag space, and any two of \<open>2 ^ 63\<close> consecutive calls on a ring
  get different tags, although the counter wraps around inside that half.\<close>

theorem do_tags_distinct:
  assumes "do_tag_wf r" "a < b" "b - a < 2 ^ 63"
  shows "nth_do_tag r a AND DO_TAG_MARKER \<noteq> 0 \<and> nth_do_tag r a \<noteq> nth_do_tag r b"
proof
  obtain j where j: "unat (r_do_tag_next r) = 2 ^ 63 + j" "j < 2 ^ 63"
    using do_tag_wf_iff [of r] assms(1) by blast
  note tag = nth_do_tag_unat [OF j]
  show "nth_do_tag r a AND DO_TAG_MARKER \<noteq> 0"
    using marker_set_iff [of "nth_do_tag r a"] tag [of a] by simp
  have "(j + a) mod 2 ^ 63 \<noteq> (j + b) mod 2 ^ 63"
    using mod_add_inj_nat [of 0 "2 ^ 63" "b - a" "j + a"] assms(2,3) by (auto simp: add.assoc)
  then show "nth_do_tag r a \<noteq> nth_do_tag r b" using tag [of a] tag [of b] by auto
qed

theorem do_tags_distinct_witness:
  "nth_do_tag ex_idle_ring 0 AND DO_TAG_MARKER \<noteq> 0 \<and> nth_do_tag ex_idle_ring 0 \<noteq> nth_do_tag ex_idle_ring 5"
proof -
  have "do_tag_wf ex_idle_ring"
    by (simp add: do_tag_wf_def ex_idle_ring_def ex_ring_def DO_TAG_MARKER_def)
  then show ?thesis using do_tags_distinct [of ex_idle_ring 0 5] by simp
qed

end
