(* ===== verification/Setup.thy ===== *)
theory Setup
  imports Run_One "HOL-Library.Multiset"
begin

text \<open>
  Creating and releasing a ring: the owners of its mappings and descriptor
  (\<open>src/ring/resources.rs\<close>), sizing, mapping and parsing the ring memory
  (\<open>src/ring/layout.rs\<close>), caller-provided memory (\<open>src/ring/no_mmap.rs\<close>), the builder
  (\<open>src/ring/builder.rs\<close>), and \<open>from_params\<close>, \<open>split\<close> and the drops of
  \<open>src/ring/mod.rs\<close>.

  The process is the record \<open>world\<close>: the kernel's own state, 32-bit cells of memory by
  address, the resource pages, and a ledger of what the process holds, its mappings and
  open descriptors. The ledger is changed only by successful \<open>mmap\<close> and \<open>io_uring_setup\<close>
  calls and by \<open>munmap\<close> and \<open>close\<close>; giving back something that is not held sets \<open>w_bad\<close>.
  The kernel is the parameter \<open>os\<close>.
\<close>

section \<open>The process and the kernel\<close>

record MappedRegion =
  addr :: usize
  len :: usize

record RingResources =
  refcount :: usize
  res_fd :: RawFd
  res_sq_ring :: MappedRegion
  res_cq_ring :: MappedRegion
  res_sqes :: MappedRegion
  self_page :: MappedRegion

record 'k world =
  w_k :: 'k
  w_mem :: "usize \<Rightarrow> u32"
  w_res :: "usize \<Rightarrow> RingResources option"
  w_maps :: "MappedRegion list"
  w_fds :: "RawFd list"
  w_bad :: bool

record 'k os =
  os_setup :: "u32 \<Rightarrow> IoUringParams \<Rightarrow> 'k \<times> (usize \<Rightarrow> u32) \<Rightarrow>
    isize \<times> IoUringParams \<times> 'k \<times> (usize \<Rightarrow> u32)"
  os_mmap :: "usize \<Rightarrow> usize \<Rightarrow> u32 \<Rightarrow> u32 \<Rightarrow> usize \<Rightarrow> u64 \<Rightarrow> 'k \<times> (usize \<Rightarrow> u32) \<Rightarrow>
    isize \<times> 'k \<times> (usize \<Rightarrow> u32)"
  os_munmap :: "usize \<Rightarrow> usize \<Rightarrow> 'k \<Rightarrow> 'k"
  os_close :: "usize \<Rightarrow> 'k \<Rightarrow> 'k"

definition PROT_READ :: u32 where "PROT_READ = 1"
definition PROT_WRITE :: u32 where "PROT_WRITE = 2"
definition MAP_SHARED :: u32 where "MAP_SHARED = 1"
definition MAP_PRIVATE :: u32 where "MAP_PRIVATE = 2"
definition MAP_ANONYMOUS :: u32 where "MAP_ANONYMOUS = 0x20"
definition MAP_POPULATE :: u32 where "MAP_POPULATE = 0x8000"

definition io_uring_setup ::
  "'k os \<Rightarrow> u32 \<Rightarrow> IoUringParams \<Rightarrow> 'k world \<Rightarrow> (RawFd, Errno) result \<times> IoUringParams \<times> 'k world" where
  "io_uring_setup os entries p w =
    (case os_setup os entries p (w_k w, w_mem w) of (ret, p', k', mem') \<Rightarrow>
      (let w' = w\<lparr>w_k := k', w_mem := mem'\<rparr>
       in case check ret of
            Err e \<Rightarrow> (Err e, p', w')
          | Ok v \<Rightarrow> (Ok (RawFd v), p', w'\<lparr>w_fds := RawFd v # w_fds w'\<rparr>)))"

definition mmap ::
  "'k os \<Rightarrow> usize \<Rightarrow> usize \<Rightarrow> u32 \<Rightarrow> u32 \<Rightarrow> usize \<Rightarrow> u64 \<Rightarrow> 'k world \<Rightarrow>
   (usize, Errno) result \<times> 'k world" where
  "mmap os a l prot flags fd offset w =
    (case os_mmap os a l prot flags fd offset (w_k w, w_mem w) of (ret, k', mem') \<Rightarrow>
      (let w' = w\<lparr>w_k := k', w_mem := mem'\<rparr>
       in case check ret of
            Err e \<Rightarrow> (Err e, w')
          | Ok v \<Rightarrow> (Ok v, w'\<lparr>w_maps := \<lparr>addr = v, len = l\<rparr> # w_maps w'\<rparr>)))"

text \<open>Every caller discards the results of \<open>munmap\<close> and \<open>close\<close>.\<close>

definition munmap :: "'k os \<Rightarrow> usize \<Rightarrow> usize \<Rightarrow> 'k world \<Rightarrow> 'k world" where
  "munmap os a l w =
    (let held = \<lparr>addr = a, len = l\<rparr> \<in> set (w_maps w)
     in w\<lparr>w_k := os_munmap os a l (w_k w), w_maps := remove1 \<lparr>addr = a, len = l\<rparr> (w_maps w),
          w_bad := w_bad w \<or> \<not> held\<rparr>)"

definition close :: "'k os \<Rightarrow> RawFd \<Rightarrow> 'k world \<Rightarrow> 'k world" where
  "close os fd w =
    (let held = fd \<in> set (w_fds w)
     in w\<lparr>w_k := os_close os (as_usize fd) (w_k w), w_fds := remove1 fd (w_fds w),
          w_bad := w_bad w \<or> \<not> held\<rparr>)"

section \<open>Owners (\<open>src/ring/resources.rs\<close>)\<close>

definition no_region :: MappedRegion where "no_region = \<lparr>addr = 0, len = 0\<rparr>"

record SetupGuard =
  g_fd :: RawFd
  g_sq_ring :: MappedRegion
  g_cq_ring :: MappedRegion
  g_sqes :: MappedRegion

definition SetupGuard_new :: "RawFd \<Rightarrow> SetupGuard" where
  "SetupGuard_new fd =
     \<lparr>g_fd = fd, g_sq_ring = no_region, g_cq_ring = no_region, g_sqes = no_region\<rparr>"

definition munmap_region :: "'k os \<Rightarrow> MappedRegion \<Rightarrow> 'k world \<Rightarrow> 'k world" where
  "munmap_region os r w = munmap os (addr r) (len r) w"

definition SetupGuard_drop :: "'k os \<Rightarrow> SetupGuard \<Rightarrow> 'k world \<Rightarrow> 'k world" where
  "SetupGuard_drop os g w =
    (let w = (if len (g_sqes g) > 0 then munmap_region os (g_sqes g) w else w);
         w = (if len (g_cq_ring g) > 0 then munmap_region os (g_cq_ring g) w else w);
         w = (if len (g_sq_ring g) > 0 then munmap_region os (g_sq_ring g) w else w)
     in close os (g_fd g) w)"

definition next_multiple_of :: "usize \<Rightarrow> usize \<Rightarrow> usize" where
  "next_multiple_of x n = (if x mod n = 0 then x else x + (n - x mod n))"

definition SIZEOF_RingResources :: usize where "SIZEOF_RingResources = 80"

definition RingResources_alloc ::
  "'k os \<Rightarrow> RawFd \<Rightarrow> MappedRegion \<Rightarrow> MappedRegion \<Rightarrow> MappedRegion \<Rightarrow> 'k world \<Rightarrow>
   (usize, Error) result \<times> 'k world" where
  "RingResources_alloc os fd sq_ring cq_ring sqes w =
    (let l = next_multiple_of SIZEOF_RingResources 4096
     in case mmap os 0 l (PROT_READ OR PROT_WRITE) (MAP_PRIVATE OR MAP_ANONYMOUS) (- 1) 0 w of
          (Err e, w) \<Rightarrow> (Err (Error_from_Errno e), w)
        | (Ok a, w) \<Rightarrow>
            (Ok a, w\<lparr>w_res := (w_res w)(a \<mapsto>
               \<lparr>refcount = 1, res_fd = fd, res_sq_ring = sq_ring, res_cq_ring = cq_ring,
                res_sqes = sqes, self_page = \<lparr>addr = a, len = l\<rparr>\<rparr>)\<rparr>))"

text \<open>A dereference of a resource pointer that names no resource page is a bad access.\<close>

definition retain :: "usize \<Rightarrow> 'k world \<Rightarrow> 'k world" where
  "retain ptr w =
    (case w_res w ptr of
       None \<Rightarrow> w\<lparr>w_bad := True\<rparr>
     | Some res \<Rightarrow> w\<lparr>w_res := (w_res w)(ptr \<mapsto> res\<lparr>refcount := refcount res + 1\<rparr>)\<rparr>)"

definition release :: "'k os \<Rightarrow> usize \<Rightarrow> 'k world \<Rightarrow> 'k world" where
  "release os ptr w =
    (case w_res w ptr of
       None \<Rightarrow> w\<lparr>w_bad := True\<rparr>
     | Some res \<Rightarrow>
         let w = w\<lparr>w_res := (w_res w)(ptr \<mapsto> res\<lparr>refcount := refcount res - 1\<rparr>)\<rparr>
         in if refcount res \<noteq> 1 then w
            else let w = munmap_region os (res_sqes res) w;
                     w = (if len (res_cq_ring res) > 0
                          then munmap_region os (res_cq_ring res) w else w);
                     w = munmap_region os (res_sq_ring res) w;
                     w = close os (res_fd res) w;
                     w = munmap_region os (self_page res) w
                 in w\<lparr>w_res := (w_res w)(ptr := None)\<rparr>)"

section \<open>Layout (\<open>src/ring/layout.rs\<close>)\<close>

definition SIZEOF_u32 :: usize where "SIZEOF_u32 = 4"
definition SIZEOF_IoUringCqe :: usize where "SIZEOF_IoUringCqe = 16"
definition SIZEOF_IoUringSqe :: usize where "SIZEOF_IoUringSqe = 64"

definition ring_bytes :: "u32 \<Rightarrow> u32 \<Rightarrow> usize \<Rightarrow> usize" where
  "ring_bytes offset n elem_size = ucast offset + ucast n * elem_size"

definition map_sq_ring_sz :: "IoUringParams \<Rightarrow> u32 \<Rightarrow> usize" where
  "map_sq_ring_sz p setup_flags =
    (if \<not> contains setup_flags SETUP_NO_SQARRAY
     then ring_bytes (sqo_array (p_sq_off p)) (p_sq_entries p) SIZEOF_u32
     else ring_bytes (sqo_array (p_sq_off p)) 0 SIZEOF_u32)"

definition map_rings ::
  "'k os \<Rightarrow> RawFd \<Rightarrow> IoUringParams \<Rightarrow> u32 \<Rightarrow> u32 \<Rightarrow> SetupGuard \<Rightarrow> 'k world \<Rightarrow>
   (usize \<times> usize \<times> usize \<times> MappedRegion \<times> usize \<times> usize, Error) result \<times> SetupGuard \<times> 'k world" where
  "map_rings os fd p features setup_flags g w =
    (let prot = PROT_READ OR PROT_WRITE;
         map_flags = MAP_SHARED OR MAP_POPULATE;
         sq_ring_sz = map_sq_ring_sz p setup_flags;
         cq_ring_sz = ring_bytes (cqo_cqes (p_cq_off p)) (p_cq_entries p) SIZEOF_IoUringCqe;
         single_mmap = contains features FEAT_SINGLE_MMAP;
         mmap_sz = (if single_mmap then max sq_ring_sz cq_ring_sz else sq_ring_sz)
     in case mmap os 0 mmap_sz prot map_flags (as_usize fd) (ring_offset_u64 SqRing) w of
          (Err e, w) \<Rightarrow> (Err (Error_from_Errno e), g, w)
        | (Ok sq_ring_ptr, w) \<Rightarrow>
            let g = g\<lparr>g_sq_ring := \<lparr>addr = sq_ring_ptr, len = mmap_sz\<rparr>\<rparr>
            in case (if single_mmap then (Ok (sq_ring_ptr, no_region), g, w)
                     else case mmap os 0 cq_ring_sz prot map_flags (as_usize fd)
                                 (ring_offset_u64 CqRing) w of
                            (Err e, w) \<Rightarrow> (Err (Error_from_Errno e), g, w)
                          | (Ok ptr, w) \<Rightarrow>
                              (Ok (ptr, \<lparr>addr = ptr, len = cq_ring_sz\<rparr>),
                               g\<lparr>g_cq_ring := \<lparr>addr = ptr, len = cq_ring_sz\<rparr>\<rparr>, w)) of
                 (Err e, g, w) \<Rightarrow> (Err e, g, w)
               | (Ok (cq_ring_ptr, cq_ring_region), g, w) \<Rightarrow>
                   let sqes_sz = ring_bytes 0 (p_sq_entries p) SIZEOF_IoUringSqe
                   in case mmap os 0 sqes_sz prot map_flags (as_usize fd) (ring_offset_u64 Sqes) w of
                        (Err e, w) \<Rightarrow> (Err (Error_from_Errno e), g, w)
                      | (Ok sqes_ptr, w) \<Rightarrow>
                          (Ok (sq_ring_ptr, mmap_sz, cq_ring_ptr, cq_ring_region, sqes_ptr, sqes_sz),
                           g\<lparr>g_sqes := \<lparr>addr = sqes_ptr, len = sqes_sz\<rparr>\<rparr>, w))"

text \<open>The loop \<open>for i in 0..sq_entries\<close> that writes the identity into the index array.\<close>

fun fill_sq_array :: "usize \<Rightarrow> nat \<Rightarrow> (usize \<Rightarrow> u32) \<Rightarrow> (usize \<Rightarrow> u32)" where
  "fill_sq_array base 0 mem = mem"
| "fill_sq_array base (Suc n) mem =
     (fill_sq_array base n mem)(base + 4 * of_nat n := of_nat n)"

definition parse_sq ::
  "usize \<Rightarrow> usize \<Rightarrow> IoUringParams \<Rightarrow> bool \<Rightarrow> (usize \<Rightarrow> u32) \<Rightarrow>
   (usize \<times> usize \<times> u32 \<times> usize \<times> usize \<times> u32) \<times> (usize \<Rightarrow> u32)" where
  "parse_sq sq_ring_ptr sqes_ptr p has_sq_array mem =
    (let sq_head = sq_ring_ptr + ucast (sqo_head (p_sq_off p));
         sq_tail = sq_ring_ptr + ucast (sqo_tail (p_sq_off p));
         sq_mask = mem (sq_ring_ptr + ucast (sqo_ring_mask (p_sq_off p)));
         sq_flags = sq_ring_ptr + ucast (sqo_flags (p_sq_off p));
         mem = (if has_sq_array
                then fill_sq_array (sq_ring_ptr + ucast (sqo_array (p_sq_off p)))
                       (unat (p_sq_entries p)) mem
                else mem);
         sq_tail_local = mem sq_tail
     in ((sq_head, sq_tail, sq_mask, sq_flags, sqes_ptr, sq_tail_local), mem))"

definition parse_cq ::
  "usize \<Rightarrow> IoUringParams \<Rightarrow> (usize \<Rightarrow> u32) \<Rightarrow> usize \<times> usize \<times> u32 \<times> usize \<times> u32" where
  "parse_cq cq_ring_ptr p mem =
    (let cq_head = cq_ring_ptr + ucast (cqo_head (p_cq_off p));
         cq_tail = cq_ring_ptr + ucast (cqo_tail (p_cq_off p));
         cq_mask = mem (cq_ring_ptr + ucast (cqo_ring_mask (p_cq_off p)));
         cqes = cq_ring_ptr + ucast (cqo_cqes (p_cq_off p));
         cq_head_local = mem cq_head
     in (cq_head, cq_tail, cq_mask, cqes, cq_head_local))"

section \<open>Caller-provided memory (\<open>src/ring/no_mmap.rs\<close>)\<close>

definition PAGE_SIZE :: usize where "PAGE_SIZE = 4096"
definition IORING_MAX_ENTRIES :: u32 where "IORING_MAX_ENTRIES = 32768"
definition IORING_MAX_CQ_ENTRIES :: u32 where "IORING_MAX_CQ_ENTRIES = 2 * IORING_MAX_ENTRIES"
definition RINGS_HEADER_SLACK :: usize where "RINGS_HEADER_SLACK = 128"

text \<open>
  \<open>u32::next_power_of_two\<close>: the exponent of the smallest power of two not below the
  argument. Above \<open>2 ^ 31\<close> the power does not fit 32 bits and wraps to zero, as an
  optimised build does (a checked build panics).
\<close>

fun npot_exp :: "nat \<Rightarrow> nat" where
  "npot_exp n = (if n \<le> 1 then 0 else Suc (npot_exp ((n + 1) div 2)))"

definition next_power_of_two :: "u32 \<Rightarrow> u32" where
  "next_power_of_two n = 2 ^ npot_exp (unat n)"

definition saturating_mul2 :: "u32 \<Rightarrow> u32" where
  "saturating_mul2 n = (if n > 0x7FFFFFFF then 0xFFFFFFFF else n * 2)"

definition predict_entries :: "u32 \<Rightarrow> IoUringParams \<Rightarrow> u32 \<times> u32" where
  "predict_entries requested p =
    (let clamp = contains (p_flags p) SETUP_CLAMP;
         entries = (if requested > IORING_MAX_ENTRIES \<and> clamp then IORING_MAX_ENTRIES else requested);
         sq_entries = next_power_of_two entries;
         cqsize = contains (p_flags p) SETUP_CQSIZE;
         cq_entries =
           (if cqsize \<and> p_cq_entries p > 0 then
              let cq = (if p_cq_entries p > IORING_MAX_CQ_ENTRIES \<and> clamp
                        then IORING_MAX_CQ_ENTRIES else p_cq_entries p)
              in max (next_power_of_two cq) sq_entries
            else saturating_mul2 sq_entries)
     in (sq_entries, cq_entries))"

definition page_align :: "usize \<Rightarrow> usize" where
  "page_align l = next_multiple_of l PAGE_SIZE"

definition ring_region_size :: "u32 \<Rightarrow> u32 \<Rightarrow> bool \<Rightarrow> usize" where
  "ring_region_size sq_entries cq_entries has_sq_array =
    (let size = RINGS_HEADER_SLACK * 2;
         size = size + ucast cq_entries * SIZEOF_IoUringCqe;
         size = (if has_sq_array then size + ucast sq_entries * SIZEOF_u32 else size)
     in page_align size + PAGE_SIZE)"

definition sqes_region_size :: "u32 \<Rightarrow> usize" where
  "sqes_region_size sq_entries = page_align (ucast sq_entries * SIZEOF_IoUringSqe)"

definition alloc_anon :: "'k os \<Rightarrow> usize \<Rightarrow> 'k world \<Rightarrow> (MappedRegion, Error) result \<times> 'k world" where
  "alloc_anon os l w =
    (case mmap os 0 l (PROT_READ OR PROT_WRITE) (MAP_PRIVATE OR MAP_ANONYMOUS) (- 1) 0 w of
       (Err e, w) \<Rightarrow> (Err (Error_from_Errno e), w)
     | (Ok a, w) \<Rightarrow> (Ok \<lparr>addr = a, len = l\<rparr>, w))"

record NoMmapRegions =
  ring_region :: MappedRegion
  sqes_region :: MappedRegion

definition NoMmapGuard_alloc ::
  "'k os \<Rightarrow> u32 \<Rightarrow> IoUringParams \<Rightarrow> 'k world \<Rightarrow>
   (NoMmapRegions, Error) result \<times> IoUringParams \<times> 'k world" where
  "NoMmapGuard_alloc os entries p w =
    (let has_sq_array = (\<not> contains (p_flags p) SETUP_NO_SQARRAY)
     in case predict_entries entries p of (sq_entries, cq_entries) \<Rightarrow>
       (case alloc_anon os (ring_region_size sq_entries cq_entries has_sq_array) w of
          (Err e, w) \<Rightarrow> (Err e, p, w)
        | (Ok rr, w) \<Rightarrow>
            (case alloc_anon os (sqes_region_size sq_entries) w of
               (Err e, w) \<Rightarrow> (Err e, p, munmap_region os rr w)
             | (Ok sr, w) \<Rightarrow>
                 (Ok \<lparr>ring_region = rr, sqes_region = sr\<rparr>,
                  p\<lparr>p_cq_off := (p_cq_off p)\<lparr>cqo_user_addr := addr rr\<rparr>,
                    p_sq_off := (p_sq_off p)\<lparr>sqo_user_addr := addr sr\<rparr>\<rparr>, w))))"

definition NoMmapGuard_drop :: "'k os \<Rightarrow> NoMmapRegions \<Rightarrow> 'k world \<Rightarrow> 'k world" where
  "NoMmapGuard_drop os n w = munmap_region os (ring_region n) (munmap_region os (sqes_region n) w)"

section \<open>Creating a ring (\<open>from_params\<close>)\<close>

text \<open>
  The end of \<open>from_params\<close>, from the mapped regions on: parse both rings, allocate the
  resource page and build the handle. The armed \<open>guard\<close> is dropped on an error and
  disarmed, that is forgotten, on success.
\<close>

definition finish_setup ::
  "'k os \<Rightarrow> RawFd \<Rightarrow> IoUringParams \<Rightarrow> u32 \<Rightarrow> u32 \<Rightarrow> SetupGuard \<Rightarrow>
   usize \<times> usize \<times> usize \<times> MappedRegion \<times> usize \<times> usize \<Rightarrow> 'k world \<Rightarrow>
   (IoUring, Error) result \<times> 'k world" where
  "finish_setup os fd p features setup_flags g regions w =
    (case regions of (sq_ring_ptr, mmap_sz, cq_ring_ptr, cq_ring_region, sqes_ptr, sqes_sz) \<Rightarrow>
      (let has_sq_array = (\<not> contains setup_flags SETUP_NO_SQARRAY)
       in case parse_sq sq_ring_ptr sqes_ptr p has_sq_array (w_mem w) of
            ((sq_head, sq_tail, sq_mask, sq_flags, sqes, sq_tail_local), mem) \<Rightarrow>
          (case parse_cq cq_ring_ptr p mem of
             (cq_head, cq_tail, cq_mask, cqes, cq_head_local) \<Rightarrow>
          (case RingResources_alloc os fd \<lparr>addr = sq_ring_ptr, len = mmap_sz\<rparr> cq_ring_region
                  \<lparr>addr = sqes_ptr, len = sqes_sz\<rparr> (w\<lparr>w_mem := mem\<rparr>) of
             (Err e, w) \<Rightarrow> (Err e, SetupGuard_drop os g w)
           | (Ok resources, w) \<Rightarrow>
               (Ok \<lparr>r_fd = fd, r_sq_head = sq_head, r_sq_tail = sq_tail, r_sq_mask = sq_mask,
                    r_sq_flags = sq_flags, r_sqes = sqes, r_sq_tail_local = sq_tail_local,
                    r_sq_submitted = sq_tail_local, r_cq_head = cq_head, r_cq_tail = cq_tail,
                    r_cq_mask = cq_mask, r_cqes = cqes, r_cq_head_local = cq_head_local,
                    r_features = features, r_setup_flags = setup_flags,
                    r_do_tag_next = DO_TAG_MARKER, r_resources = resources\<rparr>, w)))))"

definition from_params ::
  "'k os \<Rightarrow> u32 \<Rightarrow> IoUringParams \<Rightarrow> 'k world \<Rightarrow> (IoUring, Error) result \<times> IoUringParams \<times> 'k world" where
  "from_params os entries p w =
    (let unsupported = p_flags p AND NOT SUPPORTED_MASK
     in if unsupported \<noteq> 0
        then (Err (Setup (InvalidArg (UnsupportedSetupFlags unsupported))), p, w)
        else
          (let setup_flags = p_flags p;
               no_mmap = contains setup_flags SETUP_NO_MMAP
           in case (if no_mmap
                    then (case NoMmapGuard_alloc os entries p w of
                            (Err e, p, w) \<Rightarrow> (Err e, p, w)
                          | (Ok n, p, w) \<Rightarrow> (Ok (Some n), p, w))
                    else (Ok None, p, w)) of
                (Err e, p, w) \<Rightarrow> (Err e, p, w)
              | (Ok no_mmap_guard, p, w) \<Rightarrow>
                  (case io_uring_setup os entries p w of
                     (Err e, p, w) \<Rightarrow>
                       (Err (Error_from_Errno e), p,
                        (case no_mmap_guard of None \<Rightarrow> w | Some n \<Rightarrow> NoMmapGuard_drop os n w))
                   | (Ok fd, p, w) \<Rightarrow>
                       let g = SetupGuard_new fd;
                           features = p_features p
                       in case (case no_mmap_guard of
                                  Some n \<Rightarrow>
                                    (Ok (addr (ring_region n), len (ring_region n),
                                         addr (ring_region n), no_region,
                                         addr (sqes_region n), len (sqes_region n)),
                                     g\<lparr>g_sq_ring := ring_region n, g_sqes := sqes_region n\<rparr>, w)
                                | None \<Rightarrow> map_rings os fd p features setup_flags g w) of
                            (Err e, g, w) \<Rightarrow> (Err e, p, SetupGuard_drop os g w)
                          | (Ok regions, g, w) \<Rightarrow>
                              (case finish_setup os fd p features setup_flags g regions w of
                                 (res, w) \<Rightarrow> (res, p, w)))))"

section \<open>Splitting and dropping\<close>

definition IoUring_split ::
  "IoUring \<Rightarrow> 'k world \<Rightarrow> (Submitter \<times> Completer, IoUring \<times> Error) result \<times> 'k world" where
  "IoUring_split r w =
    (if setup_flags_forbid_split (r_setup_flags r)
     then (Err (r, Setup (InvalidArg (IncompatibleSplit (r_setup_flags r)))), w)
     else (Ok (submitter_half r, completer_half r), retain (r_resources r) w))"

definition IoUring_drop :: "'k os \<Rightarrow> IoUring \<Rightarrow> shm \<times> 'k world \<Rightarrow> shm \<times> 'k world" where
  "IoUring_drop os r mw = (IoUring_flush_cq_head r (fst mw), release os (r_resources r) (snd mw))"

definition Submitter_drop :: "'k os \<Rightarrow> Submitter \<Rightarrow> shm \<times> 'k world \<Rightarrow> shm \<times> 'k world" where
  "Submitter_drop os s mw = (fst mw, release os (s_resources s) (snd mw))"

definition Completer_drop :: "'k os \<Rightarrow> Completer \<Rightarrow> shm \<times> 'k world \<Rightarrow> shm \<times> 'k world" where
  "Completer_drop os c mw = (Completer_sync_cq c (fst mw), release os (c_resources c) (snd mw))"

section \<open>The builder (\<open>src/ring/builder.rs\<close>)\<close>

record IoUringBuilder =
  b_entries :: u32
  b_params :: IoUringParams

text \<open>\<open>new\<close> panics on zero entries: \<open>None\<close> here.\<close>

definition Builder_new :: "u32 \<Rightarrow> IoUringBuilder option" where
  "Builder_new entries =
     (if entries > 0 then Some \<lparr>b_entries = entries, b_params = IoUringParams_default\<rparr> else None)"

definition Builder_setup_flags :: "u32 \<Rightarrow> IoUringBuilder \<Rightarrow> IoUringBuilder" where
  "Builder_setup_flags flags b =
     b\<lparr>b_params := (b_params b)\<lparr>p_flags := p_flags (b_params b) OR flags\<rparr>\<rparr>"

definition Builder_iopoll :: "IoUringBuilder \<Rightarrow> IoUringBuilder" where
  "Builder_iopoll b = Builder_setup_flags SETUP_IOPOLL b"

definition Builder_sqpoll :: "u32 \<Rightarrow> IoUringBuilder \<Rightarrow> IoUringBuilder" where
  "Builder_sqpoll idle_ms b =
    (let b = Builder_setup_flags SETUP_SQPOLL b
     in b\<lparr>b_params := (b_params b)\<lparr>p_sq_thread_idle := idle_ms\<rparr>\<rparr>)"

definition Builder_sqpoll_cpu :: "u32 \<Rightarrow> IoUringBuilder \<Rightarrow> IoUringBuilder" where
  "Builder_sqpoll_cpu cpu b =
    (let b = Builder_setup_flags (SETUP_SQPOLL OR SETUP_SQ_AFF) b
     in b\<lparr>b_params := (b_params b)\<lparr>p_sq_thread_cpu := cpu\<rparr>\<rparr>)"

definition Builder_cq_entries :: "u32 \<Rightarrow> IoUringBuilder \<Rightarrow> IoUringBuilder" where
  "Builder_cq_entries n b =
    (let b = Builder_setup_flags SETUP_CQSIZE b
     in b\<lparr>b_params := (b_params b)\<lparr>p_cq_entries := n\<rparr>\<rparr>)"

definition Builder_clamp :: "IoUringBuilder \<Rightarrow> IoUringBuilder" where
  "Builder_clamp b = Builder_setup_flags SETUP_CLAMP b"

definition Builder_single_issuer :: "IoUringBuilder \<Rightarrow> IoUringBuilder" where
  "Builder_single_issuer b = Builder_setup_flags SETUP_SINGLE_ISSUER b"

definition Builder_coop_taskrun :: "IoUringBuilder \<Rightarrow> IoUringBuilder" where
  "Builder_coop_taskrun b = Builder_setup_flags SETUP_COOP_TASKRUN b"

definition Builder_defer_taskrun :: "IoUringBuilder \<Rightarrow> IoUringBuilder" where
  "Builder_defer_taskrun b = Builder_setup_flags (SETUP_DEFER_TASKRUN OR SETUP_COOP_TASKRUN) b"

definition Builder_attach_wq :: "u32 \<Rightarrow> IoUringBuilder \<Rightarrow> IoUringBuilder" where
  "Builder_attach_wq wq_fd b =
    (let b = Builder_setup_flags SETUP_ATTACH_WQ b
     in b\<lparr>b_params := (b_params b)\<lparr>p_wq_fd := wq_fd\<rparr>\<rparr>)"

definition Builder_r_disabled :: "IoUringBuilder \<Rightarrow> IoUringBuilder" where
  "Builder_r_disabled b = Builder_setup_flags SETUP_R_DISABLED b"

definition Builder_submit_all :: "IoUringBuilder \<Rightarrow> IoUringBuilder" where
  "Builder_submit_all b = Builder_setup_flags SETUP_SUBMIT_ALL b"

definition Builder_taskrun_flag :: "IoUringBuilder \<Rightarrow> IoUringBuilder" where
  "Builder_taskrun_flag b = Builder_setup_flags SETUP_TASKRUN_FLAG b"

definition Builder_no_sqarray :: "IoUringBuilder \<Rightarrow> IoUringBuilder" where
  "Builder_no_sqarray b = Builder_setup_flags SETUP_NO_SQARRAY b"

definition Builder_no_mmap :: "IoUringBuilder \<Rightarrow> IoUringBuilder" where
  "Builder_no_mmap b = Builder_setup_flags SETUP_NO_MMAP b"

definition Builder_build ::
  "'k os \<Rightarrow> IoUringBuilder \<Rightarrow> 'k world \<Rightarrow> (IoUring, Error) result \<times> 'k world" where
  "Builder_build os b w = (case from_params os (b_entries b) (b_params b) w of (res, p, w) \<Rightarrow> (res, w))"

definition IoUring_new ::
  "'k os \<Rightarrow> u32 \<Rightarrow> 'k world \<Rightarrow> ((IoUring, Error) result \<times> 'k world) option" where
  "IoUring_new os entries w = map_option (\<lambda>b. Builder_build os b w) (Builder_new entries)"

section \<open>The ledger\<close>

text \<open>
  \<open>holds w M F\<close>: the process holds exactly the mappings \<open>M\<close> and descriptors \<open>F\<close> and has
  never given back something it did not hold. \<open>mmap_rejects_empty\<close>: \<open>mmap\<close> fails on
  length zero, which is what \<open>mmap(2)\<close> documents; a guard relies on it when it uses a
  positive length to tell a mapping from no mapping.
\<close>

definition holds :: "'k world \<Rightarrow> MappedRegion multiset \<Rightarrow> RawFd multiset \<Rightarrow> bool" where
  "holds w M F \<longleftrightarrow> mset (w_maps w) = M \<and> mset (w_fds w) = F \<and> \<not> w_bad w"

definition mmap_rejects_empty :: "'k os \<Rightarrow> bool" where
  "mmap_rejects_empty os \<longleftrightarrow>
     (\<forall>a prot flags fd off km. \<exists>e. check (fst (os_mmap os a 0 prot flags fd off km)) = Err e)"

definition region_ms :: "MappedRegion \<Rightarrow> MappedRegion multiset" where
  "region_ms r = (if len r > 0 then {#r#} else {#})"

definition guard_ms :: "SetupGuard \<Rightarrow> MappedRegion multiset" where
  "guard_ms g = region_ms (g_sqes g) + region_ms (g_cq_ring g) + region_ms (g_sq_ring g)"

lemma holds_mem [simp]: "holds (w\<lparr>w_mem := mem\<rparr>) M F = holds w M F"
  "holds (w\<lparr>w_res := rs\<rparr>) M F = holds w M F"
  by (simp_all add: holds_def)

lemma mmap_Err: "mmap os a l prot flags fd off w = (Err e, w') \<Longrightarrow> holds w M F \<Longrightarrow> holds w' M F"
  by (auto simp: mmap_def holds_def Let_def split: prod.splits result.splits)

lemma mmap_Ok:
  assumes "mmap os a l prot flags fd off w = (Ok v, w')" "holds w M F" "mmap_rejects_empty os"
  shows "holds w' (M + region_ms \<lparr>addr = v, len = l\<rparr>) F" "len \<lparr>addr = v, len = l\<rparr> > 0"
proof -
  have "l \<noteq> 0"
  proof
    assume "l = 0"
    then obtain e where "check (fst (os_mmap os a l prot flags fd off (w_k w, w_mem w))) = Err e"
      using assms(3) unfolding mmap_rejects_empty_def by metis
    then show False using assms(1) by (auto simp: mmap_def Let_def split: prod.splits)
  qed
  then show "holds w' (M + region_ms \<lparr>addr = v, len = l\<rparr>) F" "len \<lparr>addr = v, len = l\<rparr> > 0"
    using assms(1,2)
    by (auto simp: mmap_def holds_def region_ms_def Let_def word_neq_0_conv
        split: prod.splits result.splits)
qed

lemma mmap_keeps_res:
  "mmap os a l prot flags fd off w = (res, w') \<Longrightarrow> w_res w' = w_res w"
  by (auto simp: mmap_def Let_def split: prod.splits result.splits)

lemma region_eta [simp]: "\<lparr>addr = addr r, len = len r\<rparr> = r"
  by (cases r) simp

lemma munmap_region_holds:
  assumes "holds w (add_mset r M) F"
  shows "holds (munmap_region os r w) M F"
proof -
  have "mset (w_maps w) = add_mset r M" using assms by (simp add: holds_def)
  moreover from this have "r \<in> set (w_maps w)" by (simp flip: set_mset_mset)
  ultimately show ?thesis using assms by (simp add: holds_def munmap_region_def munmap_def Let_def)
qed

lemma munmap_if_region:
  "holds w (M + region_ms r) F \<Longrightarrow>
   holds (if len r > 0 then munmap_region os r w else w) M F"
  by (auto simp: region_ms_def munmap_region_holds split: if_splits)

lemma close_holds:
  assumes "holds w M (add_mset fd F)"
  shows "holds (close os fd w) M F"
proof -
  have "mset (w_fds w) = add_mset fd F" using assms by (simp add: holds_def)
  moreover from this have "fd \<in> set (w_fds w)" by (simp flip: set_mset_mset)
  ultimately show ?thesis using assms by (simp add: holds_def close_def Let_def)
qed

lemma SetupGuard_drop_holds:
  assumes "holds w (M + guard_ms g) (add_mset (g_fd g) F)"
  shows "holds (SetupGuard_drop os g w) M F"
proof -
  have "holds w (M + region_ms (g_sq_ring g) + region_ms (g_cq_ring g) + region_ms (g_sqes g))
      (add_mset (g_fd g) F)"
    using assms by (simp add: guard_ms_def ac_simps)
  then show ?thesis unfolding SetupGuard_drop_def Let_def
    by (intro close_holds munmap_if_region)
qed

lemma region_ms_no_region [simp]: "region_ms no_region = {#}"
  by (simp add: region_ms_def no_region_def)

lemma mmap_cases:
  assumes "holds w M F" "mmap_rejects_empty os"
  obtains e w' where "mmap os a l prot flags fd off w = (Err e, w')" "holds w' M F"
  | v w' where "mmap os a l prot flags fd off w = (Ok v, w')"
      "holds w' (add_mset \<lparr>addr = v, len = l\<rparr> M) F" "region_ms \<lparr>addr = v, len = l\<rparr> = {#\<lparr>addr = v, len = l\<rparr>#}"
proof (cases "fst (mmap os a l prot flags fd off w)")
  case (Ok v)
  then obtain w' where "mmap os a l prot flags fd off w = (Ok v, w')" by (metis prod.collapse)
  with mmap_Ok [OF this assms] that(2) show thesis by (simp add: region_ms_def)
next
  case (Err e)
  then obtain w' where "mmap os a l prot flags fd off w = (Err e, w')" by (metis prod.collapse)
  with mmap_Err [OF this assms(1)] that(1) show thesis by blast
qed

lemma map_rings_holds:
  assumes "map_rings os fd p features setup_flags (SetupGuard_new fd) w = (res, g, w')"
    and "holds w M F" "mmap_rejects_empty os"
  shows "holds w' (M + guard_ms g) F \<and> g_fd g = fd \<and>
    (\<forall>a l c cr q n. res = Ok (a, l, c, cr, q, n) \<longrightarrow>
       guard_ms g = {#\<lparr>addr = a, len = l\<rparr>, \<lparr>addr = q, len = n\<rparr>#} + region_ms cr)"
proof -
  let ?prot = "PROT_READ OR PROT_WRITE" and ?fl = "MAP_SHARED OR MAP_POPULATE"
  let ?single = "contains features FEAT_SINGLE_MMAP"
  let ?cq = "ring_bytes (cqo_cqes (p_cq_off p)) (p_cq_entries p) SIZEOF_IoUringCqe"
  let ?sz = "if ?single then max (map_sq_ring_sz p setup_flags) ?cq else map_sq_ring_sz p setup_flags"
  let ?qsz = "ring_bytes 0 (p_sq_entries p) SIZEOF_IoUringSqe"
  note unf = map_rings_def Let_def SetupGuard_new_def guard_ms_def
  show ?thesis
  proof (cases rule: mmap_cases [OF assms(2,3), of 0 ?sz ?prot ?fl "as_usize fd" "ring_offset_u64 SqRing"])
    case (1 e w1)
    then show ?thesis using assms(1) by (auto simp: unf)
  next
    case sq: (2 v w1)
    show ?thesis
    proof (cases ?single)
      case True
      show ?thesis
      proof (cases rule: mmap_cases [OF sq(2) assms(3), of 0 ?qsz ?prot ?fl "as_usize fd" "ring_offset_u64 Sqes"])
        case (1 e w2)
        then show ?thesis using assms(1) sq True by (auto simp: unf)
      next
        case (2 q w2)
        then show ?thesis using assms(1) sq True by (auto simp: unf add_mset_commute)
      qed
    next
      case False
      show ?thesis
      proof (cases rule: mmap_cases [OF sq(2) assms(3), of 0 ?cq ?prot ?fl "as_usize fd" "ring_offset_u64 CqRing"])
        case (1 e w2)
        then show ?thesis using assms(1) sq False by (auto simp: unf)
      next
        case cq: (2 c w2)
        show ?thesis
        proof (cases rule: mmap_cases [OF cq(2) assms(3), of 0 ?qsz ?prot ?fl "as_usize fd" "ring_offset_u64 Sqes"])
          case (1 e w3)
          then show ?thesis using assms(1) sq cq False by (auto simp: unf add_mset_commute)
        next
          case (2 q w3)
          then show ?thesis using assms(1) sq cq False by (auto simp: unf add_mset_commute)
        qed
      qed
    qed
  qed
qed

lemma alloc_anon_cases:
  assumes "holds w M F" "mmap_rejects_empty os"
  obtains e w' where "alloc_anon os l w = (Err e, w')" "holds w' M F"
  | r w' where "alloc_anon os l w = (Ok r, w')" "holds w' (add_mset r M) F" "region_ms r = {#r#}"
proof (cases rule: mmap_cases [OF assms, of 0 l "PROT_READ OR PROT_WRITE"
      "MAP_PRIVATE OR MAP_ANONYMOUS" "- 1" 0])
  case (1 e w')
  then show thesis using that(1) [of "Error_from_Errno e" w'] by (simp add: alloc_anon_def)
next
  case (2 v w')
  then show thesis using that(2) [of "\<lparr>addr = v, len = l\<rparr>" w'] by (simp add: alloc_anon_def)
qed

lemma NoMmapGuard_alloc_cases:
  assumes "holds w M F" "mmap_rejects_empty os"
  obtains e p' w' where "NoMmapGuard_alloc os n p w = (Err e, p', w')" "holds w' M F"
  | r p' w' where "NoMmapGuard_alloc os n p w = (Ok r, p', w')"
      "holds w' (M + {#ring_region r, sqes_region r#}) F"
      "region_ms (ring_region r) = {#ring_region r#}" "region_ms (sqes_region r) = {#sqes_region r#}"
proof -
  obtain sq cq where pe: "predict_entries n p = (sq, cq)" by fastforce
  let ?l = "ring_region_size sq cq (\<not> contains (p_flags p) SETUP_NO_SQARRAY)"
  show thesis
  proof (cases rule: alloc_anon_cases [OF assms, of ?l])
    case (1 e w1)
    then show thesis using that(1) pe by (simp add: NoMmapGuard_alloc_def Let_def)
  next
    case r1: (2 r w1)
    show thesis
    proof (cases rule: alloc_anon_cases [OF r1(2) assms(2), of "sqes_region_size sq"])
      case (1 e w2)
      then show thesis using that(1) pe r1 munmap_region_holds [OF 1(2)]
        by (simp add: NoMmapGuard_alloc_def Let_def)
    next
      case (2 r2 w2)
      then show thesis using that(2) [of "\<lparr>ring_region = r, sqes_region = r2\<rparr>"] pe r1
        by (simp add: NoMmapGuard_alloc_def Let_def add_mset_commute)
    qed
  qed
qed

lemma NoMmapGuard_drop_holds:
  "holds w (M + {#ring_region r, sqes_region r#}) F \<Longrightarrow> holds (NoMmapGuard_drop os r w) M F"
  unfolding NoMmapGuard_drop_def
  by (intro munmap_region_holds) (simp add: add_mset_commute)

lemma io_uring_setup_cases:
  assumes "holds w M F"
  obtains e p' w' where "io_uring_setup os n p w = (Err e, p', w')" "holds w' M F"
  | fd p' w' where "io_uring_setup os n p w = (Ok fd, p', w')" "holds w' M (add_mset fd F)"
proof -
  obtain ret p' k' mem' where c: "os_setup os n p (w_k w, w_mem w) = (ret, p', k', mem')"
    by (metis prod_cases4)
  show thesis using that assms c
    by (cases "check ret") (auto simp: io_uring_setup_def Let_def holds_def)
qed

text \<open>What the resource page of a ring says it owns.\<close>

definition res_ms :: "RingResources \<Rightarrow> MappedRegion multiset" where
  "res_ms res = {#res_sq_ring res, res_sqes res, self_page res#} + region_ms (res_cq_ring res)"

definition owns :: "'k world \<Rightarrow> usize \<Rightarrow> nat \<Rightarrow> MappedRegion multiset \<Rightarrow> RawFd multiset \<Rightarrow> bool" where
  "owns w ptr n M F \<longleftrightarrow>
     (\<exists>res. w_res w ptr = Some res \<and> unat (refcount res) = n \<and>
        holds w (M + res_ms res) (add_mset (res_fd res) F))"

lemma finish_setup_holds:
  assumes fin: "finish_setup os fd p features sf g (a, l, c, cr, q, n) w = (res, w')"
    and h: "holds w (M + guard_ms g) (add_mset fd F)" "mmap_rejects_empty os" and g: "g_fd g = fd"
    and ms: "guard_ms g = {#\<lparr>addr = a, len = l\<rparr>, \<lparr>addr = q, len = n\<rparr>#} + region_ms cr"
  shows "case res of Err e \<Rightarrow> holds w' M F
    | Ok r \<Rightarrow> owns w' (r_resources r) 1 M F \<and> r_setup_flags r = sf \<and> do_tag_wf r \<and>
             r_sq_submitted r = r_sq_tail_local r"
proof -
  obtain sh st sm sfl sq lt mem
    where sq: "parse_sq a q p (\<not> contains sf SETUP_NO_SQARRAY) (w_mem w) = ((sh, st, sm, sfl, sq, lt), mem)"
    by (metis prod.exhaust)
  obtain ch ct cm cqs hl where cq: "parse_cq c p mem = (ch, ct, cm, cqs, hl)"
    by (metis prod.exhaust)
  have h': "holds (w\<lparr>w_mem := mem\<rparr>) (M + guard_ms g) (add_mset fd F)" using h by simp
  let ?l = "next_multiple_of SIZEOF_RingResources 4096"
  show ?thesis
  proof (cases rule: mmap_cases [OF h' h(2), of 0 ?l "PROT_READ OR PROT_WRITE"
        "MAP_PRIVATE OR MAP_ANONYMOUS" "- 1" 0])
    case (1 e w1)
    then have "res = Err (Syscall e)" "w' = SetupGuard_drop os g w1"
      using fin sq cq by (auto simp: finish_setup_def RingResources_alloc_def Let_def)
    then show ?thesis using SetupGuard_drop_holds [of w1 M g F os] 1(2) g by simp
  next
    case (2 v w1)
    then obtain r where r: "res = Ok r" and r': "r_resources r = v" "r_setup_flags r = sf"
      "r_do_tag_next r = DO_TAG_MARKER" "r_sq_submitted r = r_sq_tail_local r"
      and w': "w' = w1\<lparr>w_res := (w_res w1)(v \<mapsto>
        \<lparr>refcount = 1, res_fd = fd, res_sq_ring = \<lparr>addr = a, len = l\<rparr>, res_cq_ring = cr,
         res_sqes = \<lparr>addr = q, len = n\<rparr>, self_page = \<lparr>addr = v, len = ?l\<rparr>\<rparr>)\<rparr>"
      using fin sq cq by (auto simp: finish_setup_def RingResources_alloc_def Let_def)
    have "do_tag_wf r" using r' by (simp add: do_tag_wf_def DO_TAG_MARKER_def)
    moreover have eq: "add_mset \<lparr>addr = v, len = ?l\<rparr> (M + guard_ms g) = M + res_ms
        \<lparr>refcount = 1, res_fd = fd, res_sq_ring = \<lparr>addr = a, len = l\<rparr>, res_cq_ring = cr,
         res_sqes = \<lparr>addr = q, len = n\<rparr>, self_page = \<lparr>addr = v, len = ?l\<rparr>\<rparr>"
      by (simp add: res_ms_def ms multiset_eq_iff)
    have "owns w' v 1 M F" using 2(2) unfolding w' owns_def eq by simp
    ultimately show ?thesis using r r' by simp
  qed
qed

lemma unat_1_iff: "unat (x :: u64) = 1 \<longleftrightarrow> x = 1"
  by (metis unsigned_1 unsigned_word_eqI)

lemma release_last:
  "owns w ptr 1 M F \<Longrightarrow> holds (release os ptr w) M F"
proof -
  assume "owns w ptr 1 M F"
  then obtain res where res: "w_res w ptr = Some res" "refcount res = 1"
    and h: "holds w (M + res_ms res) (add_mset (res_fd res) F)"
    using unat_1_iff by (auto simp: owns_def)
  let ?w0 = "w\<lparr>w_res := (w_res w)(ptr \<mapsto> res\<lparr>refcount := refcount res - 1\<rparr>)\<rparr>"
  have "holds ?w0 (add_mset (res_sqes res) (add_mset (self_page res) (add_mset (res_sq_ring res) M)
      + region_ms (res_cq_ring res))) (add_mset (res_fd res) F)"
    using h by (simp add: res_ms_def add_mset_commute)
  note h1 = munmap_region_holds [OF this, of os]
  note h2 = munmap_if_region [OF h1, of os]
  have h2': "holds (if 0 < len (res_cq_ring res)
        then munmap_region os (res_cq_ring res) (munmap_region os (res_sqes res) ?w0)
        else munmap_region os (res_sqes res) ?w0)
      (add_mset (res_sq_ring res) (add_mset (self_page res) M)) (add_mset (res_fd res) F)"
    using h2 by (simp add: add_mset_commute)
  note h3 = munmap_region_holds [OF h2', of os]
  note h5 = munmap_region_holds [OF close_holds [OF h3, of os], of os]
  show ?thesis using h5 res by (auto simp: release_def Let_def split: if_splits)
qed

lemma release_shared:
  assumes "owns w ptr (Suc (Suc n)) M F"
  shows "owns (release os ptr w) ptr (Suc n) M F"
proof -
  obtain res where res: "w_res w ptr = Some res" "unat (refcount res) = Suc (Suc n)"
    and h: "holds w (M + res_ms res) (add_mset (res_fd res) F)"
    using assms by (auto simp: owns_def)
  have ne: "refcount res \<noteq> 1" "refcount res \<noteq> 0" using res(2) by auto
  then have "unat (refcount res - 1) = Suc n" using res(2) by (simp add: unat_minus_one)
  then show ?thesis using res h ne by (simp add: release_def owns_def res_ms_def Let_def)
qed

lemma retain_owns:
  assumes "owns w ptr n M F" "Suc n < 2 ^ 64"
  shows "owns (retain ptr w) ptr (Suc n) M F"
proof -
  obtain res where res: "w_res w ptr = Some res" "unat (refcount res) = n"
    and h: "holds w (M + res_ms res) (add_mset (res_fd res) F)"
    using assms by (auto simp: owns_def)
  have "unat (refcount res + 1) = Suc n" using res(2) assms(2) by (simp add: unat_word_ariths)
  then show ?thesis using res h by (simp add: retain_def owns_def res_ms_def)
qed

lemma from_params_no_mmap_holds:
  assumes fp: "from_params os n p w = (res, p', w')"
    and h: "holds w M F" and os: "mmap_rejects_empty os" and supported: "p_flags p AND NOT SUPPORTED_MASK = 0"
    and nommap: "contains (p_flags p) SETUP_NO_MMAP"
  shows "case res of Err e \<Rightarrow> holds w' M F
    | Ok r \<Rightarrow> owns w' (r_resources r) 1 M F \<and> r_setup_flags r = p_flags p \<and> do_tag_wf r \<and>
             r_sq_submitted r = r_sq_tail_local r"
proof (cases rule: NoMmapGuard_alloc_cases [OF h os, of n p])
  case (1 e p1 w1)
  then show ?thesis using fp supported nommap by (auto simp: from_params_def Let_def)
next
  case nm: (2 r p1 w1)
  show ?thesis
  proof (cases rule: io_uring_setup_cases [OF nm(2), of os n p1])
    case (1 e p2 w2)
    then show ?thesis using fp supported nommap nm NoMmapGuard_drop_holds [OF 1(2), of os]
      by (auto simp: from_params_def Let_def)
  next
    case su: (2 fd p2 w2)
    let ?g = "(SetupGuard_new fd)\<lparr>g_sq_ring := ring_region r, g_sqes := sqes_region r\<rparr>"
    let ?a = "addr (ring_region r)" and ?q = "addr (sqes_region r)"
    obtain w3 where fin: "finish_setup os fd p2 (p_features p2) (p_flags p) ?g
        (?a, len (ring_region r), ?a, no_region, ?q, len (sqes_region r)) w2 = (res, w3)"
      and w': "w' = w3"
      using fp supported nommap nm su by (auto simp: from_params_def Let_def split: prod.splits)
    have ms: "guard_ms ?g = {#ring_region r, sqes_region r#}"
      using nm by (simp add: guard_ms_def SetupGuard_new_def add_mset_commute)
    show ?thesis unfolding w'
      using finish_setup_holds [OF fin, of M F] su(2) os ms by (simp add: SetupGuard_new_def)
  qed
qed

lemma from_params_mapped_holds:
  assumes fp: "from_params os n p w = (res, p', w')"
    and h: "holds w M F" and os: "mmap_rejects_empty os" and supported: "p_flags p AND NOT SUPPORTED_MASK = 0"
    and mapped: "\<not> contains (p_flags p) SETUP_NO_MMAP"
  shows "case res of Err e \<Rightarrow> holds w' M F
    | Ok r \<Rightarrow> owns w' (r_resources r) 1 M F \<and> r_setup_flags r = p_flags p \<and> do_tag_wf r \<and>
             r_sq_submitted r = r_sq_tail_local r"
proof (cases rule: io_uring_setup_cases [OF h, of os n p])
  case (1 e p2 w2)
  then show ?thesis using fp supported mapped by (auto simp: from_params_def Let_def)
next
  case su: (2 fd p2 w2)
  obtain mr g w3 where mr: "map_rings os fd p2 (p_features p2) (p_flags p) (SetupGuard_new fd) w2
      = (mr, g, w3)" by (metis prod_cases3)
  note mh = map_rings_holds [OF mr su(2) os]
  show ?thesis
  proof (cases mr)
    case (Err e)
    then have "res = Err e" "w' = SetupGuard_drop os g w3"
      using fp supported mapped su mr by (auto simp: from_params_def Let_def)
    then show ?thesis using mh SetupGuard_drop_holds [of w3 M g F os] by simp
  next
    case (Ok regions)
    obtain a l c cr q k where reg: "regions = (a, l, c, cr, q, k)" by (metis prod.exhaust)
    have fin: "finish_setup os fd p2 (p_features p2) (p_flags p) g (a, l, c, cr, q, k) w3 = (res, w')"
      using fp supported mapped su mr Ok reg
      by (auto simp: from_params_def Let_def split: prod.splits)
    from mh Ok [unfolded reg] have h3: "holds w3 (M + guard_ms g) (add_mset fd F)" "g_fd g = fd"
      and ms: "guard_ms g = {#\<lparr>addr = a, len = l\<rparr>, \<lparr>addr = q, len = k\<rparr>#} + region_ms cr"
      by blast+
    show ?thesis by (rule finish_setup_holds [OF fin h3(1) os h3(2) ms])
  qed
qed

lemma from_params_holds:
  assumes fp: "from_params os n p w = (res, p', w')"
    and h: "holds w M F" and os: "mmap_rejects_empty os"
  shows "case res of Err e \<Rightarrow> holds w' M F
    | Ok r \<Rightarrow> owns w' (r_resources r) 1 M F \<and> r_setup_flags r = p_flags p \<and> do_tag_wf r \<and>
             r_sq_submitted r = r_sq_tail_local r"
proof (cases "p_flags p AND NOT SUPPORTED_MASK = 0")
  case False
  then show ?thesis using fp h by (auto simp: from_params_def Let_def)
next
  case True
  then show ?thesis using from_params_no_mmap_holds [OF fp h os] from_params_mapped_holds [OF fp h os] by blast
qed

lemma fill_sq_array_other:
  "(\<And>i. i < n \<Longrightarrow> a \<noteq> base + 4 * of_nat i) \<Longrightarrow> fill_sq_array base n mem a = mem a"
  by (induction n) auto

lemma array_slots_distinct:
  assumes "i < 2 ^ 32" "j < 2 ^ 32" "(4 * of_nat i :: u64) = 4 * of_nat j"
  shows "i = j"
proof -
  have "unat (4 * of_nat k :: u64) = 4 * k" if "k < 2 ^ 32" for k
    using that by (simp add: unat_word_ariths unat_of_nat)
  then show ?thesis using assms by (metis mult_cancel1 zero_neq_numeral)
qed

lemma fill_sq_array_at:
  assumes "i < n" "n \<le> 2 ^ 32"
  shows "fill_sq_array base n mem (base + 4 * of_nat i) = of_nat i"
  using assms
proof (induction n)
  case (Suc n)
  show ?case
  proof (cases "i = n")
    case False
    then have "(4 * of_nat i :: u64) \<noteq> 4 * of_nat n"
      using array_slots_distinct [of i n] Suc.prems by auto
    then show ?thesis using Suc False by simp
  qed simp
qed simp

lemma npot_exp_upper: "n \<le> 2 ^ npot_exp n"
proof (induction n rule: npot_exp.induct)
  case (1 n)
  then show ?case by (cases "n \<le> 1") (use 1 in auto)
qed

lemma npot_exp_least: "n \<le> 2 ^ k \<Longrightarrow> npot_exp n \<le> k"
proof (induction n arbitrary: k rule: npot_exp.induct)
  case (1 n)
  show ?case
  proof (cases "n \<le> 1")
    case False
    then obtain j where k: "k = Suc j" using 1(2) by (cases k) auto
    have "(n + 1) div 2 \<le> 2 ^ j" using 1(2) k by simp
    then show ?thesis using 1(1) False k by (simp del: npot_exp.simps add: npot_exp.simps [of n])
  qed simp
qed

declare npot_exp.simps [simp del]

lemma unat_next_power_of_two:
  assumes "unat n \<le> 2 ^ 31"
  shows "unat (next_power_of_two n) = 2 ^ npot_exp (unat n)"
  using npot_exp_least [OF assms] by (simp add: next_power_of_two_def unat_exp)

lemma next_multiple_of_page:
  assumes "unat x < 2 ^ 63"
  shows "unat (next_multiple_of x 4096) mod 4096 = 0" "unat x \<le> unat (next_multiple_of x 4096)"
    "unat (next_multiple_of x 4096) < unat x + 4096"
proof -
  have m: "unat (x mod 4096) = unat x mod 4096" by (simp add: unat_mod)
  have z: "x mod 4096 = 0 \<longleftrightarrow> unat x mod 4096 = 0" using m by (metis unat_eq_0)
  have "unat (4096 - x mod 4096) = 4096 - unat x mod 4096"
    using m by (subst unat_sub) (simp_all add: word_le_nat_alt less_imp_le)
  then have "unat (x + (4096 - x mod 4096)) = unat x + (4096 - unat x mod 4096)"
    using assms by (simp add: unat_word_ariths)
  then have u: "unat (next_multiple_of x 4096) =
      (if unat x mod 4096 = 0 then unat x else unat x + (4096 - unat x mod 4096))"
    by (simp add: next_multiple_of_def z)
  have r: "unat x mod 4096 < 4096" by simp
  have "unat x + (4096 - unat x mod 4096) = 4096 * (unat x div 4096 + 1)"
    using le_add_diff_inverse2 [OF less_imp_le [OF r]] mult_div_mod_eq [of 4096 "unat x"]
    by (simp only: distrib_left)
  then have "(unat x + (4096 - unat x mod 4096)) mod 4096 = 0" by (simp only: mod_mult_self1_is_0)
  then show "unat (next_multiple_of x 4096) mod 4096 = 0" unfolding u by simp
  show "unat x \<le> unat (next_multiple_of x 4096)" unfolding u by (cases "unat x mod 4096 = 0") (simp_all only: if_True if_False le_add1 order_refl simp_thms)
  show "unat (next_multiple_of x 4096) < unat x + 4096" unfolding u by simp
qed

lemma unat_ucast_times: "k \<le> 64 \<Longrightarrow> unat (ucast (n :: u32) * of_nat k :: u64) = unat n * k"
proof -
  assume k: "k \<le> 64"
  have "unat n * k < 2 ^ 32 * 65" using unsigned_less [of n, where 'a = nat] k
    by (intro mult_strict_mono) auto
  then show ?thesis using k by (simp add: unat_word_ariths unat_of_nat)
qed

text \<open>
  \<open>built b\<close>: \<open>b\<close> is configured from \<open>new\<close> through the builder's named methods, that is
  without handing over raw flags.
\<close>

inductive built :: "IoUringBuilder \<Rightarrow> bool" where
  bt_new: "Builder_new n = Some b \<Longrightarrow> built b"
| bt_iopoll: "built b \<Longrightarrow> built (Builder_iopoll b)"
| bt_sqpoll: "built b \<Longrightarrow> built (Builder_sqpoll ms b)"
| bt_sqpoll_cpu: "built b \<Longrightarrow> built (Builder_sqpoll_cpu c b)"
| bt_cq_entries: "built b \<Longrightarrow> built (Builder_cq_entries k b)"
| bt_clamp: "built b \<Longrightarrow> built (Builder_clamp b)"
| bt_single_issuer: "built b \<Longrightarrow> built (Builder_single_issuer b)"
| bt_coop_taskrun: "built b \<Longrightarrow> built (Builder_coop_taskrun b)"
| bt_defer_taskrun: "built b \<Longrightarrow> built (Builder_defer_taskrun b)"
| bt_attach_wq: "built b \<Longrightarrow> built (Builder_attach_wq f b)"
| bt_r_disabled: "built b \<Longrightarrow> built (Builder_r_disabled b)"
| bt_submit_all: "built b \<Longrightarrow> built (Builder_submit_all b)"
| bt_taskrun_flag: "built b \<Longrightarrow> built (Builder_taskrun_flag b)"
| bt_no_sqarray: "built b \<Longrightarrow> built (Builder_no_sqarray b)"
| bt_no_mmap: "built b \<Longrightarrow> built (Builder_no_mmap b)"

lemma flags_join:
  "(f :: u32) AND NOT m = 0 \<Longrightarrow> g AND NOT m = 0 \<Longrightarrow> (f OR g) AND NOT m = 0"
  by (simp add: bit.conj_disj_distrib2)

lemma supported_flags:
  "SETUP_IOPOLL AND NOT SUPPORTED_MASK = 0"
  "SETUP_SQPOLL AND NOT SUPPORTED_MASK = 0"
  "SETUP_SQ_AFF AND NOT SUPPORTED_MASK = 0"
  "SETUP_CQSIZE AND NOT SUPPORTED_MASK = 0"
  "SETUP_CLAMP AND NOT SUPPORTED_MASK = 0"
  "SETUP_ATTACH_WQ AND NOT SUPPORTED_MASK = 0"
  "SETUP_R_DISABLED AND NOT SUPPORTED_MASK = 0"
  "SETUP_SUBMIT_ALL AND NOT SUPPORTED_MASK = 0"
  "SETUP_COOP_TASKRUN AND NOT SUPPORTED_MASK = 0"
  "SETUP_TASKRUN_FLAG AND NOT SUPPORTED_MASK = 0"
  "SETUP_SINGLE_ISSUER AND NOT SUPPORTED_MASK = 0"
  "SETUP_DEFER_TASKRUN AND NOT SUPPORTED_MASK = 0"
  "SETUP_NO_MMAP AND NOT SUPPORTED_MASK = 0"
  "SETUP_NO_SQARRAY AND NOT SUPPORTED_MASK = 0"
  by (simp_all add: SUPPORTED_MASK_def setup_flag_defs)

lemmas builder_defs = Builder_setup_flags_def Builder_iopoll_def Builder_sqpoll_def
  Builder_sqpoll_cpu_def Builder_cq_entries_def Builder_clamp_def Builder_single_issuer_def
  Builder_coop_taskrun_def Builder_defer_taskrun_def Builder_attach_wq_def Builder_r_disabled_def
  Builder_submit_all_def Builder_taskrun_flag_def Builder_no_sqarray_def Builder_no_mmap_def Let_def

lemma built_flags_supported: "built b \<Longrightarrow> p_flags (b_params b) AND NOT SUPPORTED_MASK = 0"
proof (induction rule: built.induct)
  case (bt_new n b)
  then show ?case by (auto simp: Builder_new_def IoUringParams_default_def split: if_splits)
qed (simp_all add: builder_defs flags_join supported_flags)

section \<open>Properties\<close>

text \<open>C8. A failed setup leaks nothing and frees nothing twice: on every error path of
  \<open>from_params\<close>, whichever system call failed and in every mapping mode, the process ends
  up holding exactly the mappings and descriptors it held before, and has given back
  nothing it did not hold.\<close>

theorem failed_setup_leaks_nothing:
  assumes "from_params os entries p w = (Err e, p', w')"
    and "holds w M F" "mmap_rejects_empty os"
  shows "holds w' M F"
  using from_params_holds [OF assms] by simp

text \<open>C9. A ring that is created and dropped leaves the process as it was: whatever the
  setup flags, the last owner's release gives back the descriptor, the ring mappings, the
  entry array and the resource page exactly once each. A ring that was split is released
  by whichever half goes last, in either order.\<close>

theorem ring_lifetime_releases_all:
  assumes "from_params os entries p w = (Ok r, p', w1)"
    and "holds w M F" "mmap_rejects_empty os"
  shows "holds (snd (IoUring_drop os r (m, w1))) M F \<and>
    (case IoUring_split r w1 of
       (Err _, w2) \<Rightarrow> w2 = w1
     | (Ok (s, c), w2) \<Rightarrow>
         holds (snd (Completer_drop os c (Submitter_drop os s (m, w2)))) M F \<and>
         holds (snd (Submitter_drop os s (Completer_drop os c (m, w2)))) M F)"
proof
  have own: "owns w1 (r_resources r) 1 M F" using from_params_holds [OF assms] by simp
  then show "holds (snd (IoUring_drop os r (m, w1))) M F"
    by (simp add: IoUring_drop_def release_last)
  have "owns (retain (r_resources r) w1) (r_resources r) (Suc 1) M F"
    by (rule retain_owns [OF own]) simp
  from release_last [OF release_shared [OF this [unfolded One_nat_def], folded One_nat_def]]
  show "case IoUring_split r w1 of
       (Err _, w2) \<Rightarrow> w2 = w1
     | (Ok (s, c), w2) \<Rightarrow>
         holds (snd (Completer_drop os c (Submitter_drop os s (m, w2)))) M F \<and>
         holds (snd (Submitter_drop os s (Completer_drop os c (m, w2)))) M F"
    by (simp add: IoUring_split_def Submitter_drop_def Completer_drop_def submitter_half_def
        completer_half_def)
qed

definition ex_os :: "u64 \<Rightarrow> u64 os" where
  "ex_os lim =
     \<lparr>os_setup = (\<lambda>n p (k, mem). (7, p\<lparr>p_sq_entries := n, p_cq_entries := n * 2\<rparr>, k, mem)),
      os_mmap = (\<lambda>a l prot flags fd off (k, mem).
        if l = 0 then (- 22, k, mem) else if k \<ge> lim then (- 12, k, mem)
        else (65536 * (k + 1), k + 1, mem)),
      os_munmap = (\<lambda>a l k. k), os_close = (\<lambda>fd k. k)\<rparr>"

definition ex_world :: "u64 world" where
  "ex_world = \<lparr>w_k = 0, w_mem = (\<lambda>_. 0), w_res = (\<lambda>_. None), w_maps = [], w_fds = [], w_bad = False\<rparr>"

lemma ex_os_rejects_empty [simp]: "mmap_rejects_empty (ex_os lim)"
  by (auto simp: mmap_rejects_empty_def ex_os_def check_def MAX_ERRNO_def)

lemma ex_world_holds [simp]: "holds ex_world {#} {#}"
  by (simp add: holds_def ex_world_def)

theorem failed_setup_leaks_nothing_witness:
  "\<exists>e p' w'. from_params (ex_os 2) 4 IoUringParams_default ex_world = (Err e, p', w') \<and>
     holds w' {#} {#}"
proof -
  have "\<not> is_ok (fst (from_params (ex_os 2) 4 IoUringParams_default ex_world))" by code_simp
  then obtain e p' w' where "from_params (ex_os 2) 4 IoUringParams_default ex_world = (Err e, p', w')"
    by (metis prod.collapse is_ok.simps(1) result.exhaust)
  then show ?thesis using failed_setup_leaks_nothing [OF _ ex_world_holds ex_os_rejects_empty] by blast
qed

theorem ring_lifetime_releases_all_witness:
  "\<exists>r p' w1. from_params (ex_os 9) 4 IoUringParams_default ex_world = (Ok r, p', w1) \<and>
     holds (snd (IoUring_drop (ex_os 9) r (ex_shm, w1))) {#} {#}"
proof -
  have "is_ok (fst (from_params (ex_os 9) 4 IoUringParams_default ex_world))" by code_simp
  then obtain r p' w1 where "from_params (ex_os 9) 4 IoUringParams_default ex_world = (Ok r, p', w1)"
    by (metis prod.collapse is_ok.simps(2) result.exhaust)
  then show ?thesis
    using ring_lifetime_releases_all [OF _ ex_world_holds ex_os_rejects_empty] by blast
qed

text \<open>The index array never redirects a submission. After parsing, the array cell the
  kernel consults for any masked index below the entry count holds that very index, so
  the entry it executes is the one pushed at that slot; no other cell of memory changes.\<close>

lemma sq_array_is_identity:
  "(\<forall>i < p_sq_entries p. snd (parse_sq base sqes p True mem)
       (base + ucast (sqo_array (p_sq_off p)) + 4 * ucast i) = i) \<and>
   ((\<forall>i < p_sq_entries p. a \<noteq> base + ucast (sqo_array (p_sq_off p)) + 4 * ucast i) \<longrightarrow>
     snd (parse_sq base sqes p has_sq_array mem) a = mem a)"
proof (intro conjI allI impI)
  let ?b = "base + ucast (sqo_array (p_sq_off p)) :: usize" and ?n = "unat (p_sq_entries p)"
  have n: "?n \<le> 2 ^ 32" using unsigned_less [of "p_sq_entries p", where 'a = nat] by simp
  show "snd (parse_sq base sqes p True mem) (?b + 4 * ucast i) = i" if "i < p_sq_entries p" for i
    using fill_sq_array_at [of "unat i" ?n ?b mem] that n
    by (simp add: parse_sq_def Let_def word_less_nat_alt)
  assume a: "\<forall>i < p_sq_entries p. a \<noteq> ?b + 4 * ucast i"
  have "a \<noteq> ?b + 4 * of_nat j" if j: "j < ?n" for j
  proof -
    have u: "unat (of_nat j :: u32) = j" using j n by (simp add: unat_of_nat)
    have "(ucast (of_nat j :: u32) :: usize) = of_nat j"
      using j n by (simp add: word_unat_eq_iff unat_of_nat)
    moreover have "(of_nat j :: u32) < p_sq_entries p" using j u by (simp add: word_less_nat_alt)
    ultimately show ?thesis using a by metis
  qed
  then show "snd (parse_sq base sqes p has_sq_array mem) a = mem a"
    using fill_sq_array_other [of ?n a ?b mem] by (simp add: parse_sq_def Let_def)
qed


text \<open>Unsupported setup flags are refused before the kernel is asked, with an error that
  names exactly the offending bits and the process unchanged; and a ring configured
  through the builder's named methods is never refused for its flags.\<close>

lemma unsupported_flags_refused_up_front:
  "(p_flags p AND NOT SUPPORTED_MASK \<noteq> 0 \<longrightarrow>
      from_params os n p w =
        (Err (Setup (InvalidArg (UnsupportedSetupFlags (p_flags p AND NOT SUPPORTED_MASK)))), p, w)) \<and>
   (built b \<longrightarrow> fst (Builder_build os b w) \<noteq> Err (Setup (InvalidArg (UnsupportedSetupFlags f))))"
proof (intro conjI impI)
  show "from_params os n p w =
      (Err (Setup (InvalidArg (UnsupportedSetupFlags (p_flags p AND NOT SUPPORTED_MASK)))), p, w)"
    if "p_flags p AND NOT SUPPORTED_MASK \<noteq> 0"
    using that by (simp add: from_params_def Let_def)
  show "fst (Builder_build os b w) \<noteq> Err (Setup (InvalidArg (UnsupportedSetupFlags f)))" if "built b"
    using built_flags_supported [OF that]
    by (auto simp: Builder_build_def from_params_def Let_def NoMmapGuard_alloc_def alloc_anon_def
        map_rings_def finish_setup_def RingResources_alloc_def
        split: prod.splits result.splits if_splits option.splits)
qed

text \<open>Splitting is refused exactly on thread-bound rings: those that defer task work, and
  those restricted to a single issuer without a polling thread. A refusal hands the ring
  back unchanged with its flags in the error and takes no share of the resources; a
  granted split takes exactly one more share.\<close>

lemma split_refused_iff_thread_bound:
  "(is_ok (fst (IoUring_split r w)) \<longleftrightarrow>
     \<not> bit (r_setup_flags r) 13 \<and> (bit (r_setup_flags r) 12 \<longrightarrow> bit (r_setup_flags r) 1)) \<and>
   IoUring_split r w =
     (if can_split r then (Ok (submitter_half r, completer_half r), retain (r_resources r) w)
      else (Err (r, Setup (InvalidArg (IncompatibleSplit (r_setup_flags r)))), w))"
proof (intro conjI)
  have b: "x AND 2 ^ n \<noteq> 0 \<longleftrightarrow> bit x n" if "n < 32" for x :: u32 and n
    by (simp add: bit_iff_and_push_bit_not_eq_0 push_bit_eq_mult)
  show "is_ok (fst (IoUring_split r w)) \<longleftrightarrow>
     (\<not> bit (r_setup_flags r) 13 \<and> (bit (r_setup_flags r) 12 \<longrightarrow> bit (r_setup_flags r) 1))"
    using b [of 13 "r_setup_flags r"] b [of 12 "r_setup_flags r"] b [of 1 "r_setup_flags r"]
    by (auto simp: IoUring_split_def setup_flags_forbid_split_def setup_flag_defs Let_def)
  show "IoUring_split r w =
     (if can_split r then (Ok (submitter_half r, completer_half r), retain (r_resources r) w)
      else (Err (r, Setup (InvalidArg (IncompatibleSplit (r_setup_flags r)))), w))"
    by (simp add: IoUring_split_def can_split_def)
qed

text \<open>The predicted entry counts are what the kernel's rounding gives: up to \<open>2 ^ 31\<close>
  requested entries the submission count is the smallest power of two that holds them
  (after clamping, when asked for), and the completion count is never smaller.\<close>

lemma predicted_entries_round_up:
  assumes "unat n \<le> 2 ^ 31" "predict_entries n p = (sq, cq)"
  defines "n' \<equiv> if contains (p_flags p) SETUP_CLAMP then min (unat n) 32768 else unat n"
  shows "(\<exists>k. unat sq = 2 ^ k \<and> n' \<le> 2 ^ k \<and> (\<forall>j. n' \<le> 2 ^ j \<longrightarrow> k \<le> j)) \<and> sq \<le> cq"
proof
  let ?n = "if n > IORING_MAX_ENTRIES \<and> contains (p_flags p) SETUP_CLAMP then IORING_MAX_ENTRIES else n"
  have n: "unat ?n = n'"
    by (simp add: n'_def IORING_MAX_ENTRIES_def word_less_nat_alt min_def)
  have sq: "sq = next_power_of_two ?n"
    using assms(2) by (simp add: predict_entries_def Let_def split: if_splits)
  have "unat ?n \<le> 2 ^ 31" using assms(1) n by (simp add: n'_def split: if_splits)
  then have u: "unat sq = 2 ^ npot_exp n'" using unat_next_power_of_two [of ?n] sq n by simp
  show "\<exists>k. unat sq = 2 ^ k \<and> n' \<le> 2 ^ k \<and> (\<forall>j. n' \<le> 2 ^ j \<longrightarrow> k \<le> j)"
    using u npot_exp_upper [of n'] npot_exp_least [of n'] by blast
  have "(\<exists>c. cq = max c sq) \<or> cq = saturating_mul2 sq"
    using assms(2) by (auto simp: predict_entries_def Let_def split: if_splits)
  moreover have "sq \<le> saturating_mul2 sq"
  proof (cases "sq > 0x7FFFFFFF")
    case False
    then have "unat sq \<le> 0x7FFFFFFF" by (simp add: word_less_nat_alt)
    then have "unat (sq * 2) = unat sq * 2" by (simp add: unat_word_ariths)
    then show ?thesis using False by (simp add: saturating_mul2_def word_le_nat_alt)
  next
    case True
    have "unat sq < 2 ^ 32" using unsigned_less [of sq, where 'a = nat] by simp
    then show ?thesis using True by (simp add: saturating_mul2_def word_le_nat_alt)
  qed
  ultimately show "sq \<le> cq" by auto
qed

end
