(* ===== verification/Owned_Core.thy ===== *)
theory Owned_Core
  imports Setup
begin

text \<open>
  The owned-request layer's foundations (\<open>src/owned/identity.rs\<close>, \<open>event.rs\<close>,
  \<open>buffer.rs\<close>, \<open>queue.rs\<close> and the receipts of \<open>request.rs\<close>): identities, receipts minted
  from reaped completions, storage the kernel may use while its owner moves, and the two
  halves of an owned ring.

  The interfaces are stated here as locales. \<open>stable_buffer\<close> is the contract of the
  traits \<open>StableBuffer\<close> and \<open>StableBufferMut\<close>; \<open>ticket\<close> is what every kind of owned
  request promises: the entry it builds carries the request's identity, a refused push
  gives the request back, and a receipt unlocks the ticket exactly when it names it. Its
  first half, \<open>stamped_request\<close>, also holds of requests that stay armed over many
  completions (\<open>armed_request\<close>).
\<close>

section \<open>Identities (\<open>identity.rs\<close>)\<close>

datatype RingId = RingId (ring_raw: u32)
datatype RequestId = RequestId (id_raw: u64)

text \<open>The process-wide counter behind \<open>RingId::next\<close> is passed as state.\<close>

definition RingId_next :: "u32 \<Rightarrow> RingId \<times> u32" where
  "RingId_next n = (RingId n, n + 1)"

definition RequestIdSource_new :: u64 where "RequestIdSource_new = 1"

definition RequestIdSource_next :: "u64 \<Rightarrow> RequestId \<times> u64" where
  "RequestIdSource_next n = (RequestId n, n + 1)"

section \<open>Receipts and events (\<open>request.rs\<close>, \<open>event.rs\<close>)\<close>

record Receipt =
  rc_ring :: RingId
  rc_id :: RequestId
  rc_result :: i32
  rc_flags :: u32

record PartialReceipt =
  pr_ring :: RingId
  pr_id :: RequestId
  pr_result :: i32
  pr_flags :: u32

datatype Event = Complete Receipt | Partial PartialReceipt

definition Receipt_belongs_to :: "Receipt \<Rightarrow> RingId \<Rightarrow> RequestId \<Rightarrow> bool" where
  "Receipt_belongs_to r ring i \<longleftrightarrow> id_raw (rc_id r) = id_raw i \<and> ring_raw (rc_ring r) = ring_raw ring"

definition PartialReceipt_belongs_to :: "PartialReceipt \<Rightarrow> RingId \<Rightarrow> RequestId \<Rightarrow> bool" where
  "PartialReceipt_belongs_to r ring i \<longleftrightarrow>
     id_raw (pr_id r) = id_raw i \<and> ring_raw (pr_ring r) = ring_raw ring"

definition PartialReceipt_buffer_id :: "PartialReceipt \<Rightarrow> u16 option" where
  "PartialReceipt_buffer_id p = CqeFlags_buffer_id (pr_flags p)"

fun Event_into_receipt :: "Event \<Rightarrow> Receipt option" where
  "Event_into_receipt (Complete r) = Some r"
| "Event_into_receipt (Partial p) = None"

fun Event_id :: "Event \<Rightarrow> RequestId" where
  "Event_id (Complete r) = rc_id r"
| "Event_id (Partial p) = pr_id p"

fun Event_ring :: "Event \<Rightarrow> RingId" where
  "Event_ring (Complete r) = rc_ring r"
| "Event_ring (Partial p) = pr_ring p"

fun Event_raw_result :: "Event \<Rightarrow> i32" where
  "Event_raw_result (Complete r) = rc_result r"
| "Event_raw_result (Partial p) = pr_result p"

fun Event_flags :: "Event \<Rightarrow> u32" where
  "Event_flags (Complete r) = rc_flags r"
| "Event_flags (Partial p) = pr_flags p"

fun Event_is_terminal :: "Event \<Rightarrow> bool" where
  "Event_is_terminal (Complete r) = True"
| "Event_is_terminal (Partial p) = False"

fun Event_belongs_to :: "Event \<Rightarrow> RingId \<Rightarrow> RequestId \<Rightarrow> bool" where
  "Event_belongs_to (Complete r) ring i = Receipt_belongs_to r ring i"
| "Event_belongs_to (Partial p) ring i = PartialReceipt_belongs_to p ring i"

lemma Receipt_belongs_to_iff [simp]:
  "Receipt_belongs_to r ring i \<longleftrightarrow> rc_id r = i \<and> rc_ring r = ring"
  by (auto simp: Receipt_belongs_to_def RequestId.expand RingId.expand)

lemma PartialReceipt_belongs_to_iff [simp]:
  "PartialReceipt_belongs_to r ring i \<longleftrightarrow> pr_id r = i \<and> pr_ring r = ring"
  by (auto simp: PartialReceipt_belongs_to_def RequestId.expand RingId.expand)

lemma Event_belongs_to_iff [simp]:
  "Event_belongs_to e ring i \<longleftrightarrow> Event_id e = i \<and> Event_ring e = ring"
  by (cases e) simp_all

section \<open>Stable storage (\<open>buffer.rs\<close>)\<close>

text \<open>The methods of \<open>StableBuffer\<close> and \<open>StableBufferMut\<close>, as a dictionary.\<close>

record 'b stable =
  stable_ptr :: "'b \<Rightarrow> u64"
  stable_len :: "'b \<Rightarrow> usize"
  stable_mut_ptr :: "'b \<Rightarrow> u64"

text \<open>What an implementation promises of the values that exist: the bytes it names do not
  wrap the address space, and both pointers name the same bytes.\<close>

locale stable_buffer =
  fixes sb :: "'b stable"
    and valid :: "'b \<Rightarrow> bool"
  assumes in_space: "valid b \<Longrightarrow> unat (stable_ptr sb b) + unat (stable_len sb b) \<le> 2 ^ 64"
    and mut_agrees: "valid b \<Longrightarrow> stable_mut_ptr sb b = stable_ptr sb b"

record MmapBuffer =
  mb_addr :: usize
  mb_len :: usize
  mb_mapped :: usize

definition MMAP_PAGE :: usize where "MMAP_PAGE = 4096"

definition checked_next_multiple_of :: "usize \<Rightarrow> usize \<Rightarrow> usize option" where
  "checked_next_multiple_of x n =
    (let r = x mod n
     in if r = 0 then Some x
        else if unat x + unat (n - r) < 2 ^ 64 then Some (x + (n - r)) else None)"

definition MmapBuffer_with_capacity ::
  "'k os \<Rightarrow> usize \<Rightarrow> 'k world \<Rightarrow> (MmapBuffer, Error) result \<times> 'k world" where
  "MmapBuffer_with_capacity os l w =
    (if l = 0 then (Err (Setup (InvalidArg BufferSizeZero)), w)
     else case checked_next_multiple_of l MMAP_PAGE of
       None \<Rightarrow> (Err (Setup (InvalidArg BufferRingSizeOverflow)), w)
     | Some mapped \<Rightarrow>
         (case mmap os 0 mapped (PROT_READ OR PROT_WRITE) (MAP_PRIVATE OR MAP_ANONYMOUS) (- 1) 0 w of
            (Err e, w) \<Rightarrow> (Err (Setup (SetupSyscall e)), w)
          | (Ok a, w) \<Rightarrow> (Ok \<lparr>mb_addr = a, mb_len = l, mb_mapped = mapped\<rparr>, w)))"

definition MmapBuffer_drop :: "'k os \<Rightarrow> MmapBuffer \<Rightarrow> 'k world \<Rightarrow> 'k world" where
  "MmapBuffer_drop os b w = munmap os (mb_addr b) (mb_mapped b) w"

definition mmap_stable :: "MmapBuffer stable" where
  "mmap_stable = \<lparr>stable_ptr = mb_addr, stable_len = mb_len, stable_mut_ptr = mb_addr\<rparr>"

definition MmapBuffer_valid :: "MmapBuffer \<Rightarrow> bool" where
  "MmapBuffer_valid b \<longleftrightarrow> mb_len b \<le> mb_mapped b \<and> unat (mb_addr b) + unat (mb_mapped b) \<le> 2 ^ 64"

interpretation mmap_buffer: stable_buffer mmap_stable MmapBuffer_valid
  by unfold_locales (auto simp: mmap_stable_def MmapBuffer_valid_def word_le_nat_alt)

section \<open>The halves of an owned ring (\<open>queue.rs\<close>)\<close>

record OwnedSubmitter =
  ow_inner :: Submitter
  ow_ring :: RingId
  ow_ids :: u64

record OwnedCompleter =
  oc_inner :: Completer
  oc_ring :: RingId

text \<open>
  The body that every \<open>push_*\<close> method of \<open>OwnedSubmitter\<close> has: mint an id, build the entry
  and the ticket, queue the entry, and on a full queue give the request back. Requests
  that own storage are reclaimed from the ticket; the others are plain copies.
\<close>

definition owned_push ::
  "('p \<Rightarrow> RingId \<Rightarrow> RequestId \<Rightarrow> IoUringSqe \<times> 't) \<Rightarrow> ('p \<Rightarrow> 't \<Rightarrow> 'p) \<Rightarrow> 'p \<Rightarrow>
   OwnedSubmitter \<Rightarrow> shm \<Rightarrow> ('t, 'p \<times> Error) result \<times> OwnedSubmitter \<times> shm" where
  "owned_push into_pending give_back request ow m =
    (case RequestIdSource_next (ow_ids ow) of (i, ids) \<Rightarrow>
      (case into_pending request (ow_ring ow) i of (sqe, pending) \<Rightarrow>
        (case Submitter_push sqe (ow_inner ow) m of
           (Ok _, s, m) \<Rightarrow> (Ok pending, ow\<lparr>ow_inner := s, ow_ids := ids\<rparr>, m)
         | (Err e, s, m) \<Rightarrow>
             (Err (give_back request pending, e), ow\<lparr>ow_inner := s, ow_ids := ids\<rparr>, m))))"

definition OwnedSubmitter_submit ::
  "'k enter_fn \<Rightarrow> OwnedSubmitter \<Rightarrow> 'k \<times> shm \<Rightarrow> (u32, Error) result \<times> OwnedSubmitter \<times> 'k \<times> shm" where
  "OwnedSubmitter_submit enter ow w =
    (case Submitter_submit enter (ow_inner ow) w of (r, s, w) \<Rightarrow> (r, ow\<lparr>ow_inner := s\<rparr>, w))"

definition OwnedSubmitter_submit_and_wait ::
  "'k enter_fn \<Rightarrow> u32 \<Rightarrow> OwnedSubmitter \<Rightarrow> 'k \<times> shm \<Rightarrow>
   (u32, Error) result \<times> OwnedSubmitter \<times> 'k \<times> shm" where
  "OwnedSubmitter_submit_and_wait enter min_complete ow w =
    (case Submitter_submit_and_wait enter min_complete (ow_inner ow) w of
       (r, s, w) \<Rightarrow> (r, ow\<lparr>ow_inner := s\<rparr>, w))"

definition OwnedSubmitter_space_left :: "OwnedSubmitter \<Rightarrow> shm \<Rightarrow> u32" where
  "OwnedSubmitter_space_left ow m = Submitter_sq_space_left (ow_inner ow) m"

definition reap_event :: "OwnedCompleter \<Rightarrow> shm \<Rightarrow> (Event \<times> OwnedCompleter) option" where
  "reap_event oc m =
    (case Completer_complete (oc_inner oc) m of
       None \<Rightarrow> None
     | Some (cqe, c) \<Rightarrow>
         (let i = RequestId (user_data cqe); oc = oc\<lparr>oc_inner := c\<rparr>
          in if contains (cflags cqe) CQE_MORE
             then Some (Partial \<lparr>pr_ring = oc_ring oc, pr_id = i, pr_result = res_code cqe,
                                 pr_flags = cflags cqe\<rparr>, oc)
             else Some (Complete \<lparr>rc_ring = oc_ring oc, rc_id = i, rc_result = res_code cqe,
                                  rc_flags = cflags cqe\<rparr>, oc)))"

text \<open>The loop of \<open>reap\<close>: partial completions are passed over.\<close>

function reap :: "OwnedCompleter \<Rightarrow> shm \<Rightarrow> Receipt option \<times> OwnedCompleter" where
  "reap oc m =
    (case reap_event oc m of
       None \<Rightarrow> (None, oc)
     | Some (Complete r, oc') \<Rightarrow> (Some r, oc')
     | Some (Partial p, oc') \<Rightarrow> reap oc' m)"
  by pat_completeness auto
termination
proof (relation "measure (\<lambda>(oc, m). unat (m_cq_tail m - c_cq_head_local (oc_inner oc)))")
  fix oc m x e oc' p
  assume "reap_event oc m = Some x" "(e, oc') = x" "e = Partial p"
  then obtain y where "Completer_complete (oc_inner oc) m = Some (y, oc_inner oc')"
    by (auto simp: reap_event_def Let_def split: option.splits if_splits)
  then show "((oc', m), oc, m) \<in> measure (\<lambda>(oc, m). unat (m_cq_tail m - c_cq_head_local (oc_inner oc)))"
    using unat_head_step [of "m_cq_tail m" "c_cq_head_local (oc_inner oc)"]
    by (force simp: Completer_complete_Some)
qed simp

declare reap.simps [simp del]

definition OwnedCompleter_wait ::
  "'k enter_fn \<Rightarrow> u32 \<Rightarrow> OwnedCompleter \<Rightarrow> 'k \<times> shm \<Rightarrow> (unit, Error) result \<times> 'k \<times> shm" where
  "OwnedCompleter_wait enter min_complete oc w = Completer_wait enter min_complete (oc_inner oc) w"

definition wait_one ::
  "'k enter_fn \<Rightarrow> OwnedCompleter \<Rightarrow> 'k \<times> shm \<Rightarrow> (Receipt, Error) result \<times> OwnedCompleter \<times> 'k \<times> shm" where
  "wait_one enter oc w =
    (case OwnedCompleter_wait enter 1 oc w of
       (Err e, w) \<Rightarrow> (Err e, oc, w)
     | (Ok _, w) \<Rightarrow>
         (case reap oc (snd w) of (r, oc) \<Rightarrow>
            (ok_or (Completion_error NoCompletion) r, oc, w)))"

definition OwnedCompleter_sync :: "OwnedCompleter \<Rightarrow> shm \<Rightarrow> shm" where
  "OwnedCompleter_sync oc m = Completer_sync_cq (oc_inner oc) m"

definition split_owned ::
  "IoUring \<Rightarrow> u32 \<Rightarrow> 'k world \<Rightarrow>
   (OwnedSubmitter \<times> OwnedCompleter, IoUring \<times> Error) result \<times> u32 \<times> 'k world" where
  "split_owned r n w =
    (case RingId_next n of (ring, n) \<Rightarrow>
      (case IoUring_split r w of
         (Err e, w) \<Rightarrow> (Err e, n, w)
       | (Ok (s, c), w) \<Rightarrow>
           (Ok (\<lparr>ow_inner = s, ow_ring = ring, ow_ids = RequestIdSource_new\<rparr>,
                \<lparr>oc_inner = c, oc_ring = ring\<rparr>), n, w)))"

section \<open>Reaping\<close>

definition terminal :: "Completion \<Rightarrow> bool" where
  "terminal x \<longleftrightarrow> \<not> contains (cflags x) CQE_MORE"

definition receipt_of :: "RingId \<Rightarrow> Completion \<Rightarrow> Receipt" where
  "receipt_of ring x =
     \<lparr>rc_ring = ring, rc_id = RequestId (user_data x), rc_result = res_code x, rc_flags = cflags x\<rparr>"

abbreviation owned_pending :: "OwnedCompleter \<Rightarrow> shm \<Rightarrow> Completion list" where
  "owned_pending oc m \<equiv> com_pending (oc_inner oc, m)"

lemma reap_event_cases:
  assumes "com_inv (oc_inner oc, m)"
  obtains "reap_event oc m = None" "owned_pending oc m = []"
  | x e oc' where "reap_event oc m = Some (e, oc')" "owned_pending oc m = x # owned_pending oc' m"
      "com_inv (oc_inner oc', m)" "oc_ring oc' = oc_ring oc" "c_cq_mask (oc_inner oc') = c_cq_mask (oc_inner oc)"
      "c_fd (oc_inner oc') = c_fd (oc_inner oc)"
      "terminal x \<Longrightarrow> e = Complete (receipt_of (oc_ring oc) x)"
      "\<not> terminal x \<Longrightarrow> \<exists>p. e = Partial p"
      "Event_id e = RequestId (user_data x)" "Event_ring e = oc_ring oc" "Event_flags e = cflags x"
      "Event_raw_result e = res_code x"
proof (cases "Completer_complete (oc_inner oc) m")
  case None
  then show thesis using that(1) Completer_complete_cases(1) [OF assms] by (simp add: reap_event_def)
next
  case (Some xc)
  obtain x c' where xc: "xc = (x, c')" by fastforce
  note s = Completer_complete_cases(2) [OF assms Some [unfolded xc]]
  have "c_cq_mask c' = c_cq_mask (oc_inner oc)" "c_fd c' = c_fd (oc_inner oc)"
    using Some by (auto simp: xc Completer_complete_Some)
  then show thesis
    using that(2) [of _ "oc\<lparr>oc_inner := c'\<rparr>" x] Some xc s
    by (cases "terminal x") (auto simp: reap_event_def terminal_def receipt_of_def Let_def)
qed

text \<open>\<open>reap\<close> finds the first terminal completion and discards what stands before it.\<close>

lemma reap_spec:
  assumes "com_inv (oc_inner oc, m)"
  shows "(fst (reap oc m) = None \<longrightarrow>
      (\<forall>x\<in>set (owned_pending oc m). \<not> terminal x) \<and> owned_pending (snd (reap oc m)) m = []) \<and>
    (\<forall>r. fst (reap oc m) = Some r \<longrightarrow>
      (\<exists>xs y. owned_pending oc m = xs @ y # owned_pending (snd (reap oc m)) m \<and>
         (\<forall>x\<in>set xs. \<not> terminal x) \<and> terminal y \<and> r = receipt_of (oc_ring oc) y)) \<and>
    com_inv (oc_inner (snd (reap oc m)), m)"
  using assms
proof (induction oc m rule: reap.induct)
  case (1 oc m)
  show ?case
  proof (cases rule: reap_event_cases [OF 1(2)])
    case 1
    then show ?thesis using \<open>com_inv (oc_inner oc, m)\<close> by (simp add: reap.simps)
  next
    case ev: (2 x e oc')
    show ?thesis
    proof (cases "terminal x")
      case True
      then show ?thesis using ev
        by (auto simp: reap.simps intro: exI [of _ "[]"])
    next
      case False
      then obtain p where p: "e = Partial p" using ev by blast
      have rr: "reap oc m = reap oc' m" using ev p by (subst reap.simps) simp
      have IH: "(fst (reap oc' m) = None \<longrightarrow>
          (\<forall>x\<in>set (owned_pending oc' m). \<not> terminal x) \<and> owned_pending (snd (reap oc' m)) m = []) \<and>
        (\<forall>r. fst (reap oc' m) = Some r \<longrightarrow>
          (\<exists>xs y. owned_pending oc' m = xs @ y # owned_pending (snd (reap oc' m)) m \<and>
             (\<forall>x\<in>set xs. \<not> terminal x) \<and> terminal y \<and> r = receipt_of (oc_ring oc') y)) \<and>
        com_inv (oc_inner (snd (reap oc' m)), m)"
        using 1(1) [OF ev(1) refl p] ev(3) by blast
      show ?thesis
      proof (cases "fst (reap oc' m)")
        case None
        then show ?thesis using IH ev False by (simp add: rr)
      next
        case (Some r)
        then obtain xs y where "owned_pending oc' m = xs @ y # owned_pending (snd (reap oc' m)) m"
          "\<forall>x\<in>set xs. \<not> terminal x" "terminal y" "r = receipt_of (oc_ring oc') y" using IH by blast
        then have "owned_pending oc m = (x # xs) @ y # owned_pending (snd (reap oc' m)) m \<and>
          (\<forall>x\<in>set (x # xs). \<not> terminal x) \<and> terminal y \<and> r = receipt_of (oc_ring oc) y"
          using ev False by simp
        then show ?thesis using Some IH unfolding rr by (metis option.distinct(1) option.inject)
      qed
    qed
  qed
qed

section \<open>The contract of a ticket\<close>

locale stamped_request =
  fixes into_pending :: "'p \<Rightarrow> RingId \<Rightarrow> RequestId \<Rightarrow> IoUringSqe \<times> 't"
    and give_back :: "'p \<Rightarrow> 't \<Rightarrow> 'p"
    and t_ring :: "'t \<Rightarrow> RingId"
    and t_id :: "'t \<Rightarrow> RequestId"
    and p_store :: "'p \<Rightarrow> 'b"
    and t_store :: "'t \<Rightarrow> 'b"
  assumes stamped: "into_pending p ring i = (sqe, t) \<Longrightarrow>
      sqe_user_data sqe = id_raw i \<and> t_ring t = ring \<and> t_id t = i \<and> t_store t = p_store p"
    and given_back: "into_pending p ring i = (sqe, t) \<Longrightarrow> give_back p t = p"
begin

text \<open>A push either queues one entry that carries a new id, or changes nothing but the id
  counter and returns the request it was given.\<close>

lemma push_cases:
  assumes "sub_inv (ow_inner ow, m)"
  obtains t sqe s m' where "owned_push into_pending give_back p ow m =
        (Ok t, ow\<lparr>ow_inner := s, ow_ids := ow_ids ow + 1\<rparr>, m')"
      "Submitter_push sqe (ow_inner ow) m = (Ok (), s, m')" "sub_inv (s, m')"
      "sub_queued (s, m') = sub_queued (ow_inner ow, m) @ [sqe]"
      "sqe_user_data sqe = ow_ids ow" "t_ring t = ow_ring ow" "t_id t = RequestId (ow_ids ow)"
      "t_store t = p_store p"
      "length (sub_queued (ow_inner ow, m)) < unat (s_sq_mask (ow_inner ow) + 1)"
  | "owned_push into_pending give_back p ow m =
        (Err (p, Submit QueueFull), ow\<lparr>ow_ids := ow_ids ow + 1\<rparr>, m)"
      "length (sub_queued (ow_inner ow, m)) = unat (s_sq_mask (ow_inner ow) + 1)"
proof -
  obtain sqe t where ip: "into_pending p (ow_ring ow) (RequestId (ow_ids ow)) = (sqe, t)" by fastforce
  note st = stamped [OF ip] and gb = given_back [OF ip]
  show thesis
  proof (cases rule: sq.push_cases [OF assms, of sqe])
    case (1 sm')
    obtain s m' where sm': "sm' = (s, m')" by fastforce
    with 1 have sp: "Submitter_push sqe (ow_inner ow) m = (Ok (), s, m')"
      using Submitter_push_room [OF assms] by (auto simp: sub_push_def)
    then have "owned_push into_pending give_back p ow m =
        (Ok t, ow\<lparr>ow_inner := s, ow_ids := ow_ids ow + 1\<rparr>, m')"
      by (simp add: owned_push_def RequestIdSource_next_def ip)
    then show thesis using that(1) sp 1 sm' st by auto
  next
    case 2
    then have sp: "Submitter_push sqe (ow_inner ow) m = (Err (Submit QueueFull), ow_inner ow, m)"
      using Submitter_push_full [OF assms] by simp
    have "ow\<lparr>ow_inner := ow_inner ow, ow_ids := ow_ids ow + 1\<rparr> = ow\<lparr>ow_ids := ow_ids ow + 1\<rparr>" by simp
    then show thesis using that(2) sp 2 ip gb by (simp add: owned_push_def RequestIdSource_next_def)
  qed
qed

end

locale ticket = stamped_request into_pending give_back t_ring t_id p_store t_store
  for into_pending :: "'p \<Rightarrow> RingId \<Rightarrow> RequestId \<Rightarrow> IoUringSqe \<times> 't"
    and give_back :: "'p \<Rightarrow> 't \<Rightarrow> 'p"
    and t_ring :: "'t \<Rightarrow> RingId"
    and t_id :: "'t \<Rightarrow> RequestId"
    and p_store :: "'p \<Rightarrow> 'b"
    and t_store :: "'t \<Rightarrow> 'b" +
  fixes redeem :: "'t \<Rightarrow> Receipt \<Rightarrow> ('d, 't \<times> Receipt) result"
    and d_store :: "'d \<Rightarrow> 'b"
  assumes redeem_own: "rc_ring r = t_ring t \<Longrightarrow> rc_id r = t_id t \<Longrightarrow>
      \<exists>d. redeem t r = Ok d \<and> d_store d = t_store t"
    and redeem_other: "\<not> (rc_ring r = t_ring t \<and> rc_id r = t_id t) \<Longrightarrow> redeem t r = Err (t, r)"
begin

lemma redeem_iff: "is_ok (redeem t r) \<longleftrightarrow> rc_ring r = t_ring t \<and> rc_id r = t_id t"
  using redeem_own [of r t] redeem_other [of r t] by fastforce

lemma redeem_Ok: "redeem t r = Ok d \<Longrightarrow> rc_ring r = t_ring t \<and> rc_id r = t_id t \<and> d_store d = t_store t"
  using redeem_own [of r t] redeem_other [of r t] by fastforce

end

text \<open>A request that completes many times stays armed: it takes every event that names it and
  hands back any other.\<close>

locale armed_request = stamped_request into_pending give_back t_ring t_id p_store t_store
  for into_pending :: "'p \<Rightarrow> RingId \<Rightarrow> RequestId \<Rightarrow> IoUringSqe \<times> 't"
    and give_back :: "'p \<Rightarrow> 't \<Rightarrow> 'p"
    and t_ring :: "'t \<Rightarrow> RingId"
    and t_id :: "'t \<Rightarrow> RequestId"
    and p_store :: "'p \<Rightarrow> 'b"
    and t_store :: "'t \<Rightarrow> 'b" +
  fixes record_event :: "'t \<Rightarrow> Event \<Rightarrow> ('d, Event) result"
    and armed :: "'d \<Rightarrow> bool"
  assumes record_own: "Event_ring e = t_ring t \<Longrightarrow> Event_id e = t_id t \<Longrightarrow>
      \<exists>d. record_event t e = Ok d \<and> armed d = (\<not> Event_is_terminal e)"
    and record_other: "\<not> (Event_ring e = t_ring t \<and> Event_id e = t_id t) \<Longrightarrow> record_event t e = Err e"
begin

lemma record_iff: "is_ok (record_event t e) \<longleftrightarrow> Event_ring e = t_ring t \<and> Event_id e = t_id t"
  using record_own [of e t] record_other [of e t] by fastforce

end

section \<open>Properties\<close>

text \<open>C25. \<open>reap\<close> always returns, and returns the first terminal completion. If every pending
  completion promises more, it consumes them all and finds nothing; otherwise it discards
  the partial completions in front of the first terminal one, consumes that one and
  returns a receipt with its id, result and flags and this ring's identity; whatever is
  behind it stays pending.\<close>

theorem reap_first_terminal:
  assumes "com_inv (oc_inner oc, m)"
  shows "case reap oc m of
      (None, oc') \<Rightarrow> (\<forall>x\<in>set (owned_pending oc m). \<not> terminal x) \<and> owned_pending oc' m = []
    | (Some r, oc') \<Rightarrow> (\<exists>xs y. owned_pending oc m = xs @ y # owned_pending oc' m \<and>
         (\<forall>x\<in>set xs. \<not> terminal x) \<and> terminal y \<and> r = receipt_of (oc_ring oc) y)"
proof -
  obtain r oc' where r: "reap oc m = (r, oc')" by fastforce
  show ?thesis using reap_spec [OF assms] by (cases r) (simp_all add: r)
qed

lemma checked_page_multiple:
  assumes n: "checked_next_multiple_of l MMAP_PAGE = Some n"
  shows "n mod 4096 = 0" "unat l \<le> unat n" "unat n < unat l + 4096"
proof -
  let ?r = "l mod 4096"
  have r: "unat ?r < 4096" "unat ?r = unat l mod 4096" by (simp_all add: unat_mod)
  have "unat (4096 - ?r) = 4096 - unat ?r" using r(1) by (simp add: unat_sub word_le_nat_alt)
  then have n': "unat n = (if unat ?r = 0 then unat l else unat l + (4096 - unat ?r))"
  proof (cases "?r = 0")
    case True
    then show ?thesis using n by (simp add: checked_next_multiple_of_def MMAP_PAGE_def)
  next
    case nz: False
    then have "n = l + (4096 - ?r)" "unat l + unat (4096 - ?r) < 2 ^ 64"
      using n by (auto simp: checked_next_multiple_of_def MMAP_PAGE_def Let_def split: if_splits)
    then have "unat n = unat l + unat (4096 - ?r)" by (simp add: unat_word_ariths)
    moreover have "unat ?r \<noteq> 0" using nz by (simp only: unat_eq_zero simp_thms)
    ultimately show ?thesis using \<open>unat (4096 - ?r) = 4096 - unat ?r\<close> by (simp only: if_False)
  qed
  have "unat n mod 4096 = 0"
  proof (cases "unat ?r = 0")
    case True
    then show ?thesis using n' r by simp
  next
    case False
    have "unat l = 4096 * (unat l div 4096) + unat ?r" using r(2) by simp
    then have "unat n = 4096 * (unat l div 4096 + 1)" using n' False r(1) by simp
    then show ?thesis by simp
  qed
  then show "n mod 4096 = 0" by (simp add: word_unat_eq_iff unat_mod)
  show "unat l \<le> unat n" "unat n < unat l + 4096" using n' r by auto
qed

text \<open>An anonymous mapping used as a buffer is the caller's and only the caller's.
  Allocation fails without side effect on the holdings, for a zero length, for a length
  that cannot be rounded up to whole pages and for a refused mapping; otherwise the buffer
  has the requested length inside a mapping of whole pages, and dropping it gives exactly
  that mapping back.\<close>

lemma mmap_buffer_lifetime:
  assumes "holds w M F" "mmap_rejects_empty os"
  shows "case MmapBuffer_with_capacity os l w of
      (Err e, w') \<Rightarrow> holds w' M F
    | (Ok b, w') \<Rightarrow> mb_len b = l \<and> l \<noteq> 0 \<and> unat (mb_len b) \<le> unat (mb_mapped b) \<and>
        unat (mb_mapped b) < unat l + 4096 \<and> mb_mapped b mod 4096 = 0 \<and>
        holds (MmapBuffer_drop os b w') M F"
proof (cases "l = 0 \<or> checked_next_multiple_of l MMAP_PAGE = None")
  case True
  then show ?thesis using assms(1) by (auto simp: MmapBuffer_with_capacity_def split: option.splits)
next
  case False
  then obtain n where n: "checked_next_multiple_of l MMAP_PAGE = Some n" and l: "l \<noteq> 0" by auto
  note page = checked_page_multiple [OF n]
  have "case MmapBuffer_with_capacity os l w of (Err e, w') \<Rightarrow> holds w' M F
    | (Ok b, w') \<Rightarrow> mb_len b = l \<and> mb_mapped b = n \<and> holds (MmapBuffer_drop os b w') M F"
  proof (cases rule: mmap_cases [OF assms, of 0 n "PROT_READ OR PROT_WRITE" "MAP_PRIVATE OR MAP_ANONYMOUS" "- 1" 0])
    case (1 e w')
    then show ?thesis using n l by (simp add: MmapBuffer_with_capacity_def)
  next
    case (2 v w')
    then show ?thesis using n l munmap_region_holds [OF 2(2), of os]
      by (simp add: MmapBuffer_with_capacity_def MmapBuffer_drop_def munmap_region_def)
  qed
  then show ?thesis using l page by (auto split: prod.splits result.splits)
qed

section \<open>Examples\<close>

text \<open>A completion queue with a partial and a terminal completion of one request.\<close>

definition ex_two_cqes :: shm where
  "ex_two_cqes = ex_shm\<lparr>m_cq_tail := 1,
     m_cqes := [ex_cqe 9 4, (ex_cqe 9 64)\<lparr>cqe_flags := CQE_MORE\<rparr>]\<rparr>"

definition ex_completer :: OwnedCompleter where
  "ex_completer = \<lparr>oc_inner = completer_half ex_ring, oc_ring = RingId 5\<rparr>"

theorem reap_first_terminal_witness:
  "com_inv (oc_inner ex_completer, ex_two_cqes) \<and>
   (\<exists>r oc'. reap ex_completer ex_two_cqes = (Some r, oc') \<and> rc_id r = RequestId 9 \<and> rc_result r = 4 \<and>
      (\<exists>xs y. owned_pending ex_completer ex_two_cqes = xs @ y # owned_pending oc' ex_two_cqes \<and> terminal y))"
proof -
  have inv: "com_inv (oc_inner ex_completer, ex_two_cqes)"
    by (auto simp: com_inv_def cq_wf_def ex_completer_def completer_half_def ex_two_cqes_def ex_ring_def
        ex_shm_def intro!: exI [of _ 1] pow2_mask_1)
  have "case reap ex_completer ex_two_cqes of (Some r, _) \<Rightarrow> rc_id r = RequestId 9 \<and> rc_result r = 4 | _ \<Rightarrow> False"
    by code_simp
  then obtain r oc' where r: "reap ex_completer ex_two_cqes = (Some r, oc')" "rc_id r = RequestId 9" "rc_result r = 4"
    by (auto split: prod.splits option.splits)
  then show ?thesis using reap_first_terminal [OF inv] inv by auto
qed

end
