(* ===== verification/Ram.thy ===== *)
theory Ram
  imports Types
begin

text \<open>
  Byte-addressed memory and the layout of the values that requests stage in it. All
  supported targets are little-endian; a structure is the concatenation of its fields with
  the padding of \<open>repr(C)\<close> written out. The locale \<open>codec\<close> is the contract between a
  structure and the storage it is written to.
\<close>

section \<open>Memory\<close>

type_synonym ram = "u64 \<Rightarrow> u8"

definition ram_read :: "ram \<Rightarrow> u64 \<Rightarrow> nat \<Rightarrow> u8 list" where
  "ram_read m a n = map (\<lambda>i. m (a + of_nat i)) [0..<n]"

definition ram_write :: "u64 \<Rightarrow> u8 list \<Rightarrow> ram \<Rightarrow> ram" where
  "ram_write a bs m = (\<lambda>x. if unat (x - a) < length bs then bs ! unat (x - a) else m x)"

text \<open>The bytes from \<open>a\<close> on, \<open>n\<close> of them, and those from \<open>b\<close> on, \<open>k\<close> of them, do not meet.\<close>

definition apart :: "u64 \<Rightarrow> nat \<Rightarrow> u64 \<Rightarrow> nat \<Rightarrow> bool" where
  "apart a n b k \<longleftrightarrow> unat a + n \<le> unat b \<or> unat b + k \<le> unat a"

lemma length_ram_read [simp]: "length (ram_read m a n) = n"
  by (simp add: ram_read_def)

lemma nth_ram_read [simp]: "i < n \<Longrightarrow> ram_read m a n ! i = m (a + of_nat i)"
  by (simp add: ram_read_def)

lemma ram_read_add: "ram_read m a (n + k) = ram_read m a n @ ram_read m (a + of_nat n) k"
  by (rule nth_equalityI) (auto simp: nth_append add.assoc of_nat_diff simp flip: of_nat_add)

lemma take_ram_read [simp]: "take k (ram_read m a n) = ram_read m a (min k n)"
  by (rule nth_equalityI) auto

lemma unat_offset: "unat (a + of_nat i - a :: u64) = i" if "i < 2 ^ 64"
  using that by (simp add: unat_of_nat take_bit_nat_eq_self)

lemma ram_read_write:
  assumes "length bs \<le> 2 ^ 64"
  shows "ram_read (ram_write a bs m) a (length bs) = bs"
proof (rule nth_equalityI)
  fix i assume "i < length (ram_read (ram_write a bs m) a (length bs))"
  then have "i < length bs" "i < 2 ^ 64" using assms by simp_all
  then show "ram_read (ram_write a bs m) a (length bs) ! i = bs ! i"
    using unat_offset [of i a] by (simp add: ram_write_def)
qed simp

text \<open>Bytes that were not written are not changed.\<close>

lemma unat_sub_apart:
  assumes "unat x < unat b \<or> unat b + k \<le> unat (x :: u64)" "unat b + k \<le> 2 ^ 64"
  shows "\<not> unat (x - b) < k"
proof (cases "b \<le> x")
  case True
  then show ?thesis using assms by (auto simp: unat_sub word_le_nat_alt)
next
  case False
  then have "unat x < unat b" by (simp add: word_le_nat_alt)
  moreover from this have "unat (x - b) = 2 ^ 64 + unat x - unat b"
    using unsigned_less [of b] by (simp add: unat_sub_if')
  ultimately show ?thesis using assms(2) by simp
qed

lemma ram_read_other:
  assumes "apart a n b (length bs)" "unat a + n \<le> 2 ^ 64" "unat b + length bs \<le> 2 ^ 64"
  shows "ram_read (ram_write b bs m) a n = ram_read m a n"
proof (rule nth_equalityI)
  fix i assume "i < length (ram_read (ram_write b bs m) a n)"
  then have i: "i < n" by simp
  then have "unat (a + of_nat i) = unat a + i" using assms(2)
    by (simp add: unat_word_ariths unat_of_nat mod_simps)
  then have "unat (a + of_nat i) < unat b \<or> unat b + length bs \<le> unat (a + of_nat i)"
    using assms(1) i by (auto simp: apart_def)
  then show "ram_read (ram_write b bs m) a n ! i = ram_read m a n ! i"
    using unat_sub_apart [OF _ assms(3)] i by (simp add: ram_write_def)
qed simp

text \<open>Adjacent writes are one write, and a part of what was written can be read by itself.\<close>

lemma ram_write_append:
  assumes "length xs + length ys < 2 ^ 64"
  shows "ram_write (a + of_nat (length xs)) ys (ram_write a xs m) = ram_write a (xs @ ys) m"
proof
  fix x
  let ?d = "x - a" and ?n = "of_nat (length xs) :: u64"
  have eq: "x - (a + ?n) = ?d - ?n" by simp
  have n: "unat ?n = length xs" using assms by (simp add: unat_of_nat take_bit_nat_eq_self)
  show "ram_write (a + of_nat (length xs)) ys (ram_write a xs m) x = ram_write a (xs @ ys) m x"
  proof (cases "unat ?d < length xs")
    case True
    then have "unat (?d - ?n) = 2 ^ 64 + unat ?d - length xs" using n by (simp add: unat_sub_if')
    then have "\<not> unat (?d - ?n) < length ys" using assms by simp
    then show ?thesis using True unfolding ram_write_def eq by (simp add: nth_append)
  next
    case False
    then have "unat (?d - ?n) = unat ?d - length xs" using n by (simp add: unat_sub_if')
    then show ?thesis using False unfolding ram_write_def eq by (auto simp: nth_append)
  qed
qed

lemma ram_read_part:
  assumes "k + n \<le> length bs" "length bs \<le> 2 ^ 64"
  shows "ram_read (ram_write a bs m) (a + of_nat k) n = take n (drop k bs)"
proof (rule nth_equalityI)
  fix i assume "i < length (ram_read (ram_write a bs m) (a + of_nat k) n)"
  then have i: "i < n" by simp
  have "a + of_nat k + of_nat i = a + (of_nat (k + i) :: u64)" by simp
  moreover have "unat (a + of_nat (k + i) - a) = k + i" by (rule unat_offset) (use assms i in simp)
  ultimately show "ram_read (ram_write a bs m) (a + of_nat k) n ! i = take n (drop k bs) ! i"
    using i assms by (simp add: ram_write_def)
qed (use assms in simp)

text \<open>Writes and reads at offsets from one base, which may lie anywhere.\<close>

lemma ram_read_other_part:
  assumes "k + n \<le> j \<or> j + length bs \<le> k" "k + n \<le> 2 ^ 64" "j + length bs \<le> 2 ^ 64"
  shows "ram_read (ram_write (a + of_nat j) bs m) (a + of_nat k) n = ram_read m (a + of_nat k) n"
proof (rule nth_equalityI)
  fix i assume "i < length (ram_read (ram_write (a + of_nat j) bs m) (a + of_nat k) n)"
  then have i: "i < n" by simp
  show "ram_read (ram_write (a + of_nat j) bs m) (a + of_nat k) n ! i = ram_read m (a + of_nat k) n ! i"
  proof (cases "length bs = 0")
    case True
    then show ?thesis using i by (simp add: ram_write_def)
  next
    case False
    then have "j < 2 ^ 64" "k + i < 2 ^ 64" using assms(2, 3) i by linarith+
    then have u: "unat (of_nat j :: u64) = j" "unat (of_nat (k + i) :: u64) = k + i"
      by (simp_all add: unat_of_nat take_bit_nat_eq_self del: of_nat_add)
    have "\<not> unat (of_nat (k + i) - of_nat j :: u64) < length bs"
      by (rule unat_sub_apart) (use assms i u in auto)
    moreover have "a + of_nat k + of_nat i - (a + of_nat j) = (of_nat (k + i) - of_nat j :: u64)" by simp
    ultimately show ?thesis using i unfolding ram_write_def by (simp only: nth_ram_read if_False)
  qed
qed simp

section \<open>Integers in memory\<close>

definition le_bytes :: "nat \<Rightarrow> 'a::len word \<Rightarrow> u8 list" where
  "le_bytes n x = map (\<lambda>i. ucast (drop_bit (8 * i) x)) [0..<n]"

fun of_le :: "u8 list \<Rightarrow> 'a::len word" where
  "of_le [] = 0"
| "of_le (b # bs) = ucast b OR push_bit 8 (of_le bs)"

lemma length_le_bytes [simp]: "length (le_bytes n x) = n"
  by (simp add: le_bytes_def)

lemma bit_of_le:
  "bit (of_le bs :: 'a::len word) j \<longleftrightarrow> j < LENGTH('a) \<and> j div 8 < length bs \<and> bit (bs ! (j div 8)) (j mod 8)"
proof (induction bs arbitrary: j)
  case (Cons b bs)
  show ?case
  proof (cases "j < 8")
    case True
    then show ?thesis by (auto simp: bit_or_iff bit_push_bit_iff bit_ucast_iff)
  next
    case False
    then obtain k where k: "j = 8 + k" using le_Suc_ex not_less by blast
    have d: "(8 + k) div 8 = Suc (k div 8)" by simp
    have "\<not> bit b j" using False impossible_bit [of j b] by auto
    then show ?thesis using Cons.IH [of k] k by (auto simp: d bit_or_iff bit_push_bit_iff bit_ucast_iff)
  qed
qed simp

lemma of_le_bytes:
  assumes "LENGTH('a::len) \<le> 8 * n"
  shows "of_le (le_bytes n (x :: 'a word)) = x"
proof (rule bit_word_eqI)
  fix j assume j: "j < LENGTH('a)"
  then have "j div 8 < n" using assms by linarith
  moreover have "8 * (j div 8) + j mod 8 = j" by simp
  ultimately show "bit (of_le (le_bytes n x) :: 'a word) j = bit x j"
    using j by (simp add: bit_of_le le_bytes_def bit_ucast_iff bit_drop_bit_eq)
qed

section \<open>Arrays in memory\<close>

text \<open>Blocks written one after the other, as a loop over an array of structures does.\<close>

fun write_each :: "u64 \<Rightarrow> u8 list list \<Rightarrow> ram \<Rightarrow> ram" where
  "write_each a [] m = m"
| "write_each a (b # bs) m = write_each (a + of_nat (length b)) bs (ram_write a b m)"

lemma write_each_block:
  "length (concat bs) < 2 ^ 64 \<Longrightarrow> write_each a bs m = ram_write a (concat bs) m"
proof (induction bs arbitrary: a m)
  case Nil
  then show ?case by (simp add: ram_write_def)
next
  case (Cons b bs)
  then show ?case by (simp add: ram_write_append)
qed

lemma length_concat_uniform: "\<forall>b \<in> set bs. length b = k \<Longrightarrow> length (concat bs) = k * length bs"
  by (induction bs) simp_all

lemma nth_concat_uniform:
  "\<forall>b \<in> set bs. length b = k \<Longrightarrow> i < length bs \<Longrightarrow> take k (drop (k * i) (concat bs)) = bs ! i"
  by (induction bs arbitrary: i) (auto simp: nth_Cons split: nat.split)

lemma write_each_nth:
  assumes "\<forall>b \<in> set bs. length b = k" "k * length bs < 2 ^ 64" "i < length bs"
  shows "ram_read (write_each a bs m) (a + of_nat (k * i)) k = bs ! i"
proof -
  have l: "length (concat bs) = k * length bs" by (rule length_concat_uniform) (rule assms(1))
  have "k * i + k \<le> k * length bs" using assms(3) by (metis Suc_leI mult_Suc_right add.commute mult_le_mono2)
  then have "ram_read (ram_write a (concat bs) m) (a + of_nat (k * i)) k = take k (drop (k * i) (concat bs))"
    using assms(2) l by (intro ram_read_part) simp_all
  then show ?thesis using assms l write_each_block [of bs a m] nth_concat_uniform [of bs k i] by simp
qed

lemma fold_enumerate_write:
  assumes "\<And>x. length (f x) = k"
  shows "fold (\<lambda>(i, x). ram_write (a + of_nat (k * i)) (f x)) (enumerate n xs) m =
    write_each (a + of_nat (k * n)) (map f xs) m"
  using assms by (induction xs arbitrary: n m) (simp_all add: algebra_simps)

lemma array_read:
  assumes "ram_read m a (k * n) = concat bs" "\<forall>b \<in> set bs. length b = k" "i < length bs" "length bs = n"
  shows "ram_read m (a + of_nat (k * i)) k = bs ! i"
proof -
  have "k * n = k * i + k + k * (n - i - 1)" using assms(3, 4)
    by (metis Suc_leI Suc_eq_plus1 add_mult_distrib2 diff_diff_left le_add_diff_inverse mult_Suc_right add.commute)
  then have "concat bs = ram_read m a (k * i) @ ram_read m (a + of_nat (k * i)) k @
      ram_read m (a + of_nat (k * i + k)) (k * (n - i - 1))"
    using assms(1) by (simp only: ram_read_add append_assoc)
  then have "take k (drop (k * i) (concat bs)) = ram_read m (a + of_nat (k * i)) k" by simp
  then show ?thesis using nth_concat_uniform [OF assms(2, 3)] by simp
qed

section \<open>Structures in memory\<close>

locale codec =
  fixes enc :: "'v \<Rightarrow> u8 list"
    and dec :: "u8 list \<Rightarrow> 'v"
    and sz :: nat
  assumes enc_length [simp]: "length (enc v) = sz"
    and dec_enc [simp]: "dec (enc v) = v"
    and sz_small: "sz \<le> 2 ^ 64"
begin

lemma read_back: "dec (ram_read (ram_write a (enc v) m) a sz) = v"
  using ram_read_write [of "enc v" a m] sz_small by simp

lemma kept:
  "apart a sz b (length bs) \<Longrightarrow> unat a + sz \<le> 2 ^ 64 \<Longrightarrow> unat b + length bs \<le> 2 ^ 64 \<Longrightarrow>
   dec (ram_read (ram_write b bs (ram_write a (enc v) m)) a sz) = v"
  by (simp add: ram_read_other read_back)

end

end
