(* ===== verification/Layouts.thy ===== *)
theory Layouts
  imports Ram
begin

text \<open>
  Layouts of the kernel structures that several components write to or read from memory:
  buffer descriptors and message headers (\<open>src/types/buffers.rs\<close>, \<open>net.rs\<close>) and IPv4 socket
  addresses. Each is an instance of the \<open>codec\<close> contract of \<open>Ram\<close> where its type has no
  unnamed bytes. Sizes and alignments are those of x86_64.
\<close>

section \<open>Descriptors and headers\<close>

record IoVec =
  iov_base :: u64
  iov_len :: usize

definition IoVec_new :: "u64 \<Rightarrow> usize \<Rightarrow> IoVec" where
  "IoVec_new base l = \<lparr>iov_base = base, iov_len = l\<rparr>"

definition IoVec_bytes :: "IoVec \<Rightarrow> u8 list" where
  "IoVec_bytes v = le_bytes 8 (iov_base v) @ le_bytes 8 (iov_len v)"

definition IoVec_of_bytes :: "u8 list \<Rightarrow> IoVec" where
  "IoVec_of_bytes bs = \<lparr>iov_base = of_le (take 8 bs), iov_len = of_le (take 8 (drop 8 bs))\<rparr>"

definition SIZEOF_IoVec :: usize where "SIZEOF_IoVec = 16"
definition ALIGN_IoVec :: usize where "ALIGN_IoVec = 8"

interpretation iovec: codec IoVec_bytes IoVec_of_bytes 16
  by unfold_locales (simp_all add: IoVec_bytes_def IoVec_of_bytes_def of_le_bytes)

record MsgHdr =
  msg_name :: u64
  msg_namelen :: u32
  msg_iov :: u64
  msg_iovlen :: usize
  msg_control :: u64
  msg_controllen :: usize
  msg_flags :: i32

definition MsgHdr_default :: MsgHdr where
  "MsgHdr_default =
     \<lparr>msg_name = 0, msg_namelen = 0, msg_iov = 0, msg_iovlen = 0, msg_control = 0, msg_controllen = 0,
      msg_flags = 0\<rparr>"

definition MsgHdr_bytes :: "MsgHdr \<Rightarrow> u8 list" where
  "MsgHdr_bytes h =
     le_bytes 8 (msg_name h) @ le_bytes 4 (msg_namelen h) @ replicate 4 0 @ le_bytes 8 (msg_iov h) @
     le_bytes 8 (msg_iovlen h) @ le_bytes 8 (msg_control h) @ le_bytes 8 (msg_controllen h) @
     le_bytes 4 (msg_flags h) @ replicate 4 0"

definition MsgHdr_of_bytes :: "u8 list \<Rightarrow> MsgHdr" where
  "MsgHdr_of_bytes bs =
     \<lparr>msg_name = of_le (take 8 bs), msg_namelen = of_le (take 4 (drop 8 bs)),
      msg_iov = of_le (take 8 (drop 16 bs)), msg_iovlen = of_le (take 8 (drop 24 bs)),
      msg_control = of_le (take 8 (drop 32 bs)), msg_controllen = of_le (take 8 (drop 40 bs)),
      msg_flags = of_le (take 4 (drop 48 bs))\<rparr>"

definition SIZEOF_MsgHdr :: usize where "SIZEOF_MsgHdr = 56"
definition ALIGN_MsgHdr :: usize where "ALIGN_MsgHdr = 8"

interpretation msg_hdr: codec MsgHdr_bytes MsgHdr_of_bytes 56
  by unfold_locales (simp_all add: MsgHdr_bytes_def MsgHdr_of_bytes_def of_le_bytes)

record SockAddrIn =
  sin_family :: u16
  sin_port :: u16
  sin_addr :: u32
  sin_zero :: "u8 list"

text \<open>An address as it lies in memory, with its filler; \<open>to_bytes\<close> writes zeros there.\<close>

definition SockAddrIn_bytes :: "SockAddrIn \<Rightarrow> u8 list" where
  "SockAddrIn_bytes a =
     le_bytes 2 (sin_family a) @ le_bytes 2 (sin_port a) @ le_bytes 4 (sin_addr a) @ sin_zero a"

definition SockAddrIn_of_bytes :: "u8 list \<Rightarrow> SockAddrIn" where
  "SockAddrIn_of_bytes bs =
     \<lparr>sin_family = of_le (take 2 bs), sin_port = of_le (take 2 (drop 2 bs)),
      sin_addr = of_le (take 4 (drop 4 bs)), sin_zero = drop 8 bs\<rparr>"

definition SockAddrIn_default :: SockAddrIn where
  "SockAddrIn_default = \<lparr>sin_family = 0, sin_port = 0, sin_addr = 0, sin_zero = replicate 8 0\<rparr>"

definition SIZEOF_SockAddrIn :: usize where "SIZEOF_SockAddrIn = 16"

definition SockAddrIn_to_bytes :: "SockAddrIn \<Rightarrow> u8 list" where
  "SockAddrIn_to_bytes a =
     le_bytes 2 (sin_family a) @ le_bytes 2 (sin_port a) @ le_bytes 4 (sin_addr a) @ replicate 8 0"

lemma SockAddrIn_read_back: "length (sin_zero sa) = 8 \<Longrightarrow> SockAddrIn_of_bytes (SockAddrIn_bytes sa) = sa"
  by (simp add: SockAddrIn_of_bytes_def SockAddrIn_bytes_def of_le_bytes)

lemma unat_u32_less: "unat (x :: u32) < 2 ^ 32"
  by (rule unsigned_less [THEN order_less_le_trans]) simp

end
