(* ===== verification/Owned_Store.thy ===== *)
theory Owned_Store
  imports Owned_Core Layouts
begin

text \<open>
  Where a value staged in an owned buffer lies: \<open>slice_within\<close> says that a slice of memory is
  part of a buffer, \<open>kept_outside\<close> that an operation has changed no byte outside it.
\<close>

definition slice_within :: "slice \<Rightarrow> MmapBuffer \<Rightarrow> bool" where
  "slice_within s b \<longleftrightarrow> mb_addr b \<le> sl_ptr s \<and>
     unat (sl_ptr s) + unat (sl_len s) \<le> unat (mb_addr b) + unat (mb_len b)"

definition kept_outside :: "MmapBuffer \<Rightarrow> ram \<Rightarrow> ram \<Rightarrow> bool" where
  "kept_outside b m m' \<longleftrightarrow> (\<forall>a. unat (mb_len b) \<le> unat (a - mb_addr b) \<longrightarrow> m' a = m a)"

lemma kept_outside_write: "length bs \<le> unat (mb_len b) \<Longrightarrow> kept_outside b m (ram_write (mb_addr b) bs m)"
  by (simp add: kept_outside_def ram_write_def)

lemma kept_outside_write_at:
  assumes "j + length bs \<le> unat (mb_len b)"
  shows "kept_outside b m (ram_write (mb_addr b + of_nat j) bs m)"
proof -
  have lt: "unat (mb_len b) < 2 ^ 64" by (rule unsigned_less [THEN order_less_le_trans]) simp
  have "\<not> unat (x - (mb_addr b + of_nat j)) < length bs" if "unat (mb_len b) \<le> unat (x - mb_addr b)" for x
  proof -
    have "\<not> unat (x - mb_addr b - of_nat j) < length bs"
      using that assms lt by (intro unat_sub_apart) (simp_all add: unat_of_nat take_bit_nat_eq_self)
    then show ?thesis by (simp add: diff_diff_eq)
  qed
  then show ?thesis by (simp add: kept_outside_def ram_write_def)
qed

lemma kept_outside_trans: "kept_outside b m m' \<Longrightarrow> kept_outside b m' m'' \<Longrightarrow> kept_outside b m m''"
  by (simp add: kept_outside_def)

end
