(* ===== verification/Owned_Requests.thy ===== *)
theory Owned_Requests
  imports Owned_Core Sqe_Net
begin

text \<open>
  The requests of the owned layer that finish in one ticket: reads and writes
  (\<open>src/owned/request.rs\<close>), zero-copy sends, which announce their result before they
  release their storage (\<open>zerocopy.rs\<close>), cancellations (\<open>cancel.rs\<close>) and messages between
  rings (\<open>msgring.rs\<close>). Each kind is shown to satisfy the ticket contract.
\<close>

section \<open>Reads and writes (\<open>request.rs\<close>)\<close>

datatype Direction = Read | Write

record 'b Prepared =
  pp_buf :: 'b
  pp_fd :: RawFd
  pp_offset :: u64
  pp_len :: u32
  pp_direction :: Direction
  pp_addr :: u64

record 'b Pending =
  pd_buf :: 'b
  pd_ring :: RingId
  pd_id :: RequestId
  pd_fd :: RawFd
  pd_offset :: u64
  pd_len :: u32
  pd_direction :: Direction
  pd_addr :: u64

record 'b Completed =
  cp_buf :: 'b
  cp_id :: RequestId
  cp_direction :: Direction
  cp_result :: i32

definition clamp_len :: "usize \<Rightarrow> u32" where
  "clamp_len l = (if l > ucast (- 1 :: u32) then - 1 else ucast l)"

definition Prepared_read :: "'b stable \<Rightarrow> RawFd \<Rightarrow> 'b \<Rightarrow> u64 \<Rightarrow> 'b Prepared" where
  "Prepared_read sb fd buf offset =
     \<lparr>pp_buf = buf, pp_fd = fd, pp_offset = offset, pp_len = clamp_len (stable_len sb buf),
      pp_direction = Read, pp_addr = stable_mut_ptr sb buf\<rparr>"

definition Prepared_write :: "'b stable \<Rightarrow> RawFd \<Rightarrow> 'b \<Rightarrow> u64 \<Rightarrow> 'b Prepared" where
  "Prepared_write sb fd buf offset =
     \<lparr>pp_buf = buf, pp_fd = fd, pp_offset = offset, pp_len = clamp_len (stable_len sb buf),
      pp_direction = Write, pp_addr = stable_ptr sb buf\<rparr>"

definition Prepared_with_len :: "u32 \<Rightarrow> 'b Prepared \<Rightarrow> 'b Prepared" where
  "Prepared_with_len l p = (if l < pp_len p then p\<lparr>pp_len := l\<rparr> else p)"

text \<open>The caller writes through the reference that \<open>buffer_mut\<close> lends: any new value of the buffer.\<close>

definition Prepared_buffer_mut :: "('b \<Rightarrow> 'b) \<Rightarrow> 'b Prepared \<Rightarrow> 'b Prepared" where
  "Prepared_buffer_mut f p = p\<lparr>pp_buf := f (pp_buf p)\<rparr>"

definition Prepared_into_pending ::
  "'b Prepared \<Rightarrow> RingId \<Rightarrow> RequestId \<Rightarrow> IoUringSqe \<times> 'b Pending" where
  "Prepared_into_pending p ring i =
    (let sqe = (case pp_direction p of
                  Read \<Rightarrow> Sqe_read_ptr (pp_fd p) (pp_addr p) (pp_len p) (pp_offset p)
                | Write \<Rightarrow> Sqe_write_ptr (pp_fd p) (pp_addr p) (pp_len p) (pp_offset p));
         pending = \<lparr>pd_buf = pp_buf p, pd_ring = ring, pd_id = i, pd_fd = pp_fd p,
                    pd_offset = pp_offset p, pd_len = pp_len p, pd_direction = pp_direction p,
                    pd_addr = pp_addr p\<rparr>
     in (Sqe_user_data (id_raw i) sqe, pending))"

definition Pending_matches :: "'b Pending \<Rightarrow> Receipt \<Rightarrow> bool" where
  "Pending_matches t r = Receipt_belongs_to r (pd_ring t) (pd_id t)"

definition Pending_reclaim_unsubmitted :: "'b Pending \<Rightarrow> 'b Prepared" where
  "Pending_reclaim_unsubmitted t =
     \<lparr>pp_buf = pd_buf t, pp_fd = pd_fd t, pp_offset = pd_offset t, pp_len = pd_len t,
      pp_direction = pd_direction t, pp_addr = pd_addr t\<rparr>"

definition Pending_redeem :: "'b Pending \<Rightarrow> Receipt \<Rightarrow> ('b Completed, 'b Pending \<times> Receipt) result" where
  "Pending_redeem t r =
    (if \<not> Pending_matches t r then Err (t, r)
     else Ok \<lparr>cp_buf = pd_buf t, cp_id = pd_id t, cp_direction = pd_direction t,
              cp_result = rc_result r\<rparr>)"

definition Completed_result :: "'b Completed \<Rightarrow> (u32, Error) result" where
  "Completed_result c = cqe_u32_result (cp_result c)"

definition Completed_into_parts :: "'b Completed \<Rightarrow> (u32, Error) result \<times> 'b" where
  "Completed_into_parts c = (Completed_result c, cp_buf c)"

definition OwnedSubmitter_push where
  "OwnedSubmitter_push p = owned_push Prepared_into_pending (\<lambda>_ t. Pending_reclaim_unsubmitted t) p"

interpretation rw: ticket Prepared_into_pending "\<lambda>_ t. Pending_reclaim_unsubmitted t"
  pd_ring pd_id pp_buf pd_buf Pending_redeem cp_buf
  by unfold_locales
    (auto simp: Prepared_into_pending_def Pending_reclaim_unsubmitted_def Pending_redeem_def
      Pending_matches_def Sqe_user_data_def Let_def)

section \<open>Zero-copy sends (\<open>zerocopy.rs\<close>)\<close>

record 'b PreparedZc =
  pz_buf :: 'b
  pz_fd :: RawFd
  pz_len :: u32
  pz_flags :: u32
  pz_addr :: u64

record 'b PendingZc =
  zc_buf :: 'b
  zc_ring :: RingId
  zc_id :: RequestId
  zc_fd :: RawFd
  zc_len :: u32
  zc_flags :: u32
  zc_addr :: u64
  zc_sent :: "i32 option"

record 'b ZcCompleted =
  zd_buf :: 'b
  zd_id :: RequestId
  zd_sent :: "i32 option"
  zd_notified :: i32

definition PreparedZc_send :: "'b stable \<Rightarrow> RawFd \<Rightarrow> 'b \<Rightarrow> u32 \<Rightarrow> 'b PreparedZc" where
  "PreparedZc_send sb fd buf flags =
     \<lparr>pz_buf = buf, pz_fd = fd, pz_len = clamp_len (stable_len sb buf), pz_flags = flags,
      pz_addr = stable_ptr sb buf\<rparr>"

definition PreparedZc_with_len :: "u32 \<Rightarrow> 'b PreparedZc \<Rightarrow> 'b PreparedZc" where
  "PreparedZc_with_len l p = (if l < pz_len p then p\<lparr>pz_len := l\<rparr> else p)"

definition PreparedZc_buffer_mut :: "('b \<Rightarrow> 'b) \<Rightarrow> 'b PreparedZc \<Rightarrow> 'b PreparedZc" where
  "PreparedZc_buffer_mut f p = p\<lparr>pz_buf := f (pz_buf p)\<rparr>"

definition PreparedZc_into_pending ::
  "'b PreparedZc \<Rightarrow> RingId \<Rightarrow> RequestId \<Rightarrow> IoUringSqe \<times> 'b PendingZc" where
  "PreparedZc_into_pending p ring i =
    (let sqe = Sqe_send_zc_ptr (pz_fd p) (pz_addr p) (pz_len p) (pz_flags p);
         pending = \<lparr>zc_buf = pz_buf p, zc_ring = ring, zc_id = i, zc_fd = pz_fd p,
                    zc_len = pz_len p, zc_flags = pz_flags p, zc_addr = pz_addr p, zc_sent = None\<rparr>
     in (Sqe_user_data (id_raw i) sqe, pending))"

definition PendingZc_matches :: "'b PendingZc \<Rightarrow> Receipt \<Rightarrow> bool" where
  "PendingZc_matches t r = Receipt_belongs_to r (zc_ring t) (zc_id t)"

definition matches_sent :: "'b PendingZc \<Rightarrow> PartialReceipt \<Rightarrow> bool" where
  "matches_sent t n = PartialReceipt_belongs_to n (zc_ring t) (zc_id t)"

definition record_sent ::
  "'b PendingZc \<Rightarrow> PartialReceipt \<Rightarrow> ('b PendingZc, 'b PendingZc \<times> PartialReceipt) result" where
  "record_sent t n =
     (if \<not> matches_sent t n then Err (t, n) else Ok (t\<lparr>zc_sent := Some (pr_result n)\<rparr>))"

definition PendingZc_reclaim_unsubmitted :: "'b PendingZc \<Rightarrow> 'b PreparedZc" where
  "PendingZc_reclaim_unsubmitted t =
     \<lparr>pz_buf = zc_buf t, pz_fd = zc_fd t, pz_len = zc_len t, pz_flags = zc_flags t,
      pz_addr = zc_addr t\<rparr>"

definition PendingZc_redeem ::
  "'b PendingZc \<Rightarrow> Receipt \<Rightarrow> ('b ZcCompleted, 'b PendingZc \<times> Receipt) result" where
  "PendingZc_redeem t r =
    (if \<not> PendingZc_matches t r then Err (t, r)
     else Ok \<lparr>zd_buf = zc_buf t, zd_id = zc_id t, zd_sent = zc_sent t, zd_notified = rc_result r\<rparr>)"

definition ZcCompleted_result :: "'b ZcCompleted \<Rightarrow> (u32, Error) result" where
  "ZcCompleted_result c =
    (let raw = (case zd_sent c of Some sent \<Rightarrow> sent | None \<Rightarrow> zd_notified c)
     in case from_failed_cqe raw of Some e \<Rightarrow> Err e | None \<Rightarrow> Ok raw)"

lemma ZcCompleted_result_raw:
  "ZcCompleted_result c = cqe_u32_result (case zd_sent c of Some sent \<Rightarrow> sent | None \<Rightarrow> zd_notified c)"
  by (simp only: ZcCompleted_result_def cqe_u32_result_def Let_def)

definition ZcCompleted_into_parts :: "'b ZcCompleted \<Rightarrow> (u32, Error) result \<times> 'b" where
  "ZcCompleted_into_parts c = (ZcCompleted_result c, zd_buf c)"

definition OwnedSubmitter_push_zc where
  "OwnedSubmitter_push_zc p =
     owned_push PreparedZc_into_pending (\<lambda>_ t. PendingZc_reclaim_unsubmitted t) p"

interpretation zc: ticket PreparedZc_into_pending "\<lambda>_ t. PendingZc_reclaim_unsubmitted t"
  zc_ring zc_id pz_buf zc_buf PendingZc_redeem zd_buf
  by unfold_locales
    (auto simp: PreparedZc_into_pending_def PendingZc_reclaim_unsubmitted_def PendingZc_redeem_def
      PendingZc_matches_def Sqe_user_data_def Let_def)

section \<open>Cancellations (\<open>cancel.rs\<close>)\<close>

datatype CancelTarget = UserData u64 | Fd RawFd | Any

record PreparedCancel =
  pc_target :: CancelTarget
  pc_flags :: u32

record PendingCancel =
  ca_ring :: RingId
  ca_id :: RequestId
  ca_target :: CancelTarget

record CancelDone =
  cd_target :: CancelTarget
  cd_id :: RequestId
  cd_result :: i32

datatype CancelOutcome = Applied u32 | NotFound | AlreadyCompleting | Failed Errno

definition CancelOutcome_from_raw :: "i32 \<Rightarrow> CancelOutcome" where
  "CancelOutcome_from_raw r =
    (if r = - 2 then NotFound
     else if r = - 114 then AlreadyCompleting
     else if sint r < 0 then Failed (Errno_new (- r))
     else Applied r)"

fun is_applied :: "CancelOutcome \<Rightarrow> bool" where
  "is_applied (Applied _) = True"
| "is_applied _ = False"

definition PreparedCancel_user_data :: "u64 \<Rightarrow> u32 \<Rightarrow> PreparedCancel" where
  "PreparedCancel_user_data d flags = \<lparr>pc_target = UserData d, pc_flags = flags\<rparr>"

definition PreparedCancel_fd :: "RawFd \<Rightarrow> u32 \<Rightarrow> PreparedCancel" where
  "PreparedCancel_fd fd flags = \<lparr>pc_target = Fd fd, pc_flags = flags\<rparr>"

definition PreparedCancel_any :: "u32 \<Rightarrow> PreparedCancel" where
  "PreparedCancel_any flags = \<lparr>pc_target = Any, pc_flags = flags\<rparr>"

definition PreparedCancel_into_pending ::
  "PreparedCancel \<Rightarrow> RingId \<Rightarrow> RequestId \<Rightarrow> IoUringSqe \<times> PendingCancel" where
  "PreparedCancel_into_pending p ring i =
    (let sqe = (case pc_target p of
                  UserData target \<Rightarrow> Sqe_cancel_with_flags target (pc_flags p)
                | Fd fd \<Rightarrow> Sqe_cancel_fd fd (pc_flags p)
                | Any \<Rightarrow> Sqe_cancel_any (pc_flags p))
     in (Sqe_user_data (id_raw i) sqe, \<lparr>ca_ring = ring, ca_id = i, ca_target = pc_target p\<rparr>))"

definition PendingCancel_matches :: "PendingCancel \<Rightarrow> Receipt \<Rightarrow> bool" where
  "PendingCancel_matches t r = Receipt_belongs_to r (ca_ring t) (ca_id t)"

definition PendingCancel_redeem ::
  "PendingCancel \<Rightarrow> Receipt \<Rightarrow> (CancelDone, PendingCancel \<times> Receipt) result" where
  "PendingCancel_redeem t r =
    (if \<not> PendingCancel_matches t r then Err (t, r)
     else Ok \<lparr>cd_target = ca_target t, cd_id = ca_id t, cd_result = rc_result r\<rparr>)"

definition CancelDone_outcome :: "CancelDone \<Rightarrow> CancelOutcome" where
  "CancelDone_outcome c = CancelOutcome_from_raw (cd_result c)"

definition OwnedSubmitter_push_cancel where
  "OwnedSubmitter_push_cancel p = owned_push PreparedCancel_into_pending (\<lambda>p _. p) p"

interpretation cancel: ticket PreparedCancel_into_pending "\<lambda>p _. p"
  ca_ring ca_id "\<lambda>_. ()" "\<lambda>_. ()" PendingCancel_redeem "\<lambda>_. ()"
  by unfold_locales
    (auto simp: PreparedCancel_into_pending_def PendingCancel_redeem_def PendingCancel_matches_def
      Sqe_user_data_def Let_def)

section \<open>Messages between rings (\<open>msgring.rs\<close>)\<close>

record PreparedMsgRing =
  pm_target :: RawFd
  pm_len :: u32
  pm_data :: u64
  pm_flags :: u32

record PendingMsgRing =
  mr_ring :: RingId
  mr_id :: RequestId
  mr_target :: RawFd

record MsgRingDone =
  md_target :: RawFd
  md_id :: RequestId
  md_result :: i32

definition PreparedMsgRing_new :: "RawFd \<Rightarrow> u32 \<Rightarrow> u64 \<Rightarrow> u32 \<Rightarrow> PreparedMsgRing" where
  "PreparedMsgRing_new target l d flags =
     \<lparr>pm_target = target, pm_len = l, pm_data = d, pm_flags = flags\<rparr>"

definition PreparedMsgRing_into_pending ::
  "PreparedMsgRing \<Rightarrow> RingId \<Rightarrow> RequestId \<Rightarrow> IoUringSqe \<times> PendingMsgRing" where
  "PreparedMsgRing_into_pending p ring i =
    (let sqe = Sqe_msg_ring_with_flags (pm_target p) (pm_len p) (pm_data p) (pm_flags p)
     in (Sqe_user_data (id_raw i) sqe, \<lparr>mr_ring = ring, mr_id = i, mr_target = pm_target p\<rparr>))"

definition PendingMsgRing_matches :: "PendingMsgRing \<Rightarrow> Receipt \<Rightarrow> bool" where
  "PendingMsgRing_matches t r = Receipt_belongs_to r (mr_ring t) (mr_id t)"

definition PendingMsgRing_redeem ::
  "PendingMsgRing \<Rightarrow> Receipt \<Rightarrow> (MsgRingDone, PendingMsgRing \<times> Receipt) result" where
  "PendingMsgRing_redeem t r =
    (if \<not> PendingMsgRing_matches t r then Err (t, r)
     else Ok \<lparr>md_target = mr_target t, md_id = mr_id t, md_result = rc_result r\<rparr>)"

definition MsgRingDone_is_ok :: "MsgRingDone \<Rightarrow> bool" where
  "MsgRingDone_is_ok d = cqe_is_ok (md_result d)"

definition OwnedSubmitter_push_msg_ring where
  "OwnedSubmitter_push_msg_ring p = owned_push PreparedMsgRing_into_pending (\<lambda>p _. p) p"

interpretation msg_ring: ticket PreparedMsgRing_into_pending "\<lambda>p _. p"
  mr_ring mr_id "\<lambda>_. ()" "\<lambda>_. ()" PendingMsgRing_redeem "\<lambda>_. ()"
  by unfold_locales
    (auto simp: PreparedMsgRing_into_pending_def PendingMsgRing_redeem_def PendingMsgRing_matches_def
      Sqe_user_data_def Let_def)

section \<open>What an entry may reach\<close>

definition sqe_within :: "IoUringSqe \<Rightarrow> u64 \<Rightarrow> usize \<Rightarrow> bool" where
  "sqe_within sqe a l \<longleftrightarrow> unat a \<le> unat (sqe_addr sqe) \<and>
     unat (sqe_addr sqe) + unat (sqe_len sqe) \<le> unat a + unat l"

lemma clamp_len_le: "unat (clamp_len l) \<le> unat l"
proof (cases "l > ucast (- 1 :: u32)")
  case True
  then have "unat (ucast (- 1 :: u32) :: u64) < unat l" by (simp add: word_less_nat_alt)
  moreover have "unat (ucast (- 1 :: u32) :: u64) = unat (- 1 :: u32)"
    by (simp add: unsigned_ucast_eq take_bit_nat_eq_self)
  ultimately show ?thesis using True by (simp add: clamp_len_def)
next
  case False
  then show ?thesis by (simp add: clamp_len_def unsigned_ucast_eq)
qed

lemma with_len_le: "unat (pp_len (Prepared_with_len l p)) \<le> unat (pp_len p)"
  "unat (pz_len (PreparedZc_with_len l z)) \<le> unat (pz_len z)"
  by (simp_all add: Prepared_with_len_def PreparedZc_with_len_def word_less_nat_alt)

context stable_buffer
begin

lemma read_within:
  "valid b \<Longrightarrow> sqe_within (fst (Prepared_into_pending (Prepared_with_len l (Prepared_read sb fd b off)) ring i))
     (stable_ptr sb b) (stable_len sb b)"
  using clamp_len_le [of "stable_len sb b"] with_len_le(1) [of l "Prepared_read sb fd b off"]
  by (auto simp: sqe_within_def Prepared_into_pending_def Prepared_read_def Sqe_user_data_def
      Sqe_read_ptr_def Prepared_with_len_def mut_agrees Let_def)

lemma write_within:
  "sqe_within (fst (Prepared_into_pending (Prepared_with_len l (Prepared_write sb fd b off)) ring i))
     (stable_ptr sb b) (stable_len sb b)"
  using clamp_len_le [of "stable_len sb b"] with_len_le(1) [of l "Prepared_write sb fd b off"]
  by (auto simp: sqe_within_def Prepared_into_pending_def Prepared_write_def Sqe_user_data_def
      Sqe_write_ptr_def Prepared_with_len_def Let_def)

lemma send_within:
  "sqe_within (fst (PreparedZc_into_pending (PreparedZc_with_len l (PreparedZc_send sb fd b fl)) ring i))
     (stable_ptr sb b) (stable_len sb b)"
  using clamp_len_le [of "stable_len sb b"] with_len_le(2) [of l "PreparedZc_send sb fd b fl"]
  by (auto simp: sqe_within_def PreparedZc_into_pending_def PreparedZc_send_def Sqe_user_data_def
      Sqe_send_zc_ptr_def PreparedZc_with_len_def Let_def)

end

section \<open>Properties\<close>

text \<open>An owned entry never names memory outside the buffer it owns. Whatever length the
  caller asks for, the range in the entry of a read, a write or a zero-copy send lies
  within the buffer, also when the buffer is longer than the 32-bit length field can say.\<close>

lemma owned_entry_within_buffer:
  assumes "MmapBuffer_valid b"
  shows "sqe_within (fst (Prepared_into_pending (Prepared_with_len l (Prepared_read mmap_stable fd b off)) ring i))
      (mb_addr b) (mb_len b) \<and>
    sqe_within (fst (Prepared_into_pending (Prepared_with_len l (Prepared_write mmap_stable fd b off)) ring i))
      (mb_addr b) (mb_len b) \<and>
    sqe_within (fst (PreparedZc_into_pending (PreparedZc_with_len l (PreparedZc_send mmap_stable fd b fl)) ring i))
      (mb_addr b) (mb_len b)"
  using mmap_buffer.read_within [OF assms] mmap_buffer.write_within [where b = b] mmap_buffer.send_within [where b = b]
  by (simp add: mmap_stable_def)

text \<open>The outcome of a zero-copy send is the send's, whatever its notification says. If
  the notice of the send was recorded, the result reported with the returned buffer is
  the one the notice carried and the later notification's is ignored; if the send promised
  no notification, the terminal completion's result is reported. A notice of another
  request changes nothing.\<close>

lemma zero_copy_result_is_the_sends:
  assumes "rc_ring r = zc_ring t" "rc_id r = zc_id t"
  shows "(\<forall>n. matches_sent t n \<longrightarrow>
      (\<exists>t' c. record_sent t n = Ok t' \<and> PendingZc_redeem t' r = Ok c \<and>
         ZcCompleted_into_parts c = (cqe_u32_result (pr_result n), zc_buf t))) \<and>
    (\<forall>n. \<not> matches_sent t n \<longrightarrow> record_sent t n = Err (t, n)) \<and>
    (zc_sent t = None \<longrightarrow>
      (\<exists>c. PendingZc_redeem t r = Ok c \<and> ZcCompleted_into_parts c = (cqe_u32_result (rc_result r), zc_buf t)))"
  using assms
  by (simp add: record_sent_def PendingZc_redeem_def PendingZc_matches_def ZcCompleted_into_parts_def
      ZcCompleted_result_raw)

end
