(* ===== verification/Owned_Msg.thy ===== *)
theory Owned_Msg
  imports Owned_Store Owned_Requests
begin

text \<open>
  Requests over several buffers at once: vectored reads and writes (\<open>src/owned/vectored.rs\<close>)
  and messages (\<open>sendmsg.rs\<close>, \<open>sendmsg_zc.rs\<close>, \<open>recvmsg.rs\<close>), whose header, descriptor array
  and address share one owned region (\<open>msgregion.rs\<close>). A const-generic array is a list; its
  length stands for \<open>N\<close>. The layouts are those of x86_64. The last section holds
  \<open>RecvmsgOut::parse\<close> of \<open>src/types/net.rs\<close>, which splits what a multishot receive delivers.
\<close>

section \<open>Vectored reads and writes (\<open>vectored.rs\<close>)\<close>

datatype VectoredError = ArrayTooSmall usize usize | ArrayMisaligned usize

definition VectoredError_into :: "VectoredError \<Rightarrow> Error" where
  "VectoredError_into e = Setup (InvalidArg BufferSizeZero)"

record ('b, 'v) PreparedVectored =
  pv_bufs :: "'b list"
  pv_vecs :: 'v
  pv_fd :: RawFd
  pv_offset :: u64
  pv_direction :: Direction
  pv_array :: u64

record ('b, 'v) PendingVectored =
  tvc_ring :: RingId
  tvc_id :: RequestId
  tvc_bufs :: "'b list"
  tvc_vecs :: 'v
  tvc_fd :: RawFd
  tvc_offset :: u64
  tvc_direction :: Direction
  tvc_array :: u64

record ('b, 'v) VectoredCompleted =
  dvc_bufs :: "'b list"
  dvc_vecs :: 'v
  dvc_result :: i32
  dvc_direction :: Direction

definition PreparedVectored_into_pending ::
  "('b, 'v) PreparedVectored \<Rightarrow> RingId \<Rightarrow> RequestId \<Rightarrow> IoUringSqe \<times> ('b, 'v) PendingVectored" where
  "PreparedVectored_into_pending p ring i =
    (let sqe = (let nr = of_nat (length (pv_bufs p)) :: u32
                in case pv_direction p of
                     Read \<Rightarrow> Sqe_readv_ptr (pv_fd p) (pv_array p) nr (pv_offset p)
                   | Write \<Rightarrow> Sqe_writev_ptr (pv_fd p) (pv_array p) nr (pv_offset p));
         pending = \<lparr>tvc_ring = ring, tvc_id = i, tvc_bufs = pv_bufs p, tvc_vecs = pv_vecs p,
                    tvc_fd = pv_fd p, tvc_offset = pv_offset p,
                    tvc_direction = pv_direction p, tvc_array = pv_array p\<rparr>
     in (Sqe_user_data (id_raw i) sqe, pending))"

definition PendingVectored_matches :: "('b, 'v) PendingVectored \<Rightarrow> Receipt \<Rightarrow> bool" where
  "PendingVectored_matches t r = Receipt_belongs_to r (tvc_ring t) (tvc_id t)"

definition PendingVectored_reclaim_unsubmitted :: "('b, 'v) PendingVectored \<Rightarrow> ('b, 'v) PreparedVectored" where
  "PendingVectored_reclaim_unsubmitted t =
     \<lparr>pv_bufs = tvc_bufs t, pv_vecs = tvc_vecs t, pv_fd = tvc_fd t,
      pv_offset = tvc_offset t, pv_direction = tvc_direction t, pv_array = tvc_array t\<rparr>"

definition PendingVectored_redeem :: "('b, 'v) PendingVectored \<Rightarrow> Receipt \<Rightarrow> (('b, 'v) VectoredCompleted, ('b, 'v) PendingVectored \<times> Receipt) result" where
  "PendingVectored_redeem t r =
    (if \<not> PendingVectored_matches t r then Err (t, r)
     else Ok \<lparr>dvc_bufs = tvc_bufs t, dvc_vecs = tvc_vecs t, dvc_result = rc_result r,
               dvc_direction = tvc_direction t\<rparr>)"

definition OwnedSubmitter_push_vectored where
  "OwnedSubmitter_push_vectored p = owned_push PreparedVectored_into_pending (\<lambda>_ t. PendingVectored_reclaim_unsubmitted t) p"

interpretation vectored_req: ticket PreparedVectored_into_pending "\<lambda>_ t. PendingVectored_reclaim_unsubmitted t"
  tvc_ring tvc_id "\<lambda>p. (pv_bufs p, pv_vecs p)" "\<lambda>t. (tvc_bufs t, tvc_vecs t)" PendingVectored_redeem "\<lambda>d. (dvc_bufs d, dvc_vecs d)"
  by unfold_locales
    (auto simp: PreparedVectored_into_pending_def PendingVectored_reclaim_unsubmitted_def PendingVectored_redeem_def
      PendingVectored_matches_def Sqe_user_data_def Let_def)

definition write_array :: "'b stable \<Rightarrow> ('b, 'v) PreparedVectored \<Rightarrow> usize list \<Rightarrow> ram \<Rightarrow> ram" where
  "write_array sb p lens m =
     fold (\<lambda>(i, buf, l). ram_write (pv_array p + of_nat (16 * i)) (IoVec_bytes (IoVec_new (stable_ptr sb buf) l)))
       (enumerate 0 (zip (pv_bufs p) lens)) m"

definition PreparedVectored_build ::
  "'b stable \<Rightarrow> 'v stable \<Rightarrow> RawFd \<Rightarrow> 'b list \<Rightarrow> 'v \<Rightarrow> u64 \<Rightarrow> Direction \<Rightarrow> usize list \<Rightarrow> ram \<Rightarrow>
   (('b, 'v) PreparedVectored, 'b list \<times> 'v \<times> VectoredError) result \<times> ram" where
  "PreparedVectored_build sb sv fd bufs vecs offset dir lens m =
    (let needed = SIZEOF_IoVec * of_nat (length bufs); got = stable_len sv vecs
     in if got < needed then (Err (bufs, vecs, ArrayTooSmall needed got), m)
        else let base = stable_mut_ptr sv vecs
        in if base mod ALIGN_IoVec \<noteq> 0 then (Err (bufs, vecs, ArrayMisaligned ALIGN_IoVec), m)
        else let prepared = \<lparr>pv_bufs = bufs, pv_vecs = vecs, pv_fd = fd, pv_offset = offset,
                             pv_direction = dir, pv_array = base\<rparr>
        in (Ok prepared, write_array sb prepared lens m))"

definition readv where
  "readv sb sv fd bufs vecs offset m =
     PreparedVectored_build sb sv fd bufs vecs offset Read (map (stable_len sb) bufs) m"

definition writev where
  "writev sb sv fd bufs vecs offset m =
     PreparedVectored_build sb sv fd bufs vecs offset Write (map (stable_len sb) bufs) m"

definition clamp_lens :: "'b stable \<Rightarrow> usize list \<Rightarrow> 'b list \<Rightarrow> usize list" where
  "clamp_lens sb lens bufs = map (\<lambda>(want, buf). min want (stable_len sb buf)) (zip lens bufs)"

definition PreparedVectored_with_lens ::
  "'b stable \<Rightarrow> ('b, 'v) PreparedVectored \<Rightarrow> usize list \<Rightarrow> ram \<Rightarrow> ('b, 'v) PreparedVectored \<times> ram" where
  "PreparedVectored_with_lens sb p lens m = (p, write_array sb p (clamp_lens sb lens (pv_bufs p)) m)"

definition PreparedVectored_total_len :: "('b, 'v) PreparedVectored \<Rightarrow> ram \<Rightarrow> usize" where
  "PreparedVectored_total_len p m =
     sum_list (map (\<lambda>i. iov_len (IoVec_of_bytes (ram_read m (pv_array p + of_nat (16 * i)) 16)))
       [0..<length (pv_bufs p)])"

definition PreparedVectored_into_parts :: "('b, 'v) PreparedVectored \<Rightarrow> 'b list \<times> 'v" where
  "PreparedVectored_into_parts p = (pv_bufs p, pv_vecs p)"

text \<open>What a caller does who assigns through the reference that \<open>buffers_mut\<close> lends.\<close>

definition PreparedVectored_buffers_mut :: "('b list \<Rightarrow> 'b list) \<Rightarrow> ('b, 'v) PreparedVectored \<Rightarrow> ('b, 'v) PreparedVectored" where
  "PreparedVectored_buffers_mut f p = p\<lparr>pv_bufs := f (pv_bufs p)\<rparr>"

definition VectoredCompleted_result :: "('b, 'v) VectoredCompleted \<Rightarrow> (u32, Error) result" where
  "VectoredCompleted_result d = cqe_u32_result (dvc_result d)"

definition VectoredCompleted_into_parts :: "('b, 'v) VectoredCompleted \<Rightarrow> (u32, Error) result \<times> 'b list \<times> 'v" where
  "VectoredCompleted_into_parts d = (VectoredCompleted_result d, dvc_bufs d, dvc_vecs d)"

section \<open>The staging region (\<open>msgregion.rs\<close>)\<close>

definition MAX_IOV :: usize where "MAX_IOV = 1024"

datatype MsgRegionError =
    RegionTooSmall usize usize
  | RegionMisaligned usize
  | TooManyDescriptors usize usize

record 'r MsgRegion =
  mr_store :: 'r
  mr_hdr :: u64
  mr_vecs :: u64
  mr_name :: u64
  mr_count :: usize

definition name_offset :: "usize \<Rightarrow> usize" where
  "name_offset cnt = SIZEOF_MsgHdr + SIZEOF_IoVec * cnt"

definition bytes_for :: "usize \<Rightarrow> usize" where
  "bytes_for cnt = name_offset cnt + SIZEOF_SockAddrIn"

definition MsgRegion_stage :: "'r stable \<Rightarrow> 'r \<Rightarrow> usize \<Rightarrow> ('r MsgRegion, 'r \<times> MsgRegionError) result" where
  "MsgRegion_stage sr store cnt =
    (if cnt > MAX_IOV then Err (store, TooManyDescriptors cnt MAX_IOV)
     else let needed = bytes_for cnt; got = stable_len sr store
     in if got < needed then Err (store, RegionTooSmall needed got)
     else let base = stable_mut_ptr sr store; align = ALIGN_MsgHdr
     in if base mod align \<noteq> 0 then Err (store, RegionMisaligned align)
     else let hdr = base; vecs = base + SIZEOF_MsgHdr; name = base + name_offset cnt
     in Ok \<lparr>mr_store = store, mr_hdr = hdr, mr_vecs = vecs, mr_name = name, mr_count = cnt\<rparr>)"

definition write_descriptor :: "'r MsgRegion \<Rightarrow> nat \<Rightarrow> u64 \<Rightarrow> usize \<Rightarrow> ram \<Rightarrow> ram" where
  "write_descriptor g i base l m = ram_write (mr_vecs g + of_nat (16 * i)) (IoVec_bytes (IoVec_new base l)) m"

definition descriptor :: "'r MsgRegion \<Rightarrow> nat \<Rightarrow> ram \<Rightarrow> IoVec" where
  "descriptor g i m = IoVec_of_bytes (ram_read m (mr_vecs g + of_nat (16 * i)) 16)"

definition write_name :: "'r MsgRegion \<Rightarrow> SockAddrIn \<Rightarrow> ram \<Rightarrow> ram" where
  "write_name g sa m = ram_write (mr_name g) (SockAddrIn_bytes sa) m"

definition staged_name :: "'r MsgRegion \<Rightarrow> ram \<Rightarrow> SockAddrIn" where
  "staged_name g m = SockAddrIn_of_bytes (ram_read m (mr_name g) 16)"

definition published_hdr :: "'r MsgRegion \<Rightarrow> bool \<Rightarrow> MsgHdr" where
  "published_hdr g named =
    (let hdr = MsgHdr_default;
         hdr = (if named then hdr\<lparr>msg_name := mr_name g, msg_namelen := ucast SIZEOF_SockAddrIn\<rparr> else hdr)
     in hdr\<lparr>msg_iov := mr_vecs g, msg_iovlen := mr_count g\<rparr>)"

definition publish_header :: "'r MsgRegion \<Rightarrow> bool \<Rightarrow> ram \<Rightarrow> ram" where
  "publish_header g named m = ram_write (mr_hdr g) (MsgHdr_bytes (published_hdr g named)) m"

definition MsgRegion_header :: "'r MsgRegion \<Rightarrow> ram \<Rightarrow> MsgHdr" where
  "MsgRegion_header g m = MsgHdr_of_bytes (ram_read m (mr_hdr g) 56)"

definition MsgRegion_from_parts :: "'r \<Rightarrow> u64 \<Rightarrow> u64 \<Rightarrow> u64 \<Rightarrow> usize \<Rightarrow> 'r MsgRegion" where
  "MsgRegion_from_parts store hdr vecs name cnt =
     \<lparr>mr_store = store, mr_hdr = hdr, mr_vecs = vecs, mr_name = name, mr_count = cnt\<rparr>"

definition MsgRegion_into_raw_parts :: "'r MsgRegion \<Rightarrow> 'r \<times> u64 \<times> u64 \<times> u64 \<times> usize" where
  "MsgRegion_into_raw_parts g = (mr_store g, mr_hdr g, mr_vecs g, mr_name g, mr_count g)"

text \<open>The loop that stages the descriptors of a message.\<close>

definition write_descriptors :: "('b \<Rightarrow> u64) \<Rightarrow> 'r MsgRegion \<Rightarrow> 'b list \<Rightarrow> usize list \<Rightarrow> ram \<Rightarrow> ram" where
  "write_descriptors ptr g bufs lens m =
     fold (\<lambda>(i, buf, l). write_descriptor g i (ptr buf) l) (enumerate 0 (zip bufs lens)) m"

section \<open>Sending a message (\<open>sendmsg.rs\<close>)\<close>

datatype SendTarget = Connected | To SockAddrIn

record ('b, 'r) PreparedSendmsg =
  psm_bufs :: "'b list"
  psm_region :: "'r MsgRegion"
  psm_fd :: RawFd
  psm_flags :: u32
  psm_target :: SendTarget

record ('b, 'r) PendingSendmsg =
  tsm_bufs :: "'b list"
  tsm_store :: 'r
  tsm_hdr :: u64
  tsm_vecs :: u64
  tsm_name :: u64
  tsm_count :: usize
  tsm_ring :: RingId
  tsm_id :: RequestId
  tsm_fd :: RawFd
  tsm_flags :: u32
  tsm_target :: SendTarget

record ('b, 'r) SendmsgCompleted =
  dsm_bufs :: "'b list"
  dsm_region :: "'r MsgRegion"
  dsm_result :: i32

definition PreparedSendmsg_write_descriptors :: "'b stable \<Rightarrow> ('b, 'r) PreparedSendmsg \<Rightarrow> usize list \<Rightarrow> ram \<Rightarrow> ram" where
  "PreparedSendmsg_write_descriptors sb p lens m = write_descriptors (stable_ptr sb) (psm_region p) (psm_bufs p) lens m"

definition PreparedSendmsg_publish :: "('b, 'r) PreparedSendmsg \<Rightarrow> ram \<Rightarrow> ram" where
  "PreparedSendmsg_publish p m =
    (let m = (case psm_target p of To sa \<Rightarrow> write_name (psm_region p) sa m | Connected \<Rightarrow> m)
     in publish_header (psm_region p) (case psm_target p of To _ \<Rightarrow> True | Connected \<Rightarrow> False) m)"

definition PreparedSendmsg_build ::
  "'b stable \<Rightarrow> 'r stable \<Rightarrow> RawFd \<Rightarrow> 'b list \<Rightarrow> 'r \<Rightarrow> SendTarget \<Rightarrow> u32 \<Rightarrow> usize list \<Rightarrow> ram \<Rightarrow>
   (('b, 'r) PreparedSendmsg, 'b list \<times> 'r \<times> MsgRegionError) result \<times> ram" where
  "PreparedSendmsg_build sb sr fd bufs region who flags lens m =
    (case MsgRegion_stage sr region (of_nat (length bufs)) of
       Err (store, e) \<Rightarrow> (Err (bufs, store, e), m)
     | Ok region \<Rightarrow>
         let prepared = \<lparr>psm_bufs = bufs, psm_region = region, psm_fd = fd, psm_flags = flags, psm_target = who\<rparr>;
             m = PreparedSendmsg_write_descriptors sb prepared lens m;
             m = PreparedSendmsg_publish prepared m
         in (Ok prepared, m))"

definition PreparedSendmsg_new where
  "PreparedSendmsg_new sb sr fd bufs region who flags m =
     PreparedSendmsg_build sb sr fd bufs region who flags (map (stable_len sb) bufs) m"

definition PreparedSendmsg_with_lens ::
  "'b stable \<Rightarrow> ('b, 'r) PreparedSendmsg \<Rightarrow> usize list \<Rightarrow> ram \<Rightarrow> ('b, 'r) PreparedSendmsg \<times> ram" where
  "PreparedSendmsg_with_lens sb p lens m = (p, PreparedSendmsg_write_descriptors sb p (clamp_lens sb lens (psm_bufs p)) m)"

definition PreparedSendmsg_total_len :: "('b, 'r) PreparedSendmsg \<Rightarrow> ram \<Rightarrow> usize" where
  "PreparedSendmsg_total_len p m = sum_list (map (\<lambda>i. iov_len (descriptor (psm_region p) i m)) [0..<length (psm_bufs p)])"

definition PreparedSendmsg_published_header :: "('b, 'r) PreparedSendmsg \<Rightarrow> ram \<Rightarrow> MsgHdr" where
  "PreparedSendmsg_published_header p m = MsgRegion_header (psm_region p) m"

text \<open>\<open>None\<close> is the panic on an index out of range.\<close>

definition PreparedSendmsg_published_descriptor :: "('b, 'r) PreparedSendmsg \<Rightarrow> nat \<Rightarrow> ram \<Rightarrow> IoVec option" where
  "PreparedSendmsg_published_descriptor p i m = (if i < length (psm_bufs p) then Some (descriptor (psm_region p) i m) else None)"

definition PreparedSendmsg_buffers_mut :: "('b list \<Rightarrow> 'b list) \<Rightarrow> ('b, 'r) PreparedSendmsg \<Rightarrow> ('b, 'r) PreparedSendmsg" where
  "PreparedSendmsg_buffers_mut f p = p\<lparr>psm_bufs := f (psm_bufs p)\<rparr>"

definition PreparedSendmsg_into_parts :: "('b, 'r) PreparedSendmsg \<Rightarrow> 'b list \<times> 'r" where
  "PreparedSendmsg_into_parts p = (psm_bufs p, mr_store (psm_region p))"

definition PreparedSendmsg_into_pending ::
  "('b, 'r) PreparedSendmsg \<Rightarrow> RingId \<Rightarrow> RequestId \<Rightarrow> IoUringSqe \<times> ('b, 'r) PendingSendmsg" where
  "PreparedSendmsg_into_pending p ring i =
    (let hdr = mr_hdr (psm_region p);
         sqe = Sqe_sendmsg_ptr (psm_fd p) hdr (psm_flags p);
         (store, hdr, vecs, name, cnt) = MsgRegion_into_raw_parts (psm_region p);
         pending = \<lparr>tsm_bufs = psm_bufs p, tsm_store = store, tsm_hdr = hdr, tsm_vecs = vecs, tsm_name = name,
                    tsm_count = cnt, tsm_ring = ring, tsm_id = i, tsm_fd = psm_fd p, tsm_flags = psm_flags p,
                    tsm_target = psm_target p\<rparr>
     in (Sqe_user_data (id_raw i) sqe, pending))"

definition PendingSendmsg_matches :: "('b, 'r) PendingSendmsg \<Rightarrow> Receipt \<Rightarrow> bool" where
  "PendingSendmsg_matches t r = Receipt_belongs_to r (tsm_ring t) (tsm_id t)"

definition PendingSendmsg_reclaim_unsubmitted :: "('b, 'r) PendingSendmsg \<Rightarrow> ('b, 'r) PreparedSendmsg" where
  "PendingSendmsg_reclaim_unsubmitted t =
     \<lparr>psm_bufs = tsm_bufs t,
      psm_region = MsgRegion_from_parts (tsm_store t) (tsm_hdr t) (tsm_vecs t) (tsm_name t) (tsm_count t),
      psm_fd = tsm_fd t, psm_flags = tsm_flags t, psm_target = tsm_target t\<rparr>"

definition PendingSendmsg_redeem :: "('b, 'r) PendingSendmsg \<Rightarrow> Receipt \<Rightarrow> (('b, 'r) SendmsgCompleted, ('b, 'r) PendingSendmsg \<times> Receipt) result" where
  "PendingSendmsg_redeem t r =
    (if \<not> PendingSendmsg_matches t r then Err (t, r)
     else Ok \<lparr>dsm_bufs = tsm_bufs t,
              dsm_region = MsgRegion_from_parts (tsm_store t) (tsm_hdr t) (tsm_vecs t) (tsm_name t) (tsm_count t),
              dsm_result = rc_result r\<rparr>)"

definition OwnedSubmitter_push_sendmsg where
  "OwnedSubmitter_push_sendmsg p = owned_push PreparedSendmsg_into_pending (\<lambda>_ t. PendingSendmsg_reclaim_unsubmitted t) p"

interpretation sendmsg_req: ticket PreparedSendmsg_into_pending "\<lambda>_ t. PendingSendmsg_reclaim_unsubmitted t"
  tsm_ring tsm_id "\<lambda>p. (psm_bufs p, mr_store (psm_region p))" "\<lambda>t. (tsm_bufs t, tsm_store t)"
  PendingSendmsg_redeem "\<lambda>d. (dsm_bufs d, mr_store (dsm_region d))"
  by unfold_locales
    (auto simp: PreparedSendmsg_into_pending_def PendingSendmsg_reclaim_unsubmitted_def PendingSendmsg_redeem_def PendingSendmsg_matches_def
      MsgRegion_from_parts_def MsgRegion_into_raw_parts_def Sqe_user_data_def Let_def)

definition SendmsgCompleted_result :: "('b, 'r) SendmsgCompleted \<Rightarrow> (u32, Error) result" where
  "SendmsgCompleted_result d = cqe_u32_result (dsm_result d)"

definition SendmsgCompleted_header :: "('b, 'r) SendmsgCompleted \<Rightarrow> ram \<Rightarrow> MsgHdr" where
  "SendmsgCompleted_header d m = MsgRegion_header (dsm_region d) m"

definition SendmsgCompleted_into_parts :: "('b, 'r) SendmsgCompleted \<Rightarrow> (u32, Error) result \<times> 'b list \<times> 'r" where
  "SendmsgCompleted_into_parts d = (SendmsgCompleted_result d, dsm_bufs d, mr_store (dsm_region d))"

section \<open>Sending a message without copying it (\<open>sendmsg_zc.rs\<close>)\<close>

record ('b, 'r) PreparedSendmsgZc =
  pmz_bufs :: "'b list"
  pmz_region :: "'r MsgRegion"
  pmz_fd :: RawFd
  pmz_flags :: u32
  pmz_target :: SendTarget

record ('b, 'r) PendingSendmsgZc =
  tmz_bufs :: "'b list"
  tmz_store :: 'r
  tmz_hdr :: u64
  tmz_vecs :: u64
  tmz_name :: u64
  tmz_count :: usize
  tmz_ring :: RingId
  tmz_id :: RequestId
  tmz_fd :: RawFd
  tmz_flags :: u32
  tmz_target :: SendTarget
  tmz_sent :: "i32 option"

record ('b, 'r) SendmsgZcCompleted =
  dmz_bufs :: "'b list"
  dmz_region :: "'r MsgRegion"
  dmz_sent :: "i32 option"
  dmz_notified :: i32

definition PreparedSendmsgZc_write_descriptors :: "'b stable \<Rightarrow> ('b, 'r) PreparedSendmsgZc \<Rightarrow> usize list \<Rightarrow> ram \<Rightarrow> ram" where
  "PreparedSendmsgZc_write_descriptors sb p lens m = write_descriptors (stable_ptr sb) (pmz_region p) (pmz_bufs p) lens m"

definition PreparedSendmsgZc_publish :: "('b, 'r) PreparedSendmsgZc \<Rightarrow> ram \<Rightarrow> ram" where
  "PreparedSendmsgZc_publish p m =
    (let m = (case pmz_target p of To sa \<Rightarrow> write_name (pmz_region p) sa m | Connected \<Rightarrow> m)
     in publish_header (pmz_region p) (case pmz_target p of To _ \<Rightarrow> True | Connected \<Rightarrow> False) m)"

definition PreparedSendmsgZc_build ::
  "'b stable \<Rightarrow> 'r stable \<Rightarrow> RawFd \<Rightarrow> 'b list \<Rightarrow> 'r \<Rightarrow> SendTarget \<Rightarrow> u32 \<Rightarrow> usize list \<Rightarrow> ram \<Rightarrow>
   (('b, 'r) PreparedSendmsgZc, 'b list \<times> 'r \<times> MsgRegionError) result \<times> ram" where
  "PreparedSendmsgZc_build sb sr fd bufs region who flags lens m =
    (case MsgRegion_stage sr region (of_nat (length bufs)) of
       Err (store, e) \<Rightarrow> (Err (bufs, store, e), m)
     | Ok region \<Rightarrow>
         let prepared = \<lparr>pmz_bufs = bufs, pmz_region = region, pmz_fd = fd, pmz_flags = flags, pmz_target = who\<rparr>;
             m = PreparedSendmsgZc_write_descriptors sb prepared lens m;
             m = PreparedSendmsgZc_publish prepared m
         in (Ok prepared, m))"

definition PreparedSendmsgZc_new where
  "PreparedSendmsgZc_new sb sr fd bufs region who flags m =
     PreparedSendmsgZc_build sb sr fd bufs region who flags (map (stable_len sb) bufs) m"

definition PreparedSendmsgZc_with_lens ::
  "'b stable \<Rightarrow> ('b, 'r) PreparedSendmsgZc \<Rightarrow> usize list \<Rightarrow> ram \<Rightarrow> ('b, 'r) PreparedSendmsgZc \<times> ram" where
  "PreparedSendmsgZc_with_lens sb p lens m = (p, PreparedSendmsgZc_write_descriptors sb p (clamp_lens sb lens (pmz_bufs p)) m)"

definition PreparedSendmsgZc_published_header :: "('b, 'r) PreparedSendmsgZc \<Rightarrow> ram \<Rightarrow> MsgHdr" where
  "PreparedSendmsgZc_published_header p m = MsgRegion_header (pmz_region p) m"

text \<open>\<open>None\<close> is the panic on an index out of range.\<close>

definition PreparedSendmsgZc_published_descriptor :: "('b, 'r) PreparedSendmsgZc \<Rightarrow> nat \<Rightarrow> ram \<Rightarrow> IoVec option" where
  "PreparedSendmsgZc_published_descriptor p i m = (if i < length (pmz_bufs p) then Some (descriptor (pmz_region p) i m) else None)"

definition PreparedSendmsgZc_buffers_mut :: "('b list \<Rightarrow> 'b list) \<Rightarrow> ('b, 'r) PreparedSendmsgZc \<Rightarrow> ('b, 'r) PreparedSendmsgZc" where
  "PreparedSendmsgZc_buffers_mut f p = p\<lparr>pmz_bufs := f (pmz_bufs p)\<rparr>"

definition PreparedSendmsgZc_into_parts :: "('b, 'r) PreparedSendmsgZc \<Rightarrow> 'b list \<times> 'r" where
  "PreparedSendmsgZc_into_parts p = (pmz_bufs p, mr_store (pmz_region p))"

definition PreparedSendmsgZc_into_pending ::
  "('b, 'r) PreparedSendmsgZc \<Rightarrow> RingId \<Rightarrow> RequestId \<Rightarrow> IoUringSqe \<times> ('b, 'r) PendingSendmsgZc" where
  "PreparedSendmsgZc_into_pending p ring i =
    (let hdr = mr_hdr (pmz_region p);
         sqe = Sqe_sendmsg_zc_ptr (pmz_fd p) hdr (pmz_flags p);
         (store, hdr, vecs, name, cnt) = MsgRegion_into_raw_parts (pmz_region p);
         pending = \<lparr>tmz_bufs = pmz_bufs p, tmz_store = store, tmz_hdr = hdr, tmz_vecs = vecs, tmz_name = name,
                    tmz_count = cnt, tmz_ring = ring, tmz_id = i, tmz_fd = pmz_fd p, tmz_flags = pmz_flags p,
                    tmz_target = pmz_target p, tmz_sent = None\<rparr>
     in (Sqe_user_data (id_raw i) sqe, pending))"

definition PendingSendmsgZc_matches :: "('b, 'r) PendingSendmsgZc \<Rightarrow> Receipt \<Rightarrow> bool" where
  "PendingSendmsgZc_matches t r = Receipt_belongs_to r (tmz_ring t) (tmz_id t)"

definition PendingSendmsgZc_matches_sent :: "('b, 'r) PendingSendmsgZc \<Rightarrow> PartialReceipt \<Rightarrow> bool" where
  "PendingSendmsgZc_matches_sent t n = PartialReceipt_belongs_to n (tmz_ring t) (tmz_id t)"

definition PendingSendmsgZc_record_sent ::
  "('b, 'r) PendingSendmsgZc \<Rightarrow> PartialReceipt \<Rightarrow> (('b, 'r) PendingSendmsgZc, ('b, 'r) PendingSendmsgZc \<times> PartialReceipt) result" where
  "PendingSendmsgZc_record_sent t n =
     (if \<not> PendingSendmsgZc_matches_sent t n then Err (t, n) else Ok (t\<lparr>tmz_sent := Some (pr_result n)\<rparr>))"

definition PendingSendmsgZc_reclaim_unsubmitted :: "('b, 'r) PendingSendmsgZc \<Rightarrow> ('b, 'r) PreparedSendmsgZc" where
  "PendingSendmsgZc_reclaim_unsubmitted t =
     \<lparr>pmz_bufs = tmz_bufs t,
      pmz_region = MsgRegion_from_parts (tmz_store t) (tmz_hdr t) (tmz_vecs t) (tmz_name t) (tmz_count t),
      pmz_fd = tmz_fd t, pmz_flags = tmz_flags t, pmz_target = tmz_target t\<rparr>"

definition PendingSendmsgZc_redeem :: "('b, 'r) PendingSendmsgZc \<Rightarrow> Receipt \<Rightarrow> (('b, 'r) SendmsgZcCompleted, ('b, 'r) PendingSendmsgZc \<times> Receipt) result" where
  "PendingSendmsgZc_redeem t r =
    (if \<not> PendingSendmsgZc_matches t r then Err (t, r)
     else Ok \<lparr>dmz_bufs = tmz_bufs t,
              dmz_region = MsgRegion_from_parts (tmz_store t) (tmz_hdr t) (tmz_vecs t) (tmz_name t) (tmz_count t),
              dmz_sent = tmz_sent t, dmz_notified = rc_result r\<rparr>)"

definition OwnedSubmitter_push_sendmsg_zc where
  "OwnedSubmitter_push_sendmsg_zc p = owned_push PreparedSendmsgZc_into_pending (\<lambda>_ t. PendingSendmsgZc_reclaim_unsubmitted t) p"

interpretation sendmsg_zc_req: ticket PreparedSendmsgZc_into_pending "\<lambda>_ t. PendingSendmsgZc_reclaim_unsubmitted t"
  tmz_ring tmz_id "\<lambda>p. (pmz_bufs p, mr_store (pmz_region p))" "\<lambda>t. (tmz_bufs t, tmz_store t)"
  PendingSendmsgZc_redeem "\<lambda>d. (dmz_bufs d, mr_store (dmz_region d))"
  by unfold_locales
    (auto simp: PreparedSendmsgZc_into_pending_def PendingSendmsgZc_reclaim_unsubmitted_def PendingSendmsgZc_redeem_def PendingSendmsgZc_matches_def
      MsgRegion_from_parts_def MsgRegion_into_raw_parts_def Sqe_user_data_def Let_def)

definition SendmsgZcCompleted_result :: "('b, 'r) SendmsgZcCompleted \<Rightarrow> (u32, Error) result" where
  "SendmsgZcCompleted_result d =
    (let raw = (case dmz_sent d of Some sent \<Rightarrow> sent | None \<Rightarrow> dmz_notified d)
     in case from_failed_cqe raw of Some e \<Rightarrow> Err e | None \<Rightarrow> Ok raw)"

definition SendmsgZcCompleted_header :: "('b, 'r) SendmsgZcCompleted \<Rightarrow> ram \<Rightarrow> MsgHdr" where
  "SendmsgZcCompleted_header d m = MsgRegion_header (dmz_region d) m"

definition SendmsgZcCompleted_into_parts :: "('b, 'r) SendmsgZcCompleted \<Rightarrow> (u32, Error) result \<times> 'b list \<times> 'r" where
  "SendmsgZcCompleted_into_parts d = (SendmsgZcCompleted_result d, dmz_bufs d, mr_store (dmz_region d))"

section \<open>Receiving a message (\<open>recvmsg.rs\<close>)\<close>

definition AF_INET_FAMILY :: u16 where "AF_INET_FAMILY = ucast (AddressFamily_as_raw AF_Inet)"
definition RESERVED_NAME_LEN :: u32 where "RESERVED_NAME_LEN = ucast SIZEOF_SockAddrIn"

datatype PeerWanted = PeerWanted_No | PeerWanted_Yes

datatype PeerAddress =
    PeerAddress_None
  | V4 SockAddrIn
  | Truncated u32 u32
  | PeerAddress_Other u16 u32

fun PeerAddress_v4 :: "PeerAddress \<Rightarrow> SockAddrIn option" where
  "PeerAddress_v4 (V4 sa) = Some sa"
| "PeerAddress_v4 _ = None"

fun PeerAddress_is_truncated :: "PeerAddress \<Rightarrow> bool" where
  "PeerAddress_is_truncated (Truncated _ _) = True"
| "PeerAddress_is_truncated _ = False"

record ('b, 'r) PreparedRecvmsg =
  prx_bufs :: "'b list"
  prx_region :: "'r MsgRegion"
  prx_fd :: RawFd
  prx_flags :: u32
  prx_peer :: PeerWanted

record ('b, 'r) PendingRecvmsg =
  trm_bufs :: "'b list"
  trm_store :: 'r
  trm_hdr :: u64
  trm_vecs :: u64
  trm_name :: u64
  trm_count :: usize
  trm_ring :: RingId
  trm_id :: RequestId
  trm_fd :: RawFd
  trm_flags :: u32
  trm_wanted :: PeerWanted

record ('b, 'r) RecvmsgCompleted =
  drm_bufs :: "'b list"
  drm_region :: "'r MsgRegion"
  drm_result :: i32
  drm_wanted :: PeerWanted

definition PreparedRecvmsg_write_descriptors :: "'b stable \<Rightarrow> ('b, 'r) PreparedRecvmsg \<Rightarrow> usize list \<Rightarrow> ram \<Rightarrow> ram" where
  "PreparedRecvmsg_write_descriptors sb p lens m = write_descriptors (stable_mut_ptr sb) (prx_region p) (prx_bufs p) lens m"

definition PreparedRecvmsg_publish :: "('b, 'r) PreparedRecvmsg \<Rightarrow> ram \<Rightarrow> ram" where
  "PreparedRecvmsg_publish p m =
    (let named = (prx_peer p = PeerWanted_Yes);
         m = (if named then write_name (prx_region p) SockAddrIn_default m else m)
     in publish_header (prx_region p) named m)"

definition PreparedRecvmsg_build ::
  "'b stable \<Rightarrow> 'r stable \<Rightarrow> RawFd \<Rightarrow> 'b list \<Rightarrow> 'r \<Rightarrow> PeerWanted \<Rightarrow> u32 \<Rightarrow> usize list \<Rightarrow> ram \<Rightarrow>
   (('b, 'r) PreparedRecvmsg, 'b list \<times> 'r \<times> MsgRegionError) result \<times> ram" where
  "PreparedRecvmsg_build sb sr fd bufs region who flags lens m =
    (case MsgRegion_stage sr region (of_nat (length bufs)) of
       Err (store, e) \<Rightarrow> (Err (bufs, store, e), m)
     | Ok region \<Rightarrow>
         let prepared = \<lparr>prx_bufs = bufs, prx_region = region, prx_fd = fd, prx_flags = flags, prx_peer = who\<rparr>;
             m = PreparedRecvmsg_write_descriptors sb prepared lens m;
             m = PreparedRecvmsg_publish prepared m
         in (Ok prepared, m))"

definition PreparedRecvmsg_new where
  "PreparedRecvmsg_new sb sr fd bufs region who flags m =
     PreparedRecvmsg_build sb sr fd bufs region who flags (map (stable_len sb) bufs) m"

definition PreparedRecvmsg_with_lens ::
  "'b stable \<Rightarrow> ('b, 'r) PreparedRecvmsg \<Rightarrow> usize list \<Rightarrow> ram \<Rightarrow> ('b, 'r) PreparedRecvmsg \<times> ram" where
  "PreparedRecvmsg_with_lens sb p lens m = (p, PreparedRecvmsg_write_descriptors sb p (clamp_lens sb lens (prx_bufs p)) m)"

definition PreparedRecvmsg_capacity :: "('b, 'r) PreparedRecvmsg \<Rightarrow> ram \<Rightarrow> usize" where
  "PreparedRecvmsg_capacity p m = sum_list (map (\<lambda>i. iov_len (descriptor (prx_region p) i m)) [0..<length (prx_bufs p)])"

definition PreparedRecvmsg_published_header :: "('b, 'r) PreparedRecvmsg \<Rightarrow> ram \<Rightarrow> MsgHdr" where
  "PreparedRecvmsg_published_header p m = MsgRegion_header (prx_region p) m"

text \<open>\<open>None\<close> is the panic on an index out of range.\<close>

definition PreparedRecvmsg_published_descriptor :: "('b, 'r) PreparedRecvmsg \<Rightarrow> nat \<Rightarrow> ram \<Rightarrow> IoVec option" where
  "PreparedRecvmsg_published_descriptor p i m = (if i < length (prx_bufs p) then Some (descriptor (prx_region p) i m) else None)"

definition PreparedRecvmsg_into_parts :: "('b, 'r) PreparedRecvmsg \<Rightarrow> 'b list \<times> 'r" where
  "PreparedRecvmsg_into_parts p = (prx_bufs p, mr_store (prx_region p))"

definition PreparedRecvmsg_into_pending ::
  "('b, 'r) PreparedRecvmsg \<Rightarrow> RingId \<Rightarrow> RequestId \<Rightarrow> IoUringSqe \<times> ('b, 'r) PendingRecvmsg" where
  "PreparedRecvmsg_into_pending p ring i =
    (let hdr = mr_hdr (prx_region p);
         sqe = Sqe_recvmsg_ptr (prx_fd p) hdr (prx_flags p);
         (store, hdr, vecs, name, cnt) = MsgRegion_into_raw_parts (prx_region p);
         pending = \<lparr>trm_bufs = prx_bufs p, trm_store = store, trm_hdr = hdr, trm_vecs = vecs, trm_name = name,
                    trm_count = cnt, trm_ring = ring, trm_id = i, trm_fd = prx_fd p, trm_flags = prx_flags p,
                    trm_wanted = prx_peer p\<rparr>
     in (Sqe_user_data (id_raw i) sqe, pending))"

definition PendingRecvmsg_matches :: "('b, 'r) PendingRecvmsg \<Rightarrow> Receipt \<Rightarrow> bool" where
  "PendingRecvmsg_matches t r = Receipt_belongs_to r (trm_ring t) (trm_id t)"

definition PendingRecvmsg_reclaim_unsubmitted :: "('b, 'r) PendingRecvmsg \<Rightarrow> ('b, 'r) PreparedRecvmsg" where
  "PendingRecvmsg_reclaim_unsubmitted t =
     \<lparr>prx_bufs = trm_bufs t,
      prx_region = MsgRegion_from_parts (trm_store t) (trm_hdr t) (trm_vecs t) (trm_name t) (trm_count t),
      prx_fd = trm_fd t, prx_flags = trm_flags t, prx_peer = trm_wanted t\<rparr>"

definition PendingRecvmsg_redeem :: "('b, 'r) PendingRecvmsg \<Rightarrow> Receipt \<Rightarrow> (('b, 'r) RecvmsgCompleted, ('b, 'r) PendingRecvmsg \<times> Receipt) result" where
  "PendingRecvmsg_redeem t r =
    (if \<not> PendingRecvmsg_matches t r then Err (t, r)
     else Ok \<lparr>drm_bufs = trm_bufs t,
              drm_region = MsgRegion_from_parts (trm_store t) (trm_hdr t) (trm_vecs t) (trm_name t) (trm_count t),
              drm_result = rc_result r, drm_wanted = trm_wanted t\<rparr>)"

definition OwnedSubmitter_push_recvmsg where
  "OwnedSubmitter_push_recvmsg p = owned_push PreparedRecvmsg_into_pending (\<lambda>_ t. PendingRecvmsg_reclaim_unsubmitted t) p"

interpretation recvmsg_req: ticket PreparedRecvmsg_into_pending "\<lambda>_ t. PendingRecvmsg_reclaim_unsubmitted t"
  trm_ring trm_id "\<lambda>p. (prx_bufs p, mr_store (prx_region p))" "\<lambda>t. (trm_bufs t, trm_store t)"
  PendingRecvmsg_redeem "\<lambda>d. (drm_bufs d, mr_store (drm_region d))"
  by unfold_locales
    (auto simp: PreparedRecvmsg_into_pending_def PendingRecvmsg_reclaim_unsubmitted_def PendingRecvmsg_redeem_def PendingRecvmsg_matches_def
      MsgRegion_from_parts_def MsgRegion_into_raw_parts_def Sqe_user_data_def Let_def)

record Received =
  rv_bytes :: u32
  rv_flags :: u32

definition MSG_OUT_TRUNC :: u32 where "MSG_OUT_TRUNC = 0x20"
definition MSG_OUT_CTRUNC :: u32 where "MSG_OUT_CTRUNC = 0x8"

definition Received_truncated :: "Received \<Rightarrow> bool" where
  "Received_truncated v = contains (rv_flags v) MSG_OUT_TRUNC"

definition Received_control_truncated :: "Received \<Rightarrow> bool" where
  "Received_control_truncated v = contains (rv_flags v) MSG_OUT_CTRUNC"

definition RecvmsgCompleted_failed :: "('b, 'r) RecvmsgCompleted \<Rightarrow> bool" where
  "RecvmsgCompleted_failed d \<longleftrightarrow> sint (drm_result d) < 0"

definition RecvmsgCompleted_header :: "('b, 'r) RecvmsgCompleted \<Rightarrow> ram \<Rightarrow> MsgHdr" where
  "RecvmsgCompleted_header d m = MsgRegion_header (drm_region d) m"

definition RecvmsgCompleted_received :: "('b, 'r) RecvmsgCompleted \<Rightarrow> ram \<Rightarrow> (Received, Error) result" where
  "RecvmsgCompleted_received d m =
    (case from_failed_cqe (drm_result d) of
       Some e \<Rightarrow> Err e
     | None \<Rightarrow> Ok \<lparr>rv_bytes = drm_result d, rv_flags = msg_flags (RecvmsgCompleted_header d m)\<rparr>)"

definition RecvmsgCompleted_peer :: "('b, 'r) RecvmsgCompleted \<Rightarrow> ram \<Rightarrow> PeerAddress" where
  "RecvmsgCompleted_peer d m =
    (if RecvmsgCompleted_failed d \<or> drm_wanted d = PeerWanted_No then PeerAddress_None
     else let reserved = RESERVED_NAME_LEN; reported = msg_namelen (RecvmsgCompleted_header d m)
     in if reported = 0 then PeerAddress_None
     else if reported > reserved then Truncated reported reserved
     else let staged = staged_name (drm_region d) m
     in if reported < reserved \<or> sin_family staged \<noteq> AF_INET_FAMILY
        then PeerAddress_Other (sin_family staged) reported
        else V4 staged)"

definition RecvmsgCompleted_into_parts ::
  "('b, 'r) RecvmsgCompleted \<Rightarrow> ram \<Rightarrow> (Received, Error) result \<times> PeerAddress \<times> 'b list \<times> 'r" where
  "RecvmsgCompleted_into_parts d m =
     (RecvmsgCompleted_received d m, RecvmsgCompleted_peer d m, drm_bufs d, mr_store (drm_region d))"

section \<open>What a multishot receive delivers (\<open>RecvmsgOut::parse\<close>)\<close>

record RecvmsgOut =
  ro_namelen :: u32
  ro_controllen :: u32
  ro_payloadlen :: u32
  ro_flags :: u32

record RecvmsgParts =
  rp_header :: RecvmsgOut
  rp_name :: "u8 list"
  rp_control :: "u8 list"
  rp_payload :: "u8 list"

definition RecvmsgOut_SIZE :: usize where "RecvmsgOut_SIZE = 16"

definition checked_add :: "usize \<Rightarrow> usize \<Rightarrow> usize option" where
  "checked_add a b = (if unat a + unat b < 2 ^ 64 then Some (a + b) else None)"

definition read_u32 :: "u8 list \<Rightarrow> nat \<Rightarrow> u32" where
  "read_u32 buf off = of_le [buf ! off, buf ! (off + 1), buf ! (off + 2), buf ! (off + 3)]"

text \<open>The bytes \<open>buf[a..b]\<close>; the panic on a range that is not in the buffer is \<open>None\<close>.\<close>

definition index_range :: "u8 list \<Rightarrow> usize \<Rightarrow> usize \<Rightarrow> u8 list option" where
  "index_range buf a b =
     (if a \<le> b \<and> unat b \<le> length buf then Some (take (unat b - unat a) (drop (unat a) buf)) else None)"

text \<open>The outer \<open>option\<close> is the panic of a slice out of range, the inner one the result.\<close>

definition RecvmsgOut_parse :: "u8 list \<Rightarrow> u32 \<Rightarrow> u32 \<Rightarrow> RecvmsgParts option option" where
  "RecvmsgOut_parse buf namelen controllen =
    (let name_reserved = ucast namelen; ctrl_reserved = ucast controllen
     in case Option.bind (checked_add RecvmsgOut_SIZE name_reserved) (\<lambda>x. checked_add x ctrl_reserved) of
          None \<Rightarrow> Some None
        | Some fixed \<Rightarrow>
            if length buf < unat fixed then Some None
            else let header = \<lparr>ro_namelen = read_u32 buf 0, ro_controllen = read_u32 buf 4,
                               ro_payloadlen = read_u32 buf 8, ro_flags = read_u32 buf 12\<rparr>;
                     name_len = min (ucast (ro_namelen header)) name_reserved;
                     ctrl_len = min (ucast (ro_controllen header)) ctrl_reserved;
                     name_start = RecvmsgOut_SIZE;
                     ctrl_start = name_start + name_reserved;
                     payload_start = ctrl_start + ctrl_reserved
            in case (index_range buf name_start (name_start + name_len),
                     index_range buf ctrl_start (ctrl_start + ctrl_len),
                     index_range buf payload_start (of_nat (length buf))) of
                 (Some name, Some control, Some payload) \<Rightarrow>
                   Some (Some \<lparr>rp_header = header, rp_name = name, rp_control = control, rp_payload = payload\<rparr>)
               | _ \<Rightarrow> None)"

section \<open>Lemmas on the region\<close>

text \<open>Where the parts of a staged region lie.\<close>

lemma MsgRegion_stage_Ok:
  assumes "MsgRegion_stage mmap_stable r (of_nat n) = Ok g" "n < 2 ^ 64"
  shows "g = \<lparr>mr_store = r, mr_hdr = mb_addr r, mr_vecs = mb_addr r + of_nat 56,
      mr_name = mb_addr r + of_nat (56 + 16 * n), mr_count = of_nat n\<rparr>"
    and "n \<le> 1024" and "72 + 16 * n \<le> unat (mb_len r)"
proof -
  have "\<not> MAX_IOV < of_nat n" using assms(1) by (auto simp: MsgRegion_stage_def split: if_splits)
  then show n: "n \<le> 1024"
    using assms(2) by (simp add: MAX_IOV_def word_less_nat_alt unat_of_nat take_bit_nat_eq_self)
  have "bytes_for (of_nat n) = of_nat (72 + 16 * n)" "name_offset (of_nat n) = of_nat (56 + 16 * n)"
    by (simp_all add: bytes_for_def name_offset_def SIZEOF_SockAddrIn_def SIZEOF_MsgHdr_def SIZEOF_IoVec_def)
  moreover have "unat (of_nat (72 + 16 * n) :: u64) = 72 + 16 * n"
    using n by (simp add: unat_of_nat take_bit_nat_eq_self del: of_nat_add)
  ultimately show "72 + 16 * n \<le> unat (mb_len r)"
    and "g = \<lparr>mr_store = r, mr_hdr = mb_addr r, mr_vecs = mb_addr r + of_nat 56,
      mr_name = mb_addr r + of_nat (56 + 16 * n), mr_count = of_nat n\<rparr>"
    using assms(1) by (auto simp: MsgRegion_stage_def mmap_stable_def SIZEOF_MsgHdr_def word_less_nat_alt not_less
        Let_def simp del: of_nat_add split: if_splits)
qed

lemma MsgRegion_stage_Err: "MsgRegion_stage sr r n = Err (r', e) \<Longrightarrow> r' = r"
  by (auto simp: MsgRegion_stage_def Let_def split: if_splits)

text \<open>What the kernel finds by following the address in an entry: the descriptors and the
  bytes of the name.\<close>

definition msg_at :: "ram \<Rightarrow> u64 \<Rightarrow> IoVec list \<times> u8 list" where
  "msg_at m a =
    (let h = MsgHdr_of_bytes (ram_read m a 56)
     in (map (\<lambda>i. IoVec_of_bytes (ram_read m (msg_iov h + of_nat (16 * i)) 16)) [0..<unat (msg_iovlen h)],
         ram_read m (msg_name h) (unat (msg_namelen h))))"

definition owned_vecs :: "MmapBuffer list \<Rightarrow> usize list \<Rightarrow> IoVec list" where
  "owned_vecs bufs lens = map (\<lambda>(b, l). IoVec_new (mb_addr b) l) (zip bufs lens)"

lemma write_descriptors_block:
  assumes "length lens = length bufs" "16 * length bufs < 2 ^ 64"
  shows "write_descriptors mb_addr g bufs lens m =
    ram_write (mr_vecs g) (concat (map IoVec_bytes (owned_vecs bufs lens))) m"
proof -
  let ?f = "\<lambda>(b, l). IoVec_bytes (IoVec_new (mb_addr b) l)"
  have "(\<lambda>(i, buf, l). write_descriptor g i (mb_addr buf) l) = (\<lambda>(i, x). ram_write (mr_vecs g + of_nat (16 * i)) (?f x))"
    by (auto simp: fun_eq_iff write_descriptor_def)
  then have "write_descriptors mb_addr g bufs lens m =
      fold (\<lambda>(i, x). ram_write (mr_vecs g + of_nat (16 * i)) (?f x)) (enumerate 0 (zip bufs lens)) m"
    unfolding write_descriptors_def by (rule arg_cong [where f = "\<lambda>h. fold h (enumerate 0 (zip bufs lens)) m"])
  also have "\<dots> = write_each (mr_vecs g + of_nat (16 * 0)) (map ?f (zip bufs lens)) m"
    by (rule fold_enumerate_write) auto
  also have "map ?f (zip bufs lens) = map IoVec_bytes (owned_vecs bufs lens)"
    by (auto simp: owned_vecs_def)
  finally show ?thesis
    using assms length_concat_uniform [of "map IoVec_bytes (owned_vecs bufs lens)" 16]
    by (simp add: write_each_block owned_vecs_def)
qed

lemma length_staged_vecs:
  "length lens = length bufs \<Longrightarrow> length (concat (map IoVec_bytes (owned_vecs bufs lens))) = 16 * length bufs"
  using length_concat_uniform [of "map IoVec_bytes (owned_vecs bufs lens)" 16] by (simp add: owned_vecs_def)

text \<open>The three parts of a region, and that writing one keeps the others.\<close>

definition region_parts :: "u64 \<Rightarrow> nat \<Rightarrow> ram \<Rightarrow> u8 list \<times> u8 list \<times> u8 list" where
  "region_parts a n m =
     (ram_read m a 56, ram_read m (a + of_nat 56) (16 * n), ram_read m (a + of_nat (56 + 16 * n)) 16)"

lemma parts_hdr:
  "n \<le> 1024 \<Longrightarrow> length h = 56 \<Longrightarrow> region_parts a n (ram_write a h m) = (h, snd (region_parts a n m))"
  using ram_read_other_part [of 56 "16 * n" 0 h a m] ram_read_other_part [of "56 + 16 * n" 16 0 h a m]
    ram_read_write [of h a m]
  by (simp add: region_parts_def del: of_nat_add of_nat_mult of_nat_numeral)

lemma parts_vecs:
  "n \<le> 1024 \<Longrightarrow> length v = 16 * n \<Longrightarrow>
   region_parts a n (ram_write (a + of_nat 56) v m) =
     (fst (region_parts a n m), v, snd (snd (region_parts a n m)))"
  using ram_read_other_part [of 0 56 56 v a m] ram_read_other_part [of "56 + 16 * n" 16 56 v a m]
    ram_read_write [of v "a + of_nat 56" m]
  by (simp add: region_parts_def del: of_nat_add of_nat_mult of_nat_numeral)

lemma parts_name:
  "n \<le> 1024 \<Longrightarrow> length bs = 16 \<Longrightarrow>
   region_parts a n (ram_write (a + of_nat (56 + 16 * n)) bs m) =
     (fst (region_parts a n m), fst (snd (region_parts a n m)), bs)"
  using ram_read_other_part [of 0 56 "56 + 16 * n" bs a m] ram_read_other_part [of 56 "16 * n" "56 + 16 * n" bs a m]
    ram_read_write [of bs "a + of_nat (56 + 16 * n)" m]
  by (simp add: region_parts_def del: of_nat_add of_nat_mult of_nat_numeral)

lemma msg_at_parts:
  assumes "region_parts a n m = (MsgHdr_bytes h, concat (map IoVec_bytes vs), bs)"
    and "msg_iov h = a + of_nat 56" "msg_iovlen h = of_nat n" "length vs = n" "n \<le> 1024"
    and "msg_namelen h = 0 \<or> msg_namelen h = 16 \<and> msg_name h = a + of_nat (56 + 16 * n)"
  shows "msg_at m a = (vs, if msg_namelen h = 0 then [] else bs)"
proof -
  have h: "MsgHdr_of_bytes (ram_read m a 56) = h" using assms(1) by (simp add: region_parts_def)
  have "ram_read m (a + of_nat 56) (16 * n) = concat (map IoVec_bytes vs)"
    using assms(1) by (simp add: region_parts_def)
  then have "IoVec_of_bytes (ram_read m (a + of_nat 56 + of_nat (16 * i)) 16) = vs ! i" if "i < n" for i
    using array_read [of m "a + of_nat 56" 16 n "map IoVec_bytes vs" i] assms(4) that by simp
  moreover have "unat (msg_iovlen h) = n" using assms(3, 5) by (simp add: unat_of_nat take_bit_nat_eq_self)
  ultimately have "map (\<lambda>i. IoVec_of_bytes (ram_read m (msg_iov h + of_nat (16 * i)) 16)) [0..<unat (msg_iovlen h)] = vs"
    using assms(2, 4) by (intro nth_equalityI) simp_all
  moreover have "ram_read m (msg_name h) (unat (msg_namelen h)) = (if msg_namelen h = 0 then [] else bs)"
    using assms(1, 6) by (auto simp: region_parts_def ram_read_def)
  ultimately show ?thesis by (simp add: msg_at_def h)
qed

text \<open>The entry leads to exactly these descriptors and this name, and nothing outside the
  region has changed.\<close>

definition message_staged ::
  "MmapBuffer \<Rightarrow> MmapBuffer list \<Rightarrow> usize list \<Rightarrow> u8 list \<Rightarrow> ram \<Rightarrow> ram \<Rightarrow> u64 \<Rightarrow> bool" where
  "message_staged r bufs lens name m m' a \<longleftrightarrow> msg_at m' a = (owned_vecs bufs lens, name) \<and> kept_outside r m m'"

fun name_bytes :: "u8 list option \<Rightarrow> u8 list" where
  "name_bytes None = []"
| "name_bytes (Some bs) = bs"

definition publish_named :: "MmapBuffer MsgRegion \<Rightarrow> u8 list option \<Rightarrow> ram \<Rightarrow> ram" where
  "publish_named g named m =
     publish_header g (named \<noteq> None) (case named of None \<Rightarrow> m | Some bs \<Rightarrow> ram_write (mr_name g) bs m)"

definition stage_all :: "MmapBuffer MsgRegion \<Rightarrow> MmapBuffer list \<Rightarrow> usize list \<Rightarrow> u8 list option \<Rightarrow> ram \<Rightarrow> ram" where
  "stage_all g bufs lens named m = publish_named g named (write_descriptors mb_addr g bufs lens m)"

lemma staged_vecs:
  assumes "MsgRegion_stage mmap_stable r (of_nat (length bufs)) = Ok g" "length bufs < 2 ^ 64" "length lens = length bufs"
  shows "write_descriptors mb_addr g bufs lens m =
    ram_write (mb_addr r + of_nat 56) (concat (map IoVec_bytes (owned_vecs bufs lens))) m"
  using write_descriptors_block [OF assms(3), where g = g and m = m] MsgRegion_stage_Ok [OF assms(1, 2)] by simp

lemma stage_all_parts:
  assumes g: "MsgRegion_stage mmap_stable r (of_nat (length bufs)) = Ok g" "length bufs < 2 ^ 64"
    and lens: "length lens = length bufs"
    and name: "\<forall>bs. named = Some bs \<longrightarrow> length bs = 16"
  shows "\<exists>bs. region_parts (mb_addr r) (length bufs) (stage_all g bufs lens named m) =
      (MsgHdr_bytes (published_hdr g (named \<noteq> None)), concat (map IoVec_bytes (owned_vecs bufs lens)), bs) \<and>
      (named \<noteq> None \<longrightarrow> bs = name_bytes named)"
    and "kept_outside r m (stage_all g bufs lens named m)"
proof -
  note at = MsgRegion_stage_Ok [OF g] and len = length_staged_vecs [OF lens]
  note vecs = staged_vecs [OF g lens]
  show "\<exists>bs. region_parts (mb_addr r) (length bufs) (stage_all g bufs lens named m) =
      (MsgHdr_bytes (published_hdr g (named \<noteq> None)), concat (map IoVec_bytes (owned_vecs bufs lens)), bs) \<and>
      (named \<noteq> None \<longrightarrow> bs = name_bytes named)"
    using at(1) name unfolding stage_all_def vecs publish_named_def publish_header_def
    by (cases named) (simp_all add: parts_hdr [OF at(2)] parts_vecs [OF at(2) len] parts_name [OF at(2)] del: of_nat_add of_nat_mult of_nat_numeral)
  have "kept_outside r x (ram_write (mb_addr r) (MsgHdr_bytes h) x)" for x h
    using kept_outside_write [of "MsgHdr_bytes h" r x] at(3) by simp
  moreover have "kept_outside r m (write_descriptors mb_addr g bufs lens m)"
    unfolding vecs by (rule kept_outside_write_at) (use at(3) len in simp)
  moreover have "length bs = 16 \<Longrightarrow> kept_outside r x (ram_write (mr_name g) bs x)" for bs x
    using kept_outside_write_at [of "56 + 16 * length bufs" bs r x] at by (simp del: of_nat_add of_nat_mult of_nat_numeral)
  moreover have "mr_hdr g = mb_addr r" using at(1) by simp
  ultimately show "kept_outside r m (stage_all g bufs lens named m)"
    using name unfolding stage_all_def publish_named_def publish_header_def
    by (cases named) (simp_all, (meson kept_outside_trans)+)
qed

lemma staged_message:
  assumes g: "MsgRegion_stage mmap_stable r (of_nat (length bufs)) = Ok g" "length bufs < 2 ^ 64"
    and lens: "length lens = length bufs" "length lens' = length bufs"
    and name: "\<forall>bs. named = Some bs \<longrightarrow> length bs = 16"
  shows "message_staged r bufs lens (name_bytes named) m (stage_all g bufs lens named m) (mr_hdr g)"
    and "message_staged r bufs lens' (name_bytes named) m
      (write_descriptors mb_addr g bufs lens' (stage_all g bufs lens named m)) (mr_hdr g)"
proof -
  note at = MsgRegion_stage_Ok [OF g] and kept = stage_all_parts(2) [OF g lens(1) name]
  let ?m = "stage_all g bufs lens named m" and ?h = "published_hdr g (named \<noteq> None)"
  obtain bs where bs: "region_parts (mb_addr r) (length bufs) ?m =
      (MsgHdr_bytes ?h, concat (map IoVec_bytes (owned_vecs bufs lens)), bs)"
    and nm: "named \<noteq> None \<Longrightarrow> bs = name_bytes named" using stage_all_parts(1) [OF g lens(1) name] by blast
  have h: "msg_iov ?h = mb_addr r + of_nat 56" "msg_iovlen ?h = of_nat (length bufs)"
    "msg_namelen ?h = (if named = None then 0 else 16)"
    "named \<noteq> None \<Longrightarrow> msg_name ?h = mb_addr r + of_nat (56 + 16 * length bufs)"
    using at(1) by (simp_all add: published_hdr_def MsgHdr_default_def SIZEOF_SockAddrIn_def Let_def del: of_nat_add of_nat_mult)
  have nb: "(if msg_namelen ?h = 0 then [] else bs) = name_bytes named" using nm h(3) by (cases named) simp_all
  have hdr: "mr_hdr g = mb_addr r" using at(1) by simp
  have l: "length (owned_vecs bufs lens) = length bufs" "length (owned_vecs bufs lens') = length bufs"
    using lens by (simp_all add: owned_vecs_def)
  have "msg_at ?m (mb_addr r) = (owned_vecs bufs lens, if msg_namelen ?h = 0 then [] else bs)"
    by (rule msg_at_parts [OF bs h(1, 2) l(1) at(2)]) (use h in auto)
  then show "message_staged r bufs lens (name_bytes named) m ?m (mr_hdr g)"
    using kept hdr nb by (simp add: message_staged_def)
  note w = staged_vecs [OF g lens(2)]
  have "region_parts (mb_addr r) (length bufs) (write_descriptors mb_addr g bufs lens' ?m) =
      (MsgHdr_bytes ?h, concat (map IoVec_bytes (owned_vecs bufs lens')), bs)"
    unfolding w using parts_vecs [OF at(2) length_staged_vecs [OF lens(2)]] bs by simp
  then have "msg_at (write_descriptors mb_addr g bufs lens' ?m) (mb_addr r) =
      (owned_vecs bufs lens', if msg_namelen ?h = 0 then [] else bs)"
    by (rule msg_at_parts [OF _ h(1, 2) l(2) at(2)]) (use h in auto)
  moreover have "kept_outside r ?m (write_descriptors mb_addr g bufs lens' ?m)"
    unfolding w by (rule kept_outside_write_at) (use at(3) length_staged_vecs [OF lens(2)] in simp)
  ultimately show "message_staged r bufs lens' (name_bytes named) m (write_descriptors mb_addr g bufs lens' ?m) (mr_hdr g)"
    using kept hdr nb by (auto simp: message_staged_def intro: kept_outside_trans)
qed

lemma staged_vectored:
  assumes "length lens = length bufs" "16 * length bufs \<le> unat (mb_len v)" "pv_bufs p = bufs" "pv_array p = mb_addr v"
  shows "map (\<lambda>i. IoVec_of_bytes (ram_read (write_array mmap_stable p lens m) (mb_addr v + of_nat (16 * i)) 16))
      [0..<length bufs] = owned_vecs bufs lens"
    and "kept_outside v m (write_array mmap_stable p lens m)"
proof -
  let ?bs = "map IoVec_bytes (owned_vecs bufs lens)"
  have "unat (mb_len v) < 2 ^ 64" by (rule unsigned_less [THEN order_less_le_trans]) simp
  then have small: "16 * length bufs < 2 ^ 64" using assms(2) by simp
  let ?g = "\<lparr>mr_store = v, mr_hdr = 0, mr_vecs = mb_addr v, mr_name = 0, mr_count = 0\<rparr>"
  have "write_array mmap_stable p lens m = write_descriptors mb_addr ?g bufs lens m"
    by (simp add: write_array_def write_descriptors_def write_descriptor_def [abs_def] mmap_stable_def assms)
  then have w: "write_array mmap_stable p lens m = ram_write (mb_addr v) (concat ?bs) m"
    using write_descriptors_block [OF assms(1) small, of ?g m] by simp
  have l: "length (owned_vecs bufs lens) = length bufs" using assms(1) by (simp add: owned_vecs_def)
  have "ram_read (ram_write (mb_addr v) (concat ?bs) m) (mb_addr v) (16 * length bufs) = concat ?bs"
    using ram_read_write [of "concat ?bs" "mb_addr v" m] length_staged_vecs [OF assms(1)] small by simp
  then show "map (\<lambda>i. IoVec_of_bytes (ram_read (write_array mmap_stable p lens m) (mb_addr v + of_nat (16 * i)) 16))
      [0..<length bufs] = owned_vecs bufs lens"
    unfolding w using array_read [of _ "mb_addr v" 16 "length bufs" ?bs] l by (intro nth_equalityI) simp_all
  show "kept_outside v m (write_array mmap_stable p lens m)"
    unfolding w by (rule kept_outside_write) (use length_staged_vecs [OF assms(1)] assms(2) in simp)
qed

lemma clamp_lens_swap: "clamp_lens mmap_stable lens bufs = map2 (\<lambda>want b. min want (mb_len b)) lens bufs"
  by (simp add: clamp_lens_def mmap_stable_def)

lemma length_clamp_lens [simp]: "length lens = length bufs \<Longrightarrow> length (clamp_lens sb lens bufs) = length bufs"
  by (simp add: clamp_lens_def)

fun target_bytes :: "SendTarget \<Rightarrow> u8 list option" where
  "target_bytes Connected = None"
| "target_bytes (To sa) = Some (SockAddrIn_bytes sa)"

fun peer_bytes :: "PeerWanted \<Rightarrow> u8 list option" where
  "peer_bytes PeerWanted_No = None"
| "peer_bytes PeerWanted_Yes = Some (replicate 16 0)"

definition target_wf :: "SendTarget \<Rightarrow> bool" where
  "target_wf target = (case target of Connected \<Rightarrow> True | To sa \<Rightarrow> length (sin_zero sa) = 8)"

lemma target_bytes_length: "target_wf target \<Longrightarrow> \<forall>bs. target_bytes target = Some bs \<longrightarrow> length bs = 16"
  by (cases target) (auto simp: target_wf_def SockAddrIn_bytes_def)

lemma peer_bytes_length: "\<forall>bs. peer_bytes peer = Some bs \<longrightarrow> length bs = 16"
  by (cases peer) auto

lemma default_bytes: "SockAddrIn_bytes SockAddrIn_default = replicate 16 0"
  by (simp add: SockAddrIn_bytes_def SockAddrIn_default_def le_bytes_def upt_rec numeral_eq_Suc)

lemma PreparedSendmsg_publish_named: "PreparedSendmsg_publish p m = publish_named (psm_region p) (target_bytes (psm_target p)) m"
  by (cases "psm_target p") (simp_all add: PreparedSendmsg_publish_def publish_named_def write_name_def)

lemma PreparedSendmsgZc_publish_named: "PreparedSendmsgZc_publish p m = publish_named (pmz_region p) (target_bytes (pmz_target p)) m"
  by (cases "pmz_target p") (simp_all add: PreparedSendmsgZc_publish_def publish_named_def write_name_def)

lemma PreparedRecvmsg_publish_named: "PreparedRecvmsg_publish p m = publish_named (prx_region p) (peer_bytes (prx_peer p)) m"
  by (cases "prx_peer p") (simp_all add: PreparedRecvmsg_publish_def publish_named_def write_name_def default_bytes)

lemma mmap_stable_simps [simp]:
  "stable_ptr mmap_stable = mb_addr" "stable_len mmap_stable = mb_len" "stable_mut_ptr mmap_stable = mb_addr"
  by (simp_all add: mmap_stable_def)

lemma sendmsg_spec:
  assumes "length bufs < 2 ^ 32" "length lens = length bufs" "target_wf target"
  shows "(case PreparedSendmsg_new mmap_stable mmap_stable fd bufs r target fl m of
      (Ok p, m') \<Rightarrow>
        message_staged r bufs (map mb_len bufs) (name_bytes (target_bytes target)) m m'
          (sqe_addr (fst (PreparedSendmsg_into_pending p ring i))) \<and>
        (case PreparedSendmsg_with_lens mmap_stable p lens m' of (p', m'') \<Rightarrow>
           message_staged r bufs (map2 (\<lambda>want b. min want (mb_len b)) lens bufs) (name_bytes (target_bytes target)) m m''
             (sqe_addr (fst (PreparedSendmsg_into_pending p' ring i))))
    | (Err (bufs', r', e), m') \<Rightarrow> bufs' = bufs \<and> r' = r \<and> m' = m)"
proof (cases "MsgRegion_stage mmap_stable r (of_nat (length bufs))")
  case (Ok g)
  have "length bufs < 2 ^ 64" using assms(1) by simp
  note st = staged_message [OF Ok this _ _ target_bytes_length [OF assms(3)], where lens = "map mb_len bufs" and lens' = "clamp_lens mmap_stable lens bufs" and m = m]
  show ?thesis
    using st assms(2) Ok
    by (simp add: PreparedSendmsg_new_def PreparedSendmsg_build_def PreparedSendmsg_with_lens_def PreparedSendmsg_write_descriptors_def
        PreparedSendmsg_publish_named stage_all_def PreparedSendmsg_into_pending_def MsgRegion_into_raw_parts_def
        Sqe_sendmsg_ptr_def Sqe_user_data_def clamp_lens_swap Let_def)
next
  case (Err x)
  then show ?thesis by (cases x) (auto simp: PreparedSendmsg_new_def PreparedSendmsg_build_def dest: MsgRegion_stage_Err)
qed

lemma sendmsg_zc_spec:
  assumes "length bufs < 2 ^ 32" "length lens = length bufs" "target_wf target"
  shows "(case PreparedSendmsgZc_new mmap_stable mmap_stable fd bufs r target fl m of
      (Ok p, m') \<Rightarrow>
        message_staged r bufs (map mb_len bufs) (name_bytes (target_bytes target)) m m'
          (sqe_addr (fst (PreparedSendmsgZc_into_pending p ring i))) \<and>
        (case PreparedSendmsgZc_with_lens mmap_stable p lens m' of (p', m'') \<Rightarrow>
           message_staged r bufs (map2 (\<lambda>want b. min want (mb_len b)) lens bufs) (name_bytes (target_bytes target)) m m''
             (sqe_addr (fst (PreparedSendmsgZc_into_pending p' ring i))))
    | (Err (bufs', r', e), m') \<Rightarrow> bufs' = bufs \<and> r' = r \<and> m' = m)"
proof (cases "MsgRegion_stage mmap_stable r (of_nat (length bufs))")
  case (Ok g)
  have "length bufs < 2 ^ 64" using assms(1) by simp
  note st = staged_message [OF Ok this _ _ target_bytes_length [OF assms(3)], where lens = "map mb_len bufs" and lens' = "clamp_lens mmap_stable lens bufs" and m = m]
  show ?thesis
    using st assms(2) Ok
    by (simp add: PreparedSendmsgZc_new_def PreparedSendmsgZc_build_def PreparedSendmsgZc_with_lens_def PreparedSendmsgZc_write_descriptors_def
        PreparedSendmsgZc_publish_named stage_all_def PreparedSendmsgZc_into_pending_def MsgRegion_into_raw_parts_def
        Sqe_sendmsg_zc_ptr_def Sqe_user_data_def clamp_lens_swap Let_def)
next
  case (Err x)
  then show ?thesis by (cases x) (auto simp: PreparedSendmsgZc_new_def PreparedSendmsgZc_build_def dest: MsgRegion_stage_Err)
qed

lemma recvmsg_spec:
  assumes "length bufs < 2 ^ 32" "length lens = length bufs"
  shows "(case PreparedRecvmsg_new mmap_stable mmap_stable fd bufs r peer fl m of
      (Ok p, m') \<Rightarrow>
        message_staged r bufs (map mb_len bufs) (name_bytes (peer_bytes peer)) m m'
          (sqe_addr (fst (PreparedRecvmsg_into_pending p ring i))) \<and>
        (case PreparedRecvmsg_with_lens mmap_stable p lens m' of (p', m'') \<Rightarrow>
           message_staged r bufs (map2 (\<lambda>want b. min want (mb_len b)) lens bufs) (name_bytes (peer_bytes peer)) m m''
             (sqe_addr (fst (PreparedRecvmsg_into_pending p' ring i))))
    | (Err (bufs', r', e), m') \<Rightarrow> bufs' = bufs \<and> r' = r \<and> m' = m)"
proof (cases "MsgRegion_stage mmap_stable r (of_nat (length bufs))")
  case (Ok g)
  have "length bufs < 2 ^ 64" using assms(1) by simp
  note st = staged_message [OF Ok this _ _ peer_bytes_length, where lens = "map mb_len bufs" and lens' = "clamp_lens mmap_stable lens bufs" and m = m]
  show ?thesis
    using st assms(2) Ok
    by (simp add: PreparedRecvmsg_new_def PreparedRecvmsg_build_def PreparedRecvmsg_with_lens_def PreparedRecvmsg_write_descriptors_def
        PreparedRecvmsg_publish_named stage_all_def PreparedRecvmsg_into_pending_def MsgRegion_into_raw_parts_def
        Sqe_recvmsg_ptr_def Sqe_user_data_def clamp_lens_swap Let_def)
next
  case (Err x)
  then show ?thesis by (cases x) (auto simp: PreparedRecvmsg_new_def PreparedRecvmsg_build_def dest: MsgRegion_stage_Err)
qed

definition vectored_staged ::
  "MmapBuffer \<Rightarrow> MmapBuffer list \<Rightarrow> usize list \<Rightarrow> ram \<Rightarrow> ram \<Rightarrow> IoUringSqe \<Rightarrow> bool" where
  "vectored_staged v bufs lens m m' sqe \<longleftrightarrow>
     map (\<lambda>i. IoVec_of_bytes (ram_read m' (sqe_addr sqe + of_nat (16 * i)) 16)) [0..<unat (sqe_len sqe)] =
       owned_vecs bufs lens \<and> kept_outside v m m'"

lemma vectored_entry:
  "sqe_addr (fst (PreparedVectored_into_pending p ring i)) = pv_array p"
  "sqe_len (fst (PreparedVectored_into_pending p ring i)) = of_nat (length (pv_bufs p))"
  by (cases "pv_direction p";
      simp add: PreparedVectored_into_pending_def Sqe_readv_ptr_def Sqe_writev_ptr_def Sqe_user_data_def Let_def)+

lemma vectored_ticket: "tvc_bufs (snd (PreparedVectored_into_pending p ring i)) = pv_bufs p"
  by (simp add: PreparedVectored_into_pending_def Let_def)

lemma vectored_spec:
  assumes "length bufs < 2 ^ 32" "length lens = length bufs"
  shows "(case readv mmap_stable mmap_stable fd bufs v off m of
      (Ok p, m') \<Rightarrow>
        vectored_staged v bufs (map mb_len bufs) m m' (fst (PreparedVectored_into_pending p ring i)) \<and>
        (case PreparedVectored_with_lens mmap_stable p lens m' of (p', m'') \<Rightarrow>
           vectored_staged v bufs (map2 (\<lambda>want b. min want (mb_len b)) lens bufs) m m''
             (fst (PreparedVectored_into_pending p' ring i)))
    | (Err (bufs', v', e), m') \<Rightarrow> bufs' = bufs \<and> v' = v \<and> m' = m)" (is ?R) and "(case writev mmap_stable mmap_stable fd bufs v off m of
      (Ok p, m') \<Rightarrow>
        vectored_staged v bufs (map mb_len bufs) m m' (fst (PreparedVectored_into_pending p ring i)) \<and>
        (case PreparedVectored_with_lens mmap_stable p lens m' of (p', m'') \<Rightarrow>
           vectored_staged v bufs (map2 (\<lambda>want b. min want (mb_len b)) lens bufs) m m''
             (fst (PreparedVectored_into_pending p' ring i)))
    | (Err (bufs', v', e), m') \<Rightarrow> bufs' = bufs \<and> v' = v \<and> m' = m)" (is ?W)
proof -
  let ?n = "length bufs"
  have n: "unat (of_nat ?n :: u32) = ?n" "unat (16 * of_nat ?n :: u64) = 16 * ?n"
    using assms(1) by (simp_all add: unat_word_ariths unat_of_nat mod_simps take_bit_nat_eq_self)
  have "(case PreparedVectored_build mmap_stable mmap_stable fd bufs v off dir (map mb_len bufs) m of
      (Ok p, m') \<Rightarrow>
        vectored_staged v bufs (map mb_len bufs) m m' (fst (PreparedVectored_into_pending p ring i)) \<and>
        (case PreparedVectored_with_lens mmap_stable p lens m' of (p', m'') \<Rightarrow>
           vectored_staged v bufs (map2 (\<lambda>want b. min want (mb_len b)) lens bufs) m m''
             (fst (PreparedVectored_into_pending p' ring i)))
    | (Err (bufs', v', e), m') \<Rightarrow> bufs' = bufs \<and> v' = v \<and> m' = m)" for dir
  proof (cases "unat (mb_len v) < 16 * ?n \<or> mb_addr v mod ALIGN_IoVec \<noteq> 0")
    case True
    then show ?thesis
      by (elim disjE) (simp_all add: PreparedVectored_build_def SIZEOF_IoVec_def word_less_nat_alt n Let_def)
  next
    case False
    then have room: "16 * ?n \<le> unat (mb_len v)" by simp
    let ?p = "\<lparr>pv_bufs = bufs, pv_vecs = v, pv_fd = fd, pv_offset = off, pv_direction = dir, pv_array = mb_addr v\<rparr>"
    have b: "PreparedVectored_build mmap_stable mmap_stable fd bufs v off dir (map mb_len bufs) m =
        (Ok ?p, write_array mmap_stable ?p (map mb_len bufs) m)"
      using False by (simp add: PreparedVectored_build_def SIZEOF_IoVec_def word_less_nat_alt n Let_def)
    have l: "length (map2 (\<lambda>want b. min want (mb_len b)) lens bufs) = ?n" using assms(2) by simp
    have "length (map mb_len bufs) = ?n" by simp
    note st = staged_vectored [OF this room, of ?p] staged_vectored [OF l room, of ?p]
    show ?thesis
      using st n kept_outside_trans [OF st(2) st(4)]
      by (simp add: b vectored_staged_def vectored_entry PreparedVectored_with_lens_def clamp_lens_swap)
  qed
  then show ?R ?W by (simp_all add: readv_def writev_def)
qed

section \<open>Properties\<close>

text \<open>C33. What a message or vectored request stages is what the kernel finds. Following the
  address in the entry of a \<open>sendmsg\<close>, zero-copy \<open>sendmsg\<close> or \<open>recvmsg\<close> through the header
  leads to one descriptor per owned buffer, with its address and its length, and to the
  address to send to, or to sixteen zero bytes for the peer, or to no name at all; the entry of
  \<open>readv\<close> and \<open>writev\<close> names the descriptors themselves. \<open>with_lens\<close> never names more of a
  buffer than it has. No byte outside the staging storage changes. A region that is too small
  or misaligned, or too many buffers, give all storage back with nothing written.\<close>

theorem messages_read_back:
  assumes "length bufs < 2 ^ 32" "length lens = length bufs" "target_wf target"
  shows "(case PreparedSendmsg_new mmap_stable mmap_stable fd bufs r target fl m of
      (Ok p, m') \<Rightarrow>
        message_staged r bufs (map mb_len bufs) (name_bytes (target_bytes target)) m m'
          (sqe_addr (fst (PreparedSendmsg_into_pending p ring i))) \<and>
        (case PreparedSendmsg_with_lens mmap_stable p lens m' of (p', m'') \<Rightarrow>
           message_staged r bufs (map2 (\<lambda>want b. min want (mb_len b)) lens bufs) (name_bytes (target_bytes target)) m m''
             (sqe_addr (fst (PreparedSendmsg_into_pending p' ring i))))
    | (Err (bufs', r', e), m') \<Rightarrow> bufs' = bufs \<and> r' = r \<and> m' = m) \<and>
   (case PreparedSendmsgZc_new mmap_stable mmap_stable fd bufs r target fl m of
      (Ok p, m') \<Rightarrow>
        message_staged r bufs (map mb_len bufs) (name_bytes (target_bytes target)) m m'
          (sqe_addr (fst (PreparedSendmsgZc_into_pending p ring i))) \<and>
        (case PreparedSendmsgZc_with_lens mmap_stable p lens m' of (p', m'') \<Rightarrow>
           message_staged r bufs (map2 (\<lambda>want b. min want (mb_len b)) lens bufs) (name_bytes (target_bytes target)) m m''
             (sqe_addr (fst (PreparedSendmsgZc_into_pending p' ring i))))
    | (Err (bufs', r', e), m') \<Rightarrow> bufs' = bufs \<and> r' = r \<and> m' = m) \<and>
   (case PreparedRecvmsg_new mmap_stable mmap_stable fd bufs r peer fl m of
      (Ok p, m') \<Rightarrow>
        message_staged r bufs (map mb_len bufs) (name_bytes (peer_bytes peer)) m m'
          (sqe_addr (fst (PreparedRecvmsg_into_pending p ring i))) \<and>
        (case PreparedRecvmsg_with_lens mmap_stable p lens m' of (p', m'') \<Rightarrow>
           message_staged r bufs (map2 (\<lambda>want b. min want (mb_len b)) lens bufs) (name_bytes (peer_bytes peer)) m m''
             (sqe_addr (fst (PreparedRecvmsg_into_pending p' ring i))))
    | (Err (bufs', r', e), m') \<Rightarrow> bufs' = bufs \<and> r' = r \<and> m' = m) \<and>
   (case readv mmap_stable mmap_stable fd bufs v off m of
      (Ok p, m') \<Rightarrow>
        vectored_staged v bufs (map mb_len bufs) m m' (fst (PreparedVectored_into_pending p ring i)) \<and>
        (case PreparedVectored_with_lens mmap_stable p lens m' of (p', m'') \<Rightarrow>
           vectored_staged v bufs (map2 (\<lambda>want b. min want (mb_len b)) lens bufs) m m''
             (fst (PreparedVectored_into_pending p' ring i)))
    | (Err (bufs', v', e), m') \<Rightarrow> bufs' = bufs \<and> v' = v \<and> m' = m) \<and>
   (case writev mmap_stable mmap_stable fd bufs v off m of
      (Ok p, m') \<Rightarrow>
        vectored_staged v bufs (map mb_len bufs) m m' (fst (PreparedVectored_into_pending p ring i)) \<and>
        (case PreparedVectored_with_lens mmap_stable p lens m' of (p', m'') \<Rightarrow>
           vectored_staged v bufs (map2 (\<lambda>want b. min want (mb_len b)) lens bufs) m m''
             (fst (PreparedVectored_into_pending p' ring i)))
    | (Err (bufs', v', e), m') \<Rightarrow> bufs' = bufs \<and> v' = v \<and> m' = m)"
  using sendmsg_spec [OF assms] sendmsg_zc_spec [OF assms] recvmsg_spec [OF assms(1, 2)] vectored_spec [OF assms(1, 2)]
  by (intro conjI)

text \<open>C34. What a receive reports is what the kernel wrote. Let the kernel, which found the header
  by the entry and the place for the name in that header, leave the header \<open>h\<close> and the peer
  \<open>sa\<close> there. After the ticket is redeemed the byte count is the completion's result, with the
  flags of \<open>h\<close>, or the error if it was one; the peer is reported exactly when it was asked for
  and \<open>h\<close> says that a whole IPv4 address arrived, and a longer, shorter or other address is told
  apart from it. All buffers and the region come back.\<close>

theorem recvmsg_reports_kernel:
  assumes "PreparedRecvmsg_new mmap_stable mmap_stable fd bufs r peer fl m = (Ok p, m1)" "length bufs < 2 ^ 32"
    and "PreparedRecvmsg_into_pending p ring i = (sqe, t)" "PendingRecvmsg_redeem t rc = Ok d"
    and "ram_read m2 (sqe_addr sqe) 56 = MsgHdr_bytes h"
    and "peer = PeerWanted_Yes \<Longrightarrow>
      ram_read m2 (msg_name (MsgHdr_of_bytes (ram_read m1 (sqe_addr sqe) 56))) 16 = SockAddrIn_bytes sa"
    and "length (sin_zero sa) = 8"
  shows "RecvmsgCompleted_into_parts d m2 =
    (case from_failed_cqe (rc_result rc) of
       Some e \<Rightarrow> Err e
     | None \<Rightarrow> Ok \<lparr>rv_bytes = rc_result rc, rv_flags = msg_flags h\<rparr>,
     if sint (rc_result rc) < 0 \<or> peer = PeerWanted_No \<or> msg_namelen h = 0 then PeerAddress_None
     else if msg_namelen h > 16 then Truncated (msg_namelen h) 16
     else if msg_namelen h = 16 \<and> sin_family sa = 2 then V4 sa
     else PeerAddress_Other (sin_family sa) (msg_namelen h),
     bufs, r)"
proof -
  obtain g where g: "MsgRegion_stage mmap_stable r (of_nat (length bufs)) = Ok g"
    and p: "p = \<lparr>prx_bufs = bufs, prx_region = g, prx_fd = fd, prx_flags = fl, prx_peer = peer\<rparr>"
    and m1: "m1 = stage_all g bufs (map mb_len bufs) (peer_bytes peer) m"
    using assms(1)
    by (auto simp: PreparedRecvmsg_new_def PreparedRecvmsg_build_def PreparedRecvmsg_write_descriptors_def
        PreparedRecvmsg_publish_named stage_all_def Let_def split: result.splits prod.splits)
  have small: "length bufs < 2 ^ 64" using assms(2) by simp
  note at = MsgRegion_stage_Ok [OF g small]
  have sqe: "sqe_addr sqe = mb_addr r" using assms(3) p at(1)
    by (auto simp: PreparedRecvmsg_into_pending_def MsgRegion_into_raw_parts_def Sqe_recvmsg_ptr_def
        Sqe_user_data_def Let_def)
  have d: "d = \<lparr>drm_bufs = bufs, drm_region = g, drm_result = rc_result rc, drm_wanted = peer\<rparr>"
    using assms(3, 4) p
    by (auto simp: PreparedRecvmsg_into_pending_def PendingRecvmsg_redeem_def MsgRegion_into_raw_parts_def
        MsgRegion_from_parts_def Let_def split: if_splits)
  have "length (map mb_len bufs) = length bufs" by simp
  from stage_all_parts(1) [OF g small this peer_bytes_length, of peer m]
  have h1: "ram_read m1 (mb_addr r) 56 = MsgHdr_bytes (published_hdr g (peer_bytes peer \<noteq> None))"
    by (auto simp: m1 region_parts_def)
  have nm: "staged_name g m2 = sa" if "peer = PeerWanted_Yes"
    using assms(6, 7) sqe h1 that by (simp add: staged_name_def published_hdr_def SockAddrIn_read_back Let_def)
  have hdr: "RecvmsgCompleted_header d m2 = h"
    using assms(5) sqe at(1) by (simp add: d RecvmsgCompleted_header_def MsgRegion_header_def)
  have order: "(if 16 < n then A else if n < 16 \<or> f \<noteq> 2 then B else C) =
      (if 16 < n then A else if n = 16 \<and> f = 2 then C else B)" for n :: u32 and f :: u16 and A B C :: PeerAddress
    by (cases n "16 :: u32" rule: linorder_cases) auto
  have cs: "RESERVED_NAME_LEN = 16" "AF_INET_FAMILY = 2"
    by (simp_all add: RESERVED_NAME_LEN_def SIZEOF_SockAddrIn_def AF_INET_FAMILY_def)
  have "RecvmsgCompleted_peer d m2 =
     (if sint (rc_result rc) < 0 \<or> peer = PeerWanted_No \<or> msg_namelen h = 0 then PeerAddress_None
      else if msg_namelen h > 16 then Truncated (msg_namelen h) 16
      else if msg_namelen h = 16 \<and> sin_family sa = 2 then V4 sa
      else PeerAddress_Other (sin_family sa) (msg_namelen h))"
    unfolding RecvmsgCompleted_peer_def RecvmsgCompleted_failed_def hdr cs Let_def order
    using nm by (cases peer) (simp_all add: d)
  moreover have "drm_result d = rc_result rc" "drm_bufs d = bufs" "mr_store (drm_region d) = r"
    using at(1) by (simp_all add: d)
  ultimately show ?thesis
    by (simp only: RecvmsgCompleted_into_parts_def RecvmsgCompleted_received_def hdr)
qed

text \<open>The layout \<open>io_uring_recvmsg_out\<close> in front of what a multishot receive delivers.\<close>

definition RecvmsgOut_bytes :: "RecvmsgOut \<Rightarrow> u8 list" where
  "RecvmsgOut_bytes h =
     le_bytes 4 (ro_namelen h) @ le_bytes 4 (ro_controllen h) @ le_bytes 4 (ro_payloadlen h) @ le_bytes 4 (ro_flags h)"

lemma length_RecvmsgOut_bytes [simp]: "length (RecvmsgOut_bytes h) = 16"
  by (simp add: RecvmsgOut_bytes_def)

lemma read_u32_take:
  assumes "off + 4 \<le> length buf"
  shows "read_u32 buf off = of_le (take 4 (drop off buf))"
proof -
  have "take 4 (drop off buf) = [buf ! off, buf ! (off + 1), buf ! (off + 2), buf ! (off + 3)]"
    using assms by (intro nth_equalityI) (auto simp: less_Suc_eq nth_Cons numeral_eq_Suc)
  then show ?thesis by (simp add: read_u32_def)
qed

lemma parsed_header:
  "length (RecvmsgOut_bytes h @ rest) \<ge> 16 \<Longrightarrow>
   \<lparr>ro_namelen = read_u32 (RecvmsgOut_bytes h @ rest) 0, ro_controllen = read_u32 (RecvmsgOut_bytes h @ rest) 4,
    ro_payloadlen = read_u32 (RecvmsgOut_bytes h @ rest) 8, ro_flags = read_u32 (RecvmsgOut_bytes h @ rest) 12\<rparr> = h"
  by (simp add: read_u32_take) (simp add: RecvmsgOut_bytes_def of_le_bytes)

lemma parse_short:
  assumes "length buf < 16 + unat n + unat c"
  shows "RecvmsgOut_parse buf n c = Some None"
proof -
  have "unat (16 + ucast n + ucast c :: u64) = 16 + unat n + unat c"
    using unat_u32_less [of n] unat_u32_less [of c] by (simp add: unat_word_ariths unat_ucast_up)
  then show ?thesis
    using assms unat_u32_less [of n] unat_u32_less [of c]
    by (simp add: RecvmsgOut_parse_def checked_add_def RecvmsgOut_SIZE_def unat_ucast_up unat_word_ariths Let_def)
qed

lemma index_range_mid:
  assumes "unat a = length xs" "unat (b :: u64) = length xs + k" "k \<le> length ys"
  shows "index_range (xs @ ys) a b = Some (take k ys)"
  using assms by (simp add: index_range_def word_le_nat_alt)

lemma parse_laid_out:
  assumes "length nr = unat n" "length cr = unat c" "length payload < 2 ^ 63"
  shows "RecvmsgOut_parse (RecvmsgOut_bytes h @ nr @ cr @ payload) n c =
    Some (Some \<lparr>rp_header = h, rp_name = take (min (unat (ro_namelen h)) (unat n)) nr,
      rp_control = take (min (unat (ro_controllen h)) (unat c)) cr, rp_payload = payload\<rparr>)"
proof -
  let ?buf = "RecvmsgOut_bytes h @ nr @ cr @ payload"
  let ?nl = "min (ucast (ro_namelen h)) (ucast n) :: u64" and ?cl = "min (ucast (ro_controllen h)) (ucast c) :: u64"
  note small = unat_u32_less [of n] unat_u32_less [of c]
  have l: "unat ?nl = min (unat (ro_namelen h)) (unat n)" "unat ?cl = min (unat (ro_controllen h)) (unat c)"
    by (simp_all add: min_def word_le_nat_alt unat_ucast_up)
  have u: "unat (16 + ucast n :: u64) = 16 + unat n" "unat (16 + ucast n + ucast c :: u64) = 16 + unat n + unat c"
    "unat (16 + ?nl) = 16 + unat ?nl" "unat (16 + ucast n + ?cl) = 16 + unat n + unat ?cl"
    "unat (of_nat (length ?buf) :: u64) = length ?buf"
    using small assms l by (simp_all add: unat_word_ariths unat_ucast_up unat_of_nat take_bit_nat_eq_self del: of_nat_add)
  have "index_range ?buf 16 (16 + ?nl) = Some (take (min (unat (ro_namelen h)) (unat n)) nr)"
    using index_range_mid [of 16 "RecvmsgOut_bytes h" "16 + ?nl" "unat ?nl" "nr @ cr @ payload"] u l assms by simp
  moreover have "index_range ?buf (16 + ucast n) (16 + ucast n + ?cl) =
      Some (take (min (unat (ro_controllen h)) (unat c)) cr)"
    using index_range_mid [of "16 + ucast n" "RecvmsgOut_bytes h @ nr" "16 + ucast n + ?cl" "unat ?cl" "cr @ payload"]
      u l assms by simp
  moreover have "index_range ?buf (16 + ucast n + ucast c) (of_nat (length ?buf)) = Some payload"
    using index_range_mid [of "16 + ucast n + ucast c" "RecvmsgOut_bytes h @ nr @ cr" "of_nat (length ?buf)"
        "length payload" payload] u assms by simp
  moreover have "Option.bind (checked_add RecvmsgOut_SIZE (ucast n)) (\<lambda>x. checked_add x (ucast c)) =
      Some (16 + ucast n + ucast c)"
    using small u by (simp add: checked_add_def RecvmsgOut_SIZE_def unat_ucast_up)
  moreover have "\<not> length ?buf < unat (16 + ucast n + ucast c :: u64)" using u assms by simp
  moreover have "RecvmsgOut_SIZE = 16" by (simp add: RecvmsgOut_SIZE_def)
  moreover have "ro_namelen h = read_u32 ?buf 0" "ro_controllen h = read_u32 ?buf 4"
    using parsed_header [of h "nr @ cr @ payload"] by (metis RecvmsgOut.select_convs(1,2) length_RecvmsgOut_bytes length_append le_add1)+
  ultimately show ?thesis
    using parsed_header [of h "nr @ cr @ payload"]
    unfolding RecvmsgOut_parse_def Let_def by simp
qed

text \<open>Splitting what a multishot receive delivers never reads out of bounds. A buffer too
  short for the header and the two reserved regions is refused. Any other is a header, the two
  regions and a payload, and parsing gives back that header and payload, and of each region the
  bytes the header says are there, never more than were reserved.\<close>

lemma recvmsg_out_parsed:
  assumes "length buf < 2 ^ 63"
  shows "(length buf < 16 + unat n + unat c \<longrightarrow> RecvmsgOut_parse buf n c = Some None) \<and>
    (\<forall>h nr cr payload.
       buf = RecvmsgOut_bytes h @ nr @ cr @ payload \<longrightarrow> length nr = unat n \<longrightarrow> length cr = unat c \<longrightarrow>
       RecvmsgOut_parse buf n c =
         Some (Some \<lparr>rp_header = h, rp_name = take (min (unat (ro_namelen h)) (unat n)) nr,
           rp_control = take (min (unat (ro_controllen h)) (unat c)) cr, rp_payload = payload\<rparr>))"
  using assms parse_short parse_laid_out by auto

lemma not_within_apart:
  "apart (mb_addr b) (unat (mb_len b)) (mb_addr b') (unat (mb_len b')) \<Longrightarrow> unat l \<le> unat (mb_len b) \<Longrightarrow> l \<noteq> 0 \<Longrightarrow>
   \<not> slice_within \<lparr>sl_ptr = mb_addr b, sl_len = l\<rparr> b'"
  by (auto simp: apart_def slice_within_def word_le_nat_alt simp flip: unat_gt_0)

lemma clamp_len_nonzero:
  assumes "l \<noteq> 0"
  shows "unat (ucast (clamp_len l) :: u64) \<le> unat l" "(ucast (clamp_len l) :: u64) \<noteq> 0"
proof -
  have "clamp_len l \<noteq> 0"
  proof (cases "l > ucast (- 1 :: u32)")
    case False
    then have "unat l < 2 ^ 32" by (simp add: word_less_nat_alt unat_ucast_up unsigned_minus_1_eq_mask mask_eq_exp_minus_1)
    then show ?thesis using False assms
      by (simp add: clamp_len_def word_unat_eq_iff unsigned_ucast_eq take_bit_nat_eq_self)
  qed (simp add: clamp_len_def)
  then show "(ucast (clamp_len l) :: u64) \<noteq> 0" by (simp add: word_unat_eq_iff unat_ucast_up)
  show "unat (ucast (clamp_len l) :: u64) \<le> unat l" using clamp_len_le by (simp add: unat_ucast_up)
qed

text \<open>C36. A buffer can be replaced after its address was taken. The preparing types lend their
  buffer mutably, so the caller may exchange it for another one that lies elsewhere. The entry of
  the read or zero-copy send then still names the old buffer, no part of which belongs to the
  ticket, and redeeming the ticket gives back the new one; a \<open>readv\<close> and a \<open>sendmsg\<close> still lead
  the kernel to the old buffers while the ticket holds the new ones.\<close>

theorem replaced_buffer_still_named:
  assumes "apart (mb_addr b) (unat (mb_len b)) (mb_addr b') (unat (mb_len b'))" "mb_len b \<noteq> 0" "length bufs < 2 ^ 32"
    "target_wf target"
  shows "(case Prepared_into_pending (Prepared_buffer_mut (\<lambda>_. b') (Prepared_read mmap_stable fd b off)) ring i of
      (sqe, t) \<Rightarrow> sqe_addr sqe = mb_addr b \<and> pd_buf t = b' \<and>
        \<not> slice_within \<lparr>sl_ptr = sqe_addr sqe, sl_len = ucast (sqe_len sqe)\<rparr> b' \<and>
        (\<forall>r d. Pending_redeem t r = Ok d \<longrightarrow> cp_buf d = b')) \<and>
   (case PreparedZc_into_pending (PreparedZc_buffer_mut (\<lambda>_. b') (PreparedZc_send mmap_stable fd b fl)) ring i of
      (sqe, t) \<Rightarrow> sqe_addr sqe = mb_addr b \<and> zc_buf t = b' \<and>
        \<not> slice_within \<lparr>sl_ptr = sqe_addr sqe, sl_len = ucast (sqe_len sqe)\<rparr> b' \<and>
        (\<forall>r d. PendingZc_redeem t r = Ok d \<longrightarrow> zd_buf d = b')) \<and>
   (\<forall>p m'. readv mmap_stable mmap_stable fd bufs v off m = (Ok p, m') \<longrightarrow>
      (case PreparedVectored_into_pending (PreparedVectored_buffers_mut (\<lambda>_. map (\<lambda>_. b') bufs) p) ring i of
         (sqe, t) \<Rightarrow> vectored_staged v bufs (map mb_len bufs) m m' sqe \<and> tvc_bufs t = map (\<lambda>_. b') bufs)) \<and>
   (\<forall>p m'. PreparedSendmsg_new mmap_stable mmap_stable fd bufs v target fl m = (Ok p, m') \<longrightarrow>
      (case PreparedSendmsg_into_pending (PreparedSendmsg_buffers_mut (\<lambda>_. map (\<lambda>_. b') bufs) p) ring i of
         (sqe, t) \<Rightarrow> message_staged v bufs (map mb_len bufs) (name_bytes (target_bytes target)) m m' (sqe_addr sqe) \<and>
           tsm_bufs t = map (\<lambda>_. b') bufs))"
proof (intro conjI)
  note out = not_within_apart [OF assms(1)] and len = clamp_len_nonzero [OF assms(2)]
  show "case Prepared_into_pending (Prepared_buffer_mut (\<lambda>_. b') (Prepared_read mmap_stable fd b off)) ring i of
      (sqe, t) \<Rightarrow> sqe_addr sqe = mb_addr b \<and> pd_buf t = b' \<and>
        \<not> slice_within \<lparr>sl_ptr = sqe_addr sqe, sl_len = ucast (sqe_len sqe)\<rparr> b' \<and>
        (\<forall>r d. Pending_redeem t r = Ok d \<longrightarrow> cp_buf d = b')"
    using out len by (auto simp: Prepared_into_pending_def Prepared_buffer_mut_def Prepared_read_def Sqe_read_ptr_def
        Sqe_user_data_def Pending_redeem_def Let_def split: if_splits)
  show "case PreparedZc_into_pending (PreparedZc_buffer_mut (\<lambda>_. b') (PreparedZc_send mmap_stable fd b fl)) ring i of
      (sqe, t) \<Rightarrow> sqe_addr sqe = mb_addr b \<and> zc_buf t = b' \<and>
        \<not> slice_within \<lparr>sl_ptr = sqe_addr sqe, sl_len = ucast (sqe_len sqe)\<rparr> b' \<and>
        (\<forall>r d. PendingZc_redeem t r = Ok d \<longrightarrow> zd_buf d = b')"
    using out len by (auto simp: PreparedZc_into_pending_def PreparedZc_buffer_mut_def PreparedZc_send_def
        Sqe_send_zc_ptr_def Sqe_user_data_def PendingZc_redeem_def Let_def split: if_splits)
  have l: "length (map mb_len bufs) = length bufs" by simp
  have "vectored_staged v bufs (map mb_len bufs) m m' (fst (PreparedVectored_into_pending p ring i))" "pv_bufs p = bufs"
    if "readv mmap_stable mmap_stable fd bufs v off m = (Ok p, m')" for p m'
    using vectored_spec(1) [OF assms(3) l, where fd = fd and v = v and off = off and m = m and ring = ring and i = i] that
    by (auto simp: readv_def PreparedVectored_build_def Let_def split: if_splits)
  then show "\<forall>p m'. readv mmap_stable mmap_stable fd bufs v off m = (Ok p, m') \<longrightarrow>
      (case PreparedVectored_into_pending (PreparedVectored_buffers_mut (\<lambda>_. map (\<lambda>_. b') bufs) p) ring i of
         (sqe, t) \<Rightarrow> vectored_staged v bufs (map mb_len bufs) m m' sqe \<and> tvc_bufs t = map (\<lambda>_. b') bufs)"
    by (simp add: case_prod_beta vectored_staged_def vectored_entry PreparedVectored_buffers_mut_def
        vectored_ticket)
  show "\<forall>p m'. PreparedSendmsg_new mmap_stable mmap_stable fd bufs v target fl m = (Ok p, m') \<longrightarrow>
      (case PreparedSendmsg_into_pending (PreparedSendmsg_buffers_mut (\<lambda>_. map (\<lambda>_. b') bufs) p) ring i of
         (sqe, t) \<Rightarrow> message_staged v bufs (map mb_len bufs) (name_bytes (target_bytes target)) m m' (sqe_addr sqe) \<and>
           tsm_bufs t = map (\<lambda>_. b') bufs)"
    using sendmsg_spec [OF assms(3) l assms(4), where fd = fd and r = v and fl = fl and m = m and ring = ring and i = i]
    by (auto simp: PreparedSendmsg_into_pending_def PreparedSendmsg_buffers_mut_def MsgRegion_into_raw_parts_def Let_def)
qed

section \<open>Examples\<close>

definition ex_buf :: "u64 \<Rightarrow> u64 \<Rightarrow> MmapBuffer" where
  "ex_buf a l = \<lparr>mb_addr = a, mb_len = l, mb_mapped = 4096\<rparr>"

lemma ex_stage:
  "MsgRegion_stage mmap_stable (ex_buf 0x8000 4096) 1 =
     Ok \<lparr>mr_store = ex_buf 0x8000 4096, mr_hdr = 0x8000, mr_vecs = 0x8038, mr_name = 0x8048, mr_count = 1\<rparr>"
proof -
  have "(0x8000 :: u64) mod 8 = 0" by (simp add: word_unat_eq_iff unat_mod)
  then show ?thesis
    by (simp add: MsgRegion_stage_def ex_buf_def MAX_IOV_def bytes_for_def name_offset_def SIZEOF_MsgHdr_def
        SIZEOF_IoVec_def SIZEOF_SockAddrIn_def ALIGN_MsgHdr_def)
qed

theorem messages_read_back_witness:
  "\<exists>p m'. PreparedSendmsg_new mmap_stable mmap_stable (RawFd 3) [ex_buf 0x9000 100] (ex_buf 0x8000 4096) Connected 0 (\<lambda>_. 0) =
      (Ok p, m') \<and>
     msg_at m' (sqe_addr (fst (PreparedSendmsg_into_pending p (RingId 1) (RequestId 2)))) =
       ([\<lparr>iov_base = 0x9000, iov_len = 100\<rparr>], [])"
proof -
  obtain p m' where c: "PreparedSendmsg_new mmap_stable mmap_stable (RawFd 3) [ex_buf 0x9000 100] (ex_buf 0x8000 4096)
      Connected 0 (\<lambda>_. 0) = (Ok p, m')"
    by (simp add: PreparedSendmsg_new_def PreparedSendmsg_build_def ex_stage Let_def)
  have "length [ex_buf 0x9000 100] < 2 ^ 32" "length [7] = length [ex_buf 0x9000 100]" "target_wf Connected"
    by (simp_all add: target_wf_def)
  from messages_read_back [OF this, where fd = "RawFd 3" and r = "ex_buf 0x8000 4096" and m = "\<lambda>_. 0" and fl = 0,
      THEN conjunct1] c
  show ?thesis by (simp add: message_staged_def owned_vecs_def IoVec_new_def ex_buf_def)
qed

theorem recvmsg_reports_kernel_witness:
  "\<exists>p m1 sqe t d. PreparedRecvmsg_new mmap_stable mmap_stable (RawFd 3) [ex_buf 0x9000 100] (ex_buf 0x8000 4096)
      PeerWanted_No 0 (\<lambda>_. 0) = (Ok p, m1) \<and>
     PreparedRecvmsg_into_pending p (RingId 1) (RequestId 2) = (sqe, t) \<and>
     PendingRecvmsg_redeem t \<lparr>rc_ring = RingId 1, rc_id = RequestId 2, rc_result = 5, rc_flags = 0\<rparr> = Ok d \<and>
     fst (snd (RecvmsgCompleted_into_parts d (ram_write 0x8000 (MsgHdr_bytes MsgHdr_default) m1))) = PeerAddress_None"
proof -
  let ?rc = "\<lparr>rc_ring = RingId 1, rc_id = RequestId 2, rc_result = 5, rc_flags = 0\<rparr>"
  obtain p m1 where c: "PreparedRecvmsg_new mmap_stable mmap_stable (RawFd 3) [ex_buf 0x9000 100] (ex_buf 0x8000 4096)
      PeerWanted_No 0 (\<lambda>_. 0) = (Ok p, m1)" and h: "mr_hdr (prx_region p) = 0x8000"
    by (simp add: PreparedRecvmsg_new_def PreparedRecvmsg_build_def ex_stage Let_def)
  obtain sqe t where t: "PreparedRecvmsg_into_pending p (RingId 1) (RequestId 2) = (sqe, t)" by fastforce
  then have e: "sqe_addr sqe = 0x8000" "trm_ring t = RingId 1" "trm_id t = RequestId 2" using h
    by (auto simp: PreparedRecvmsg_into_pending_def MsgRegion_into_raw_parts_def Sqe_recvmsg_ptr_def Sqe_user_data_def
        Let_def)
  obtain d where d: "PendingRecvmsg_redeem t ?rc = Ok d"
    using e by (simp add: PendingRecvmsg_redeem_def PendingRecvmsg_matches_def Receipt_belongs_to_iff)
  have "ram_read (ram_write 0x8000 (MsgHdr_bytes MsgHdr_default) m1) (sqe_addr sqe) 56 = MsgHdr_bytes MsgHdr_default"
    using ram_read_write [of "MsgHdr_bytes MsgHdr_default" "0x8000" m1] e by simp
  from recvmsg_reports_kernel [OF c _ t d this, of SockAddrIn_default]
  show ?thesis using c t d by (simp add: SockAddrIn_default_def)
qed

theorem replaced_buffer_still_named_witness:
  "\<not> slice_within \<lparr>sl_ptr = 0x9000, sl_len = 100\<rparr> (ex_buf 0xA000 100) \<and>
   (case Prepared_into_pending (Prepared_buffer_mut (\<lambda>_. ex_buf 0xA000 100)
       (Prepared_read mmap_stable (RawFd 3) (ex_buf 0x9000 100) 0)) (RingId 1) (RequestId 2) of
      (sqe, t) \<Rightarrow> sqe_addr sqe = 0x9000 \<and> mb_addr (pd_buf t) = 0xA000)"
proof -
  have "apart (mb_addr (ex_buf 0x9000 100)) (unat (mb_len (ex_buf 0x9000 100)))
      (mb_addr (ex_buf 0xA000 100)) (unat (mb_len (ex_buf 0xA000 100)))" "mb_len (ex_buf 0x9000 100) \<noteq> 0"
    "length [ex_buf 0x9000 100] < 2 ^ 32" "target_wf Connected"
    by (simp_all add: apart_def ex_buf_def target_wf_def)
  from replaced_buffer_still_named [OF this, where fd = "RawFd 3" and off = 0 and ring = "RingId 1" and i = "RequestId 2",
      THEN conjunct1]
  show ?thesis by (auto simp: slice_within_def ex_buf_def word_le_nat_alt)
qed

end
