(* ===== verification/Pbuf.thy ===== *)
theory Pbuf
  imports Setup
begin

text \<open>
  Provided-buffer rings (\<open>src/ring/pbuf.rs\<close>): a pool of equally sized buffers the kernel
  picks from by itself. The pool publishes descriptors in a ring of its own, whose 16-bit
  tail aliases the reserved half-word of descriptor 0; a buffer the kernel picked is
  handed back by recycling its id.

  The component models registration with all its error paths, recycling and publishing,
  bounded access to buffers, the two lease disciplines (\<open>claim\<close> and
  \<open>acknowledge\<close>) with the acknowledgment ledger as the byte array the code keeps, and
  the drop. Its lemmas say where every buffer is: each id is either published, or
  waiting to be published, or handed out, never two of these, and each descriptor
  names its own part of the backing region.
\<close>

section \<open>Data\<close>

record IoUringBuf =
  b_addr :: u64
  b_len :: u32
  b_bid :: u16
  b_resv :: u16

record IoUringBufReg =
  br_ring_addr :: u64
  br_ring_entries :: u32
  br_bgid :: u16
  br_flags :: u16
  br_resv :: "u64 list"

record ProvidedBufferRing =
  pb_resources :: usize
  pb_fd :: RawFd
  pb_bgid :: u16
  pb_mask :: u32
  pb_entries :: u32
  pb_ring_addr :: usize
  pb_ring_bytes :: usize
  pb_bufs_addr :: usize
  pb_bufs_bytes :: usize
  pb_buf_size :: u32
  pb_tail_local :: u32
  pb_delivered :: "u8 list"

record AcknowledgedBuffer =
  ack_buf_id :: u16
  ack_len :: u32

datatype AcknowledgeError = OutOfRange u16 u32 | AlreadyAcknowledged u16

text \<open>A lease holds the pool by exclusive borrow; the model passes the pool along.\<close>

record CompletedBuffer =
  cb_buf_id :: u16
  cb_len :: u32

definition MAX_PBUF_RING_ENTRIES :: u32 where "MAX_PBUF_RING_ENTRIES = 0x8000"
definition LEDGER_BYTES :: nat where "LEDGER_BYTES = 4096"
definition SIZEOF_IoUringBuf :: usize where "SIZEOF_IoUringBuf = 16"
definition PBUF_RING_INC :: u16 where "PBUF_RING_INC = 2"

definition zero_buf :: IoUringBuf where
  "zero_buf = \<lparr>b_addr = 0, b_len = 0, b_bid = 0, b_resv = 0\<rparr>"

section \<open>Recycling and publishing\<close>

text \<open>The descriptor ring is the list \<open>bufs\<close>; \<open>recycle_raw\<close> writes three fields of one descriptor.\<close>

definition recycle_raw ::
  "u64 \<Rightarrow> u32 \<Rightarrow> u16 \<Rightarrow> ProvidedBufferRing \<times> IoUringBuf list \<Rightarrow> ProvidedBufferRing \<times> IoUringBuf list" where
  "recycle_raw a l bid pb =
    (let p = fst pb; bufs = snd pb;
         idx = unat (pb_tail_local p AND pb_mask p)
     in (p\<lparr>pb_tail_local := pb_tail_local p + 1\<rparr>,
         bufs[idx := (bufs ! idx)\<lparr>b_addr := a, b_len := l, b_bid := bid\<rparr>]))"

definition pbuf_commit ::
  "ProvidedBufferRing \<times> IoUringBuf list \<Rightarrow> ProvidedBufferRing \<times> IoUringBuf list" where
  "pbuf_commit pb =
    (fst pb, (snd pb)[0 := (snd pb ! 0)\<lparr>b_resv := ucast (pb_tail_local (fst pb))\<rparr>])"

text \<open>\<open>recycle\<close> panics on an id out of range: \<open>None\<close> here.\<close>

definition recycle ::
  "u16 \<Rightarrow> ProvidedBufferRing \<times> IoUringBuf list \<Rightarrow> (ProvidedBufferRing \<times> IoUringBuf list) option" where
  "recycle buf_id pb =
    (let p = fst pb
     in if \<not> ucast buf_id < pb_entries p then None
        else let off = ucast buf_id * ucast (pb_buf_size p);
                 a = pb_bufs_addr p + off
             in Some (recycle_raw a (pb_buf_size p) buf_id pb))"

definition recycle_and_commit ::
  "u16 \<Rightarrow> ProvidedBufferRing \<times> IoUringBuf list \<Rightarrow> (ProvidedBufferRing \<times> IoUringBuf list) option" where
  "recycle_and_commit buf_id pb = map_option pbuf_commit (recycle buf_id pb)"

section \<open>Access to buffers\<close>

text \<open>A slice of the backing region is its address and length.\<close>

definition buffer_slice :: "usize \<Rightarrow> u32 \<Rightarrow> u32 \<Rightarrow> u16 \<Rightarrow> u32 \<Rightarrow> slice option" where
  "buffer_slice base entries buf_size buf_id l =
    (if ucast buf_id \<ge> entries \<or> l > buf_size then None
     else let off = ucast buf_id * ucast buf_size
          in Some \<lparr>sl_ptr = base + off, sl_len = ucast l\<rparr>)"

definition buffer_slice_mut :: "usize \<Rightarrow> u32 \<Rightarrow> u32 \<Rightarrow> u16 \<Rightarrow> u32 \<Rightarrow> slice option" where
  "buffer_slice_mut base entries buf_size buf_id l =
    (if ucast buf_id \<ge> entries \<or> l > buf_size then None
     else let off = ucast buf_id * ucast buf_size
          in Some \<lparr>sl_ptr = base + off, sl_len = ucast l\<rparr>)"

definition pbuf_buffer :: "ProvidedBufferRing \<Rightarrow> u16 \<Rightarrow> u32 \<Rightarrow> slice option" where
  "pbuf_buffer p buf_id l =
     buffer_slice (pb_bufs_addr p) (pb_entries p) (pb_buf_size p) buf_id l"

definition pbuf_buffer_mut :: "ProvidedBufferRing \<Rightarrow> u16 \<Rightarrow> u32 \<Rightarrow> slice option" where
  "pbuf_buffer_mut p buf_id l =
     buffer_slice_mut (pb_bufs_addr p) (pb_entries p) (pb_buf_size p) buf_id l"

definition empty_slice :: slice where "empty_slice = \<lparr>sl_ptr = 0, sl_len = 0\<rparr>"

section \<open>Leases\<close>

definition claim :: "ProvidedBufferRing \<Rightarrow> u16 \<Rightarrow> u32 \<Rightarrow> CompletedBuffer option" where
  "claim p buf_id l =
    (if ucast buf_id \<ge> pb_entries p \<or> l > pb_buf_size p then None
     else Some \<lparr>cb_buf_id = buf_id, cb_len = l\<rparr>)"

definition CompletedBuffer_bytes :: "ProvidedBufferRing \<Rightarrow> CompletedBuffer \<Rightarrow> slice" where
  "CompletedBuffer_bytes p c =
     (case pbuf_buffer p (cb_buf_id c) (cb_len c) of Some s \<Rightarrow> s | None \<Rightarrow> empty_slice)"

definition CompletedBuffer_bytes_mut :: "ProvidedBufferRing \<Rightarrow> CompletedBuffer \<Rightarrow> slice" where
  "CompletedBuffer_bytes_mut p c =
     (case pbuf_buffer_mut p (cb_buf_id c) (cb_len c) of Some s \<Rightarrow> s | None \<Rightarrow> empty_slice)"

definition CompletedBuffer_drop ::
  "CompletedBuffer \<Rightarrow> ProvidedBufferRing \<times> IoUringBuf list \<Rightarrow> (ProvidedBufferRing \<times> IoUringBuf list) option" where
  "CompletedBuffer_drop c pb = recycle_and_commit (cb_buf_id c) pb"

definition CompletedBuffer_recycle_and_commit ::
  "CompletedBuffer \<Rightarrow> ProvidedBufferRing \<times> IoUringBuf list \<Rightarrow> (ProvidedBufferRing \<times> IoUringBuf list) option" where
  "CompletedBuffer_recycle_and_commit c pb = CompletedBuffer_drop c pb"

definition ledger_get :: "ProvidedBufferRing \<Rightarrow> u16 \<Rightarrow> bool" where
  "ledger_get p buf_id =
    (let byte = unat buf_id div 8; b = unat buf_id mod 8
     in (pb_delivered p ! byte) AND push_bit b 1 \<noteq> 0)"

definition ledger_set :: "u16 \<Rightarrow> bool \<Rightarrow> ProvidedBufferRing \<Rightarrow> ProvidedBufferRing" where
  "ledger_set buf_id value p =
    (let byte = unat buf_id div 8; b = unat buf_id mod 8; old = pb_delivered p ! byte
     in p\<lparr>pb_delivered := (pb_delivered p)[byte :=
          (if value then old OR push_bit b 1 else old AND NOT (push_bit b 1))]\<rparr>)"

definition acknowledge ::
  "ProvidedBufferRing \<Rightarrow> u16 \<Rightarrow> u32 \<Rightarrow>
   (AcknowledgedBuffer, AcknowledgeError) result \<times> ProvidedBufferRing" where
  "acknowledge p buf_id l =
    (if ucast buf_id \<ge> pb_entries p \<or> l > pb_buf_size p then (Err (OutOfRange buf_id l), p)
     else if ledger_get p buf_id then (Err (AlreadyAcknowledged buf_id), p)
     else (Ok \<lparr>ack_buf_id = buf_id, ack_len = l\<rparr>, ledger_set buf_id True p))"

definition acknowledged_bytes :: "ProvidedBufferRing \<Rightarrow> AcknowledgedBuffer \<Rightarrow> slice" where
  "acknowledged_bytes p t =
     (case pbuf_buffer p (ack_buf_id t) (ack_len t) of Some s \<Rightarrow> s | None \<Rightarrow> empty_slice)"

definition recycle_acknowledged ::
  "AcknowledgedBuffer \<Rightarrow> ProvidedBufferRing \<times> IoUringBuf list \<Rightarrow>
   (ProvidedBufferRing \<times> IoUringBuf list) option" where
  "recycle_acknowledged t pb =
     recycle (ack_buf_id t) (ledger_set (ack_buf_id t) False (fst pb), snd pb)"

definition recycle_acknowledged_and_commit ::
  "AcknowledgedBuffer \<Rightarrow> ProvidedBufferRing \<times> IoUringBuf list \<Rightarrow>
   (ProvidedBufferRing \<times> IoUringBuf list) option" where
  "recycle_acknowledged_and_commit t pb = map_option pbuf_commit (recycle_acknowledged t pb)"

section \<open>Registration\<close>

text \<open>
  \<open>reg\<close> is the system call \<open>io_uring_register\<close> with the two buffer-ring operations: it
  takes the ring's descriptor, the operation and the registration record.
\<close>

type_synonym 'k reg_fn = "RawFd \<Rightarrow> u32 \<Rightarrow> IoUringBufReg \<Rightarrow> 'k \<Rightarrow> isize \<times> 'k"

definition io_uring_register_pbuf ::
  "'k reg_fn \<Rightarrow> RawFd \<Rightarrow> u32 \<Rightarrow> IoUringBufReg \<Rightarrow> 'k world \<Rightarrow> (usize, Errno) result \<times> 'k world" where
  "io_uring_register_pbuf reg fd op arg w =
     (case reg fd op arg (w_k w) of (ret, k) \<Rightarrow> (check ret, w\<lparr>w_k := k\<rparr>))"

definition checked_ring_bytes :: "u32 \<Rightarrow> usize \<Rightarrow> (usize, InvalidArgKind) result" where
  "checked_ring_bytes n elem_size =
    (if unat n * unat elem_size < 2 ^ 64 then Ok (ucast n * elem_size)
     else Err BufferRingSizeOverflow)"

definition is_power_of_two :: "u32 \<Rightarrow> bool" where
  "is_power_of_two n \<longleftrightarrow> list_ex (\<lambda>k. n = 2 ^ k) [0..<32]"

text \<open>The loop \<open>for i in 0..count\<close> that publishes every buffer of a fresh pool.\<close>

fun pbuf_populate ::
  "nat \<Rightarrow> ProvidedBufferRing \<times> IoUringBuf list \<Rightarrow> ProvidedBufferRing \<times> IoUringBuf list" where
  "pbuf_populate 0 pb = pb"
| "pbuf_populate (Suc i) pb =
    (let pb = pbuf_populate i pb; p = fst pb;
         a = pb_bufs_addr p + of_nat i * ucast (pb_buf_size p)
     in recycle_raw a (pb_buf_size p) (of_nat i) pb)"

definition fresh_pool ::
  "usize \<Rightarrow> RawFd \<Rightarrow> u16 \<Rightarrow> u32 \<Rightarrow> usize \<Rightarrow> usize \<Rightarrow> usize \<Rightarrow> usize \<Rightarrow> u32 \<Rightarrow> ProvidedBufferRing" where
  "fresh_pool resources fd bgid n ring_addr rbytes bufs_addr bufs_bytes buf_size =
     \<lparr>pb_resources = resources, pb_fd = fd, pb_bgid = bgid, pb_mask = n - 1,
      pb_entries = n, pb_ring_addr = ring_addr, pb_ring_bytes = rbytes,
      pb_bufs_addr = bufs_addr, pb_bufs_bytes = bufs_bytes, pb_buf_size = buf_size,
      pb_tail_local = 0, pb_delivered = replicate LEDGER_BYTES 0\<rparr>"

definition register_provided_buffers_on ::
  "'k os \<Rightarrow> 'k reg_fn \<Rightarrow> usize \<Rightarrow> u16 \<Rightarrow> u32 \<Rightarrow> u32 \<Rightarrow> u16 \<Rightarrow> 'k world \<Rightarrow>
   (ProvidedBufferRing \<times> IoUringBuf list, Error) result \<times> 'k world" where
  "register_provided_buffers_on os reg resources bgid n buf_size flags w =
    (case w_res w resources of
       None \<Rightarrow> (Err (Setup (InvalidArg BufferCountZero)), w\<lparr>w_bad := True\<rparr>)
     | Some res \<Rightarrow>
    (let fd = res_fd res
     in if n = 0 then (Err (Setup (InvalidArg BufferCountZero)), w)
        else if buf_size = 0 then (Err (Setup (InvalidArg BufferSizeZero)), w)
        else if \<not> is_power_of_two n then (Err (Setup (InvalidArg BufferCountNotPowerOfTwo)), w)
        else if n > MAX_PBUF_RING_ENTRIES then (Err (Setup (InvalidArg BufferCountTooLarge)), w)
        else
    (let prot = PROT_READ OR PROT_WRITE;
         map_flags = MAP_PRIVATE OR MAP_ANONYMOUS
     in case checked_ring_bytes n SIZEOF_IoUringBuf of
          Err kind \<Rightarrow> (Err (Setup (InvalidArg kind)), w)
        | Ok rbytes \<Rightarrow>
    (case mmap os 0 rbytes prot map_flags (- 1) 0 w of
       (Err e, w) \<Rightarrow> (Err (Setup (SetupSyscall e)), w)
     | (Ok ring_addr, w) \<Rightarrow>
    (case checked_ring_bytes n (ucast buf_size) of
       Err kind \<Rightarrow> (Err (Setup (InvalidArg kind)), munmap os ring_addr rbytes w)
     | Ok bufs_bytes \<Rightarrow>
    (case mmap os 0 bufs_bytes prot map_flags (- 1) 0 w of
       (Err e, w) \<Rightarrow> (Err (Setup (SetupSyscall e)), munmap os ring_addr rbytes w)
     | (Ok bufs_addr, w) \<Rightarrow>
    (case io_uring_register_pbuf reg fd (register_op_u32 RegisterPbufRing)
            \<lparr>br_ring_addr = ring_addr, br_ring_entries = n, br_bgid = bgid, br_flags = flags,
             br_resv = [0, 0, 0]\<rparr> w of
       (Err e, w) \<Rightarrow>
         (Err (Setup (SetupSyscall e)),
          munmap os ring_addr rbytes (munmap os bufs_addr bufs_bytes w))
     | (Ok _, w) \<Rightarrow>
         (Ok (pbuf_commit (pbuf_populate (unat n)
               (fresh_pool resources fd bgid n ring_addr rbytes bufs_addr bufs_bytes buf_size,
                replicate (unat n) zero_buf))),
          retain resources w))))))))"

definition IoUring_register_provided_buffers where
  "IoUring_register_provided_buffers os reg r bgid n buf_size w =
     register_provided_buffers_on os reg (r_resources r) bgid n buf_size 0 w"

definition IoUring_register_incremental_buffers where
  "IoUring_register_incremental_buffers os reg r bgid n buf_size w =
     register_provided_buffers_on os reg (r_resources r) bgid n buf_size PBUF_RING_INC w"

definition Submitter_register_provided_buffers where
  "Submitter_register_provided_buffers os reg s bgid n buf_size w =
     register_provided_buffers_on os reg (s_resources s) bgid n buf_size 0 w"

definition Submitter_register_incremental_buffers where
  "Submitter_register_incremental_buffers os reg s bgid n buf_size w =
     register_provided_buffers_on os reg (s_resources s) bgid n buf_size PBUF_RING_INC w"

definition unreg_arg :: "u16 \<Rightarrow> IoUringBufReg" where
  "unreg_arg bgid =
     \<lparr>br_ring_addr = 0, br_ring_entries = 0, br_bgid = bgid, br_flags = 0, br_resv = [0, 0, 0]\<rparr>"

definition unregister_provided_buffers ::
  "'k reg_fn \<Rightarrow> IoUring \<Rightarrow> u16 \<Rightarrow> 'k world \<Rightarrow> (unit, Error) result \<times> 'k world" where
  "unregister_provided_buffers reg r bgid w =
    (case io_uring_register_pbuf reg (r_fd r) (register_op_u32 UnregisterPbufRing) (unreg_arg bgid) w of
       (Err e, w) \<Rightarrow> (Err (Error_from_Errno e), w)
     | (Ok _, w) \<Rightarrow> (Ok (), w))"

definition ProvidedBufferRing_drop ::
  "'k os \<Rightarrow> 'k reg_fn \<Rightarrow> ProvidedBufferRing \<Rightarrow> 'k world \<Rightarrow> 'k world" where
  "ProvidedBufferRing_drop os reg p w =
    (let w = snd (io_uring_register_pbuf reg (pb_fd p) (register_op_u32 UnregisterPbufRing)
                    (unreg_arg (pb_bgid p)) w);
         w = munmap os (pb_bufs_addr p) (pb_bufs_bytes p) w;
         w = munmap os (pb_ring_addr p) (pb_ring_bytes p) w
     in release os (pb_resources p) w)"

text \<open>
  The status call fills the \<open>head\<close> field of its argument; \<open>st\<close> returns it beside the result.
\<close>

type_synonym 'k status_fn = "RawFd \<Rightarrow> u32 \<Rightarrow> u32 \<Rightarrow> 'k \<Rightarrow> isize \<times> u32 \<times> 'k"

definition pbuf_status ::
  "'k status_fn \<Rightarrow> ProvidedBufferRing \<Rightarrow> 'k \<Rightarrow> (u32, Error) result \<times> 'k" where
  "pbuf_status st p k =
    (case st (pb_fd p) (register_op_u32 RegisterPbufStatus) (ucast (pb_bgid p)) k of
       (ret, head, k) \<Rightarrow>
         (case check ret of
            Err e \<Rightarrow> (Err (Setup (SetupSyscall e)), k)
          | Ok _ \<Rightarrow> (Ok head, k)))"

section \<open>The consumer half\<close>

datatype BufferConsumer = BufferConsumer (inner: ProvidedBufferRing)

definition ProvidedBufferRing_split :: "ProvidedBufferRing \<Rightarrow> BufferConsumer" where
  "ProvidedBufferRing_split p = BufferConsumer p"

definition Consumer_status ::
  "'k status_fn \<Rightarrow> BufferConsumer \<Rightarrow> 'k \<Rightarrow> (u32, Error) result \<times> 'k" where
  "Consumer_status st c k = pbuf_status st (inner c) k"

definition Consumer_buffer :: "BufferConsumer \<Rightarrow> u16 \<Rightarrow> u32 \<Rightarrow> slice option" where
  "Consumer_buffer c buf_id l = pbuf_buffer (inner c) buf_id l"

definition Consumer_buffer_mut :: "BufferConsumer \<Rightarrow> u16 \<Rightarrow> u32 \<Rightarrow> slice option" where
  "Consumer_buffer_mut c buf_id l = pbuf_buffer_mut (inner c) buf_id l"

definition Consumer_claim :: "BufferConsumer \<Rightarrow> u16 \<Rightarrow> u32 \<Rightarrow> CompletedBuffer option" where
  "Consumer_claim c buf_id l = claim (inner c) buf_id l"

definition on_inner ::
  "(ProvidedBufferRing \<times> IoUringBuf list \<Rightarrow> (ProvidedBufferRing \<times> IoUringBuf list) option) \<Rightarrow>
   BufferConsumer \<times> IoUringBuf list \<Rightarrow> (BufferConsumer \<times> IoUringBuf list) option" where
  "on_inner f cb = map_option (map_prod BufferConsumer id) (f (inner (fst cb), snd cb))"

definition Consumer_recycle_and_commit ::
  "u16 \<Rightarrow> BufferConsumer \<times> IoUringBuf list \<Rightarrow> (BufferConsumer \<times> IoUringBuf list) option" where
  "Consumer_recycle_and_commit buf_id = on_inner (recycle_and_commit buf_id)"

definition Consumer_recycle ::
  "u16 \<Rightarrow> BufferConsumer \<times> IoUringBuf list \<Rightarrow> (BufferConsumer \<times> IoUringBuf list) option" where
  "Consumer_recycle buf_id = on_inner (recycle buf_id)"

definition Consumer_commit ::
  "BufferConsumer \<times> IoUringBuf list \<Rightarrow> (BufferConsumer \<times> IoUringBuf list) option" where
  "Consumer_commit = on_inner (\<lambda>pb. Some (pbuf_commit pb))"

definition Consumer_acknowledge ::
  "BufferConsumer \<Rightarrow> u16 \<Rightarrow> u32 \<Rightarrow> (AcknowledgedBuffer, AcknowledgeError) result \<times> BufferConsumer" where
  "Consumer_acknowledge c buf_id l = map_prod id BufferConsumer (acknowledge (inner c) buf_id l)"

definition Consumer_acknowledged_bytes :: "BufferConsumer \<Rightarrow> AcknowledgedBuffer \<Rightarrow> slice" where
  "Consumer_acknowledged_bytes c t = acknowledged_bytes (inner c) t"

definition Consumer_recycle_acknowledged ::
  "AcknowledgedBuffer \<Rightarrow> BufferConsumer \<times> IoUringBuf list \<Rightarrow> (BufferConsumer \<times> IoUringBuf list) option" where
  "Consumer_recycle_acknowledged t = on_inner (recycle_acknowledged t)"

definition Consumer_recycle_acknowledged_and_commit ::
  "AcknowledgedBuffer \<Rightarrow> BufferConsumer \<times> IoUringBuf list \<Rightarrow> (BufferConsumer \<times> IoUringBuf list) option" where
  "Consumer_recycle_acknowledged_and_commit t = on_inner (recycle_acknowledged_and_commit t)"

section \<open>Where every buffer is\<close>

text \<open>
  \<open>desc\<close> reads a descriptor without the half-word that aliases the tail; \<open>pool_avail\<close> is the
  queue of descriptors from the kernel's head \<open>h\<close> to the local tail. \<open>pool_inv p bufs h out\<close>
  says that the pool is well-formed, that the published tail lies between the kernel's
  head and the local tail, that the ids queued and the ids handed out (\<open>out\<close>) are
  together exactly the ids of the pool, each once, and that every queued descriptor names
  its own buffer.
\<close>

definition desc :: "IoUringBuf \<Rightarrow> u16 \<times> u64 \<times> u32" where
  "desc d = (b_bid d, b_addr d, b_len d)"

definition buf_desc :: "ProvidedBufferRing \<Rightarrow> u16 \<Rightarrow> u16 \<times> u64 \<times> u32" where
  "buf_desc p i = (i, pb_bufs_addr p + ucast i * ucast (pb_buf_size p), pb_buf_size p)"

definition pool_avail ::
  "ProvidedBufferRing \<Rightarrow> IoUringBuf list \<Rightarrow> u16 \<Rightarrow> (u16 \<times> u64 \<times> u32) list" where
  "pool_avail p bufs h =
     ring_window (map desc bufs) (ucast (pb_mask p)) h (unat (ucast (pb_tail_local p) - h))"

definition pool_wf :: "nat \<Rightarrow> ProvidedBufferRing \<Rightarrow> IoUringBuf list \<Rightarrow> bool" where
  "pool_wf k p bufs \<longleftrightarrow> k \<le> 15 \<and> pow2_mask k (pb_mask p) \<and> pb_entries p = pb_mask p + 1 \<and>
     length bufs = 2 ^ k"

definition pool_inv :: "ProvidedBufferRing \<Rightarrow> IoUringBuf list \<Rightarrow> u16 \<Rightarrow> u16 list \<Rightarrow> bool" where
  "pool_inv p bufs h out \<longleftrightarrow>
     (\<exists>k. pool_wf k p bufs) \<and>
     unat (b_resv (bufs ! 0) - h) \<le> unat (ucast (pb_tail_local p) - h) \<and>
     distinct (map fst (pool_avail p bufs h) @ out) \<and>
     set (map fst (pool_avail p bufs h) @ out) = {i. ucast i < pb_entries p} \<and>
     set (pool_avail p bufs h) \<subseteq> range (buf_desc p)"

lemma pool_wf_facts:
  assumes "pool_wf k p bufs"
  shows "pow2_mask k (ucast (pb_mask p) :: u16)" "unat (pb_entries p) = 2 ^ k" "bufs \<noteq> []"
    and "unat (x AND pb_mask p) = unat (ucast x AND ucast (pb_mask p) :: u16)"
proof -
  have k: "k \<le> 15" "pow2_mask k (pb_mask p)" using assms by (auto simp: pool_wf_def)
  have "(ucast (mask k :: u32) :: u16) = mask k"
    using k(1) by (intro bit_word_eqI) (auto simp: bit_ucast_iff bit_mask_iff)
  then show m: "pow2_mask k (ucast (pb_mask p) :: u16)" using k by (simp add: pow2_mask_def)
  show "unat (pb_entries p) = 2 ^ k"
    using assms k pow2_mask_capacity [OF k(2)] by (simp add: pool_wf_def)
  show "bufs \<noteq> []" using assms by (auto simp: pool_wf_def)
  have "(2::nat) ^ k dvd 2 ^ 16" using k(1) by (intro le_imp_power_dvd) simp
  then have "unat (ucast x :: u16) mod 2 ^ k = unat x mod 2 ^ k"
    by (simp add: unsigned_ucast_eq take_bit_eq_mod mod_mod_cancel)
  then show "unat (x AND pb_mask p) = unat (ucast x AND ucast (pb_mask p) :: u16)"
    by (simp only: unat_and_mask_mod [OF k(2)] unat_and_mask_mod [OF m])
qed

lemma ucast_add_one: "(ucast (x + 1 :: u32) :: u16) = ucast x + 1"
proof -
  have "unat (ucast (x + 1) :: u16) = (unat x + 1) mod 2 ^ 16"
    by (simp add: unsigned_ucast_eq take_bit_eq_mod unat_word_ariths mod_mod_cancel)
  moreover have "unat (ucast x + 1 :: u16) = (unat x + 1) mod 2 ^ 16"
    by (simp add: unsigned_ucast_eq take_bit_eq_mod unat_word_ariths mod_simps)
  ultimately show ?thesis by (simp add: word_unat_eq_iff)
qed

lemma ids_card: "unat n \<le> 2 ^ 16 \<Longrightarrow> card {i :: u16. ucast i < (n :: u32)} = unat n"
proof -
  assume n: "unat n \<le> 2 ^ 16"
  have "{i :: u16. ucast i < n} = of_nat ` {0..<unat n}"
  proof (intro set_eqI iffI)
    fix i :: u16
    assume "i \<in> {i. ucast i < n}"
    then have "unat i < unat n"
      by (simp add: word_less_nat_alt unsigned_ucast_eq take_bit_nat_eq_self_iff
          take_bit_nat_eq_self order_less_trans [OF unsigned_less])
    then show "i \<in> of_nat ` {0..<unat n}" by (intro image_eqI [of _ _ "unat i"]) auto
  next
    fix i :: u16
    assume "i \<in> of_nat ` {0..<unat n}"
    then obtain j where "i = of_nat j" "j < unat n" by auto
    then show "i \<in> {i. ucast i < n}" using n
      by (simp add: word_less_nat_alt unsigned_ucast_eq unat_of_nat take_bit_nat_eq_self)
  qed
  moreover have "inj_on (of_nat :: nat \<Rightarrow> u16) {0..<unat n}"
    by (rule inj_onI) (use n in \<open>auto simp: word_unat_eq_iff unat_of_nat\<close>)
  ultimately show ?thesis by (simp add: card_image)
qed

lemma pool_inv_count:
  assumes "pool_inv p bufs h out" "pool_wf k p bufs"
  shows "unat (ucast (pb_tail_local p) - h) + length out = 2 ^ k"
proof -
  let ?l = "map fst (pool_avail p bufs h) @ out"
  have n: "unat (pb_entries p) = 2 ^ k" using pool_wf_facts(2) [OF assms(2)] .
  have "(2::nat) ^ k \<le> 2 ^ 16" using assms(2) by (intro power_increasing) (auto simp: pool_wf_def)
  then have "card (set ?l) = 2 ^ k" using assms(1) ids_card [of "pb_entries p"] n
    by (simp add: pool_inv_def)
  moreover have "card (set ?l) = length ?l"
    using assms(1) by (intro distinct_card) (simp add: pool_inv_def)
  ultimately show ?thesis by (simp add: pool_avail_def)
qed

lemma desc_update [simp]: "desc (d\<lparr>b_addr := a, b_len := l, b_bid := i\<rparr>) = (i, a, l)"
  "desc (d\<lparr>b_resv := r\<rparr>) = desc d"
  by (simp_all add: desc_def)

lemma map_desc_commit [simp]:
  "map desc (bufs[0 := (bufs ! 0)\<lparr>b_resv := t\<rparr>]) = map desc bufs"
  by (cases bufs) (simp_all add: map_update)

text \<open>Recycling an id in range while the queue has room: its descriptor joins the queue,
  whether or not the id was handed out.\<close>

lemma recycle_appends:
  assumes wf: "pool_wf k p bufs" and room: "unat (ucast (pb_tail_local p) - h) < 2 ^ k"
    and range: "ucast i < pb_entries p"
  obtains p' bufs' where "recycle i (p, bufs) = Some (p', bufs')"
    "recycle_raw (pb_bufs_addr p + ucast i * ucast (pb_buf_size p)) (pb_buf_size p) i (p, bufs) = (p', bufs')"
    "pool_wf k p' bufs'"
    "pool_avail p' bufs' h = pool_avail p bufs h @ [buf_desc p i]"
    "unat (ucast (pb_tail_local p') - h) = Suc (unat (ucast (pb_tail_local p) - h))"
    "p' = p\<lparr>pb_tail_local := pb_tail_local p + 1\<rparr>" "b_resv (bufs' ! 0) = b_resv (bufs ! 0)"
proof -
  let ?t = "ucast (pb_tail_local p) :: u16" and ?m = "ucast (pb_mask p) :: u16"
  let ?idx = "unat (pb_tail_local p AND pb_mask p)"
  let ?p = "p\<lparr>pb_tail_local := pb_tail_local p + 1\<rparr>"
  let ?d = "(bufs ! ?idx)\<lparr>b_addr := pb_bufs_addr p + ucast i * ucast (pb_buf_size p),
    b_len := pb_buf_size p, b_bid := i\<rparr>"
  let ?bufs = "bufs[?idx := ?d]"
  note m = pool_wf_facts [OF wf]
  have k: "k \<le> 15" using wf by (simp add: pool_wf_def)
  have t1: "(ucast (pb_tail_local p + 1) :: u16) = ?t + 1" by (simp add: ucast_add_one)
  have step: "unat (?t + 1 - h) = Suc (unat (?t - h))"
    by (rule unat_tail_step [OF room]) (use k in simp)
  have idx: "?idx = unat (?t AND ?m)" by (rule m(4))
  have avail: "pool_avail ?p ?bufs h = pool_avail p bufs h @ [buf_desc p i]"
    using ring_window_push [OF m(1) room, of "map desc bufs" h "buf_desc p i"] wf
    by (simp add: pool_avail_def t1 step map_update idx buf_desc_def pool_wf_def)
  have resv: "b_resv (?bufs ! 0) = b_resv (bufs ! 0)"
    by (cases "?idx = 0"; cases "?idx < length bufs") (simp_all add: nth_list_update)
  have rr: "recycle_raw (pb_bufs_addr p + ucast i * ucast (pb_buf_size p)) (pb_buf_size p) i
      (p, bufs) = (?p, ?bufs)" by (simp add: recycle_raw_def Let_def)
  have "recycle i (p, bufs) = Some (?p, ?bufs)"
    using range rr by (simp add: recycle_def Let_def)
  moreover have "pool_wf k ?p ?bufs" using wf by (simp add: pool_wf_def)
  ultimately show thesis using rr avail resv step t1 that by simp
qed

text \<open>Handing back a buffer that was handed out keeps the account.\<close>

lemma pool_inv_recycle:
  assumes inv: "pool_inv p bufs h out" and id: "i \<in> set out"
  obtains p' bufs' where "recycle i (p, bufs) = Some (p', bufs')"
    "recycle_raw (pb_bufs_addr p + ucast i * ucast (pb_buf_size p)) (pb_buf_size p) i (p, bufs) = (p', bufs')"
    "pool_inv p' bufs' h (remove1 i out)"
    "pool_avail p' bufs' h = pool_avail p bufs h @ [buf_desc p i]"
    "p' = p\<lparr>pb_tail_local := pb_tail_local p + 1\<rparr>" "b_resv (bufs' ! 0) = b_resv (bufs ! 0)"
proof -
  obtain k where wf: "pool_wf k p bufs" using inv by (auto simp: pool_inv_def)
  have range: "ucast i < pb_entries p" using inv id by (auto simp: pool_inv_def)
  have room: "unat (ucast (pb_tail_local p) - h) < 2 ^ k"
    using pool_inv_count [OF inv wf] id by (cases out) auto
  obtain p' bufs' where r: "recycle i (p, bufs) = Some (p', bufs')"
    "recycle_raw (pb_bufs_addr p + ucast i * ucast (pb_buf_size p)) (pb_buf_size p) i (p, bufs) = (p', bufs')"
    "pool_wf k p' bufs'" and avail: "pool_avail p' bufs' h = pool_avail p bufs h @ [buf_desc p i]"
    and step: "unat (ucast (pb_tail_local p') - h) = Suc (unat (ucast (pb_tail_local p) - h))"
    and eq: "p' = p\<lparr>pb_tail_local := pb_tail_local p + 1\<rparr>" and resv: "b_resv (bufs' ! 0) = b_resv (bufs ! 0)"
    by (rule recycle_appends [OF wf room range])
  have "distinct (map fst (pool_avail p bufs h) @ out)" using inv by (simp add: pool_inv_def)
  then have dis: "distinct (map fst (pool_avail p bufs h) @ i # remove1 i out)"
    and st: "set (map fst (pool_avail p bufs h) @ i # remove1 i out)
      = set (map fst (pool_avail p bufs h) @ out)"
    using id by (auto simp: set_remove1_eq)
  have bd: "buf_desc p' = buf_desc p" and en: "pb_entries p' = pb_entries p"
    by (auto simp: buf_desc_def eq)
  have fst_bd: "fst (buf_desc p i) = i" by (simp add: buf_desc_def)
  have "pool_inv p' bufs' h (remove1 i out)"
    using inv r(3) dis st unfolding pool_inv_def avail resv bd en step
    by (auto simp: fst_bd)
  then show thesis using that [OF r(1,2) _ avail eq resv] by simp
qed

lemma pool_inv_commit:
  assumes "pool_inv p bufs h out"
  shows "pool_inv p (snd (pbuf_commit (p, bufs))) h out"
    and "pool_avail p (snd (pbuf_commit (p, bufs))) h = pool_avail p bufs h"
    and "b_resv (snd (pbuf_commit (p, bufs)) ! 0) = ucast (pb_tail_local p)"
proof -
  obtain k where wf: "pool_wf k p bufs" using assms by (auto simp: pool_inv_def)
  show av: "pool_avail p (snd (pbuf_commit (p, bufs))) h = pool_avail p bufs h"
    by (simp add: pool_avail_def pbuf_commit_def)
  show rs: "b_resv (snd (pbuf_commit (p, bufs)) ! 0) = ucast (pb_tail_local p)"
    using pool_wf_facts(3) [OF wf] by (simp add: pbuf_commit_def)
  have "pool_wf k p (snd (pbuf_commit (p, bufs)))" using wf by (simp add: pool_wf_def pbuf_commit_def)
  then show "pool_inv p (snd (pbuf_commit (p, bufs))) h out"
    using assms unfolding pool_inv_def av rs by auto
qed

text \<open>The kernel picks the buffer at its head, which must be published.\<close>

lemma pool_inv_take:
  assumes inv: "pool_inv p bufs h out" and ne: "h \<noteq> b_resv (bufs ! 0)"
  obtains i where "desc (bufs ! unat (h AND ucast (pb_mask p))) = buf_desc p i"
    "pool_avail p bufs h = buf_desc p i # pool_avail p bufs (h + 1)"
    "pool_inv p bufs (h + 1) (i # out)" "i \<notin> set out"
proof -
  obtain k where wf: "pool_wf k p bufs" using inv by (auto simp: pool_inv_def)
  let ?t = "ucast (pb_tail_local p) :: u16" and ?r = "b_resv (bufs ! 0)"
  have le: "unat (?r - h) \<le> unat (?t - h)" using inv by (simp add: pool_inv_def)
  have r: "unat (?r - h) = Suc (unat (?r - (h + 1)))" using unat_head_step [of ?r h] ne by simp
  then have "?t \<noteq> h" using le by auto
  then have t: "unat (?t - h) = Suc (unat (?t - (h + 1)))" using unat_head_step [of ?t h] by simp
  have "unat (h AND ucast (pb_mask p)) < length bufs"
    using ring_slot_less [OF pool_wf_facts(1) [OF wf], of h] wf by (simp add: pool_wf_def)
  then have av: "pool_avail p bufs h =
      desc (bufs ! unat (h AND ucast (pb_mask p))) # pool_avail p bufs (h + 1)"
    by (simp add: pool_avail_def t ring_window_Suc)
  then obtain i where i: "desc (bufs ! unat (h AND ucast (pb_mask p))) = buf_desc p i"
    using inv by (auto simp: pool_inv_def)
  have "fst (buf_desc p i) = i" by (simp add: buf_desc_def)
  then have "pool_inv p bufs (h + 1) (i # out) \<and> i \<notin> set out"
    using inv le r t av i wf unfolding pool_inv_def by (auto simp: Un_commute)
  then show thesis using that [OF i] av i by simp
qed

section \<open>The pool in use\<close>

text \<open>
  A pool with its descriptor ring, the kernel's head, and the ids handed out: picked by
  the kernel for a completion and not yet given back.
\<close>

record pool_sys =
  ps_pool :: ProvidedBufferRing
  ps_bufs :: "IoUringBuf list"
  ps_head :: u16
  ps_out :: "u16 list"

inductive pool_step :: "pool_sys \<Rightarrow> pool_sys \<Rightarrow> bool" where
  ps_take: "ps_head s \<noteq> b_resv (ps_bufs s ! 0) \<Longrightarrow>
     pool_step s (s\<lparr>ps_head := ps_head s + 1,
       ps_out := b_bid (ps_bufs s ! unat (ps_head s AND ucast (pb_mask (ps_pool s)))) # ps_out s\<rparr>)"
| ps_recycle: "i \<in> set (ps_out s) \<Longrightarrow> recycle i (ps_pool s, ps_bufs s) = Some (p', bufs') \<Longrightarrow>
     pool_step s (s\<lparr>ps_pool := p', ps_bufs := bufs', ps_out := remove1 i (ps_out s)\<rparr>)"
| ps_commit: "pbuf_commit (ps_pool s, ps_bufs s) = (p', bufs') \<Longrightarrow>
     pool_step s (s\<lparr>ps_pool := p', ps_bufs := bufs'\<rparr>)"

inductive pool_reach :: "pool_sys \<Rightarrow> pool_sys \<Rightarrow> bool" where
  pr_start: "pool_reach s s"
| pr_step: "pool_reach s s' \<Longrightarrow> pool_step s' s'' \<Longrightarrow> pool_reach s s''"

abbreviation pool_sys_inv :: "pool_sys \<Rightarrow> bool" where
  "pool_sys_inv s \<equiv> pool_inv (ps_pool s) (ps_bufs s) (ps_head s) (ps_out s)"

lemma pool_step_inv: "pool_step s s' \<Longrightarrow> pool_sys_inv s \<Longrightarrow> pool_sys_inv s'"
proof (induction rule: pool_step.induct)
  case (ps_take s)
  from pool_inv_take [OF ps_take(2,1)] obtain i
    where i: "desc (ps_bufs s ! unat (ps_head s AND ucast (pb_mask (ps_pool s)))) = buf_desc (ps_pool s) i"
      and "pool_inv (ps_pool s) (ps_bufs s) (ps_head s + 1) (i # ps_out s)" by blast
  moreover from i have "b_bid (ps_bufs s ! unat (ps_head s AND ucast (pb_mask (ps_pool s)))) = i"
    by (simp add: desc_def buf_desc_def)
  ultimately show ?case by simp
next
  case (ps_recycle i s p' bufs')
  from pool_inv_recycle [OF ps_recycle(3,1)] ps_recycle(2) show ?case by auto
next
  case (ps_commit s p' bufs')
  then have "p' = ps_pool s" "bufs' = snd (pbuf_commit (ps_pool s, ps_bufs s))"
    by (auto simp: pbuf_commit_def)
  then show ?case using pool_inv_commit(1) [OF ps_commit(2)] by simp
qed

lemma pool_reach_inv: "pool_reach s s' \<Longrightarrow> pool_sys_inv s \<Longrightarrow> pool_sys_inv s'"
  by (induction rule: pool_reach.induct) (auto intro: pool_step_inv)

section \<open>A fresh pool\<close>

lemma ucast_id: "i < 2 ^ 16 \<Longrightarrow> (ucast (of_nat i :: u16) :: u64) = of_nat i"
  by (simp add: word_unat_eq_iff unsigned_ucast_eq unat_of_nat take_bit_nat_eq_self)

lemma ids_list:
  assumes "unat (n :: u32) \<le> 2 ^ 16"
  shows "set (map of_nat [0..<unat n]) = {i :: u16. ucast i < n}" "distinct (map (of_nat :: nat \<Rightarrow> u16) [0..<unat n])"
proof -
  show d: "distinct (map (of_nat :: nat \<Rightarrow> u16) [0..<unat n])"
    using assms by (auto simp: distinct_map inj_on_def word_unat_eq_iff unat_of_nat)
  have "set (map of_nat [0..<unat n]) \<subseteq> {i :: u16. ucast i < n}"
    using assms by (auto simp: word_less_nat_alt unsigned_ucast_eq unat_of_nat take_bit_nat_eq_self)
  moreover have "card (set (map (of_nat :: nat \<Rightarrow> u16) [0..<unat n])) = card {i :: u16. ucast i < n}"
    using distinct_card [OF d] ids_card [OF assms] by simp
  ultimately show "set (map of_nat [0..<unat n]) = {i :: u16. ucast i < n}"
    by (intro card_subset_eq) auto
qed

lemma pbuf_populate_inv:
  assumes "pool_inv p bufs 0 (map of_nat [0..<n])" "n \<le> 2 ^ 15" "i \<le> n"
  shows "pool_inv (fst (pbuf_populate i (p, bufs))) (snd (pbuf_populate i (p, bufs))) 0
      (map of_nat [i..<n]) \<and>
    (\<exists>t. fst (pbuf_populate i (p, bufs)) = p\<lparr>pb_tail_local := t\<rparr>)"
  using assms(3)
proof (induction i)
  case 0
  then show ?case using assms(1) by (auto intro: exI [of _ "pb_tail_local p"])
next
  case (Suc i)
  obtain p1 bufs1 where 1: "pbuf_populate i (p, bufs) = (p1, bufs1)" by fastforce
  then obtain t where inv: "pool_inv p1 bufs1 0 (map of_nat [i..<n])" and t: "p1 = p\<lparr>pb_tail_local := t\<rparr>"
    using Suc by auto
  have i: "[i..<n] = i # [Suc i..<n]" using Suc.prems by (simp add: upt_conv_Cons)
  have "(of_nat i :: u16) \<in> set (map of_nat [i..<n])" unfolding i by simp
  from pool_inv_recycle [OF inv this] obtain p2 bufs2
    where 2: "recycle_raw (pb_bufs_addr p1 + ucast (of_nat i :: u16) * ucast (pb_buf_size p1))
        (pb_buf_size p1) (of_nat i) (p1, bufs1) = (p2, bufs2)"
      and inv2: "pool_inv p2 bufs2 0 (remove1 (of_nat i) (map of_nat [i..<n]))"
      and p2: "p2 = p1\<lparr>pb_tail_local := pb_tail_local p1 + 1\<rparr>" by metis
  have "pbuf_populate (Suc i) (p, bufs) = (p2, bufs2)"
    using 1 2 ucast_id [of i] Suc.prems assms(2) by (simp add: Let_def)
  then show ?case using inv2 p2 t i by (auto intro!: exI [of _ "t + 1"])
qed

lemma fresh_pool_inv:
  assumes "is_power_of_two n" "n \<le> MAX_PBUF_RING_ENTRIES"
    and "pb_mask p = n - 1" "pb_entries p = n" "pb_tail_local p = 0"
  shows "pool_inv p (replicate (unat n) zero_buf) 0 (map of_nat [0..<unat n])" "unat n \<le> 2 ^ 15"
proof -
  obtain k where k: "n = 2 ^ k" "k < 32"
    using assms(1) by (auto simp: is_power_of_two_def list_ex_iff)
  have le: "unat n \<le> 2 ^ 15"
    using assms(2) by (simp add: MAX_PBUF_RING_ENTRIES_def word_le_nat_alt)
  then show "unat n \<le> 2 ^ 15" .
  have un: "unat n = 2 ^ k" using k by (simp add: unat_exp)
  with le have "k \<le> 15" using power_le_imp_le_exp [of "2 :: nat" k 15] by simp
  moreover have "pow2_mask k (n - 1)" using k by (simp add: pow2_mask_def mask_eq_exp_minus_1)
  ultimately have "pool_wf k p (replicate (unat n) zero_buf)"
    using assms(3,4) un by (simp add: pool_wf_def)
  moreover have "pool_avail p (replicate (unat n) zero_buf) 0 = []"
    using assms(5) by (simp add: pool_avail_def)
  moreover have "b_resv (replicate (unat n) zero_buf ! 0) = 0"
    using un by (simp add: zero_buf_def)
  ultimately show "pool_inv p (replicate (unat n) zero_buf) 0 (map of_nat [0..<unat n])"
    using ids_list [of n] le assms(4,5) by (auto simp: pool_inv_def)
qed

lemma registered_pool_inv:
  assumes "register_provided_buffers_on os reg resources bgid n sz flags w = (Ok (p, bufs), w')"
  shows "pool_inv p bufs 0 [] \<and> b_resv (bufs ! 0) = ucast (pb_tail_local p) \<and> pb_entries p = n \<and>
    pb_buf_size p = sz \<and> pb_delivered p = replicate LEDGER_BYTES 0"
proof -
  have "\<exists>fd ra rb ba bb. pbuf_commit (pbuf_populate (unat n)
      (fresh_pool resources fd bgid n ra rb ba bb sz, replicate (unat n) zero_buf)) = (p, bufs)"
    using assms unfolding register_provided_buffers_on_def Let_def
    by (auto split: option.splits if_splits result.splits prod.splits) blast
  then obtain fd ra rb ba bb
    where p0: "(p, bufs) = pbuf_commit (pbuf_populate (unat n)
      (fresh_pool resources fd bgid n ra rb ba bb sz, replicate (unat n) zero_buf))" by metis
  define p0 where "p0 = fresh_pool resources fd bgid n ra rb ba bb sz"
  note p0 = p0 [folded p0_def]
  have f: "pb_mask p0 = n - 1" "pb_entries p0 = n" "pb_tail_local p0 = 0" "pb_buf_size p0 = sz"
      "pb_delivered p0 = replicate LEDGER_BYTES 0"
    by (simp_all add: p0_def fresh_pool_def)
  have n: "is_power_of_two n" "n \<le> MAX_PBUF_RING_ENTRIES"
    using assms unfolding register_provided_buffers_on_def Let_def
    by (auto split: option.splits if_splits simp: not_less)
  note fresh = fresh_pool_inv [OF n f(1,2,3)]
  let ?q = "pbuf_populate (unat n) (p0, replicate (unat n) zero_buf)"
  from pbuf_populate_inv [OF fresh order_refl]
  have inv: "pool_inv (fst ?q) (snd ?q) 0 []" and q: "\<exists>t. fst ?q = p0\<lparr>pb_tail_local := t\<rparr>" by simp_all
  have p: "p = fst ?q" "bufs = snd (pbuf_commit (fst ?q, snd ?q))"
    using p0 by (auto simp: pbuf_commit_def)
  show ?thesis using pool_inv_commit [OF inv] q f unfolding p by auto
qed

section \<open>The ledger of acknowledged deliveries\<close>

definition ledger_ids :: "ProvidedBufferRing \<Rightarrow> u16 set" where
  "ledger_ids p = {i. ucast i < pb_entries p \<and> ledger_get p i}"

definition ledger_wf :: "ProvidedBufferRing \<Rightarrow> bool" where
  "ledger_wf p \<longleftrightarrow> length (pb_delivered p) = LEDGER_BYTES \<and> pb_entries p \<le> MAX_PBUF_RING_ENTRIES"

lemma ledger_get_bit: "ledger_get p i \<longleftrightarrow> bit (pb_delivered p ! (unat i div 8)) (unat i mod 8)"
  unfolding ledger_get_def Let_def bit_iff_and_push_bit_not_eq_0 ..

lemma ledger_get_set:
  assumes "unat i div 8 < length (pb_delivered p)"
  shows "ledger_get (ledger_set i v p) j \<longleftrightarrow> (if j = i then v else ledger_get p j)"
proof -
  have b: "unat i mod 8 < 8" "unat j mod 8 < 8" by simp_all
  have upd: "bit (if v then x OR push_bit (unat i mod 8) 1 else x AND NOT (push_bit (unat i mod 8) 1)) c
      \<longleftrightarrow> (if c = unat i mod 8 then v else bit x c)" if "c < 8" for x :: u8 and c
    using that b by (auto simp: bit_or_iff bit_and_iff bit_not_iff bit_exp_iff)
  have "j = i" if "unat j div 8 = unat i div 8" "unat j mod 8 = unat i mod 8"
    using that by (metis div_mult_mod_eq word_unat_eq_iff)
  then show ?thesis
    using assms b upd [OF b(2), of "pb_delivered p ! (unat i div 8)"]
    by (cases "unat j div 8 = unat i div 8")
      (auto simp: ledger_get_bit ledger_set_def Let_def)
qed

lemma ledger_index:
  assumes "ledger_wf p" "ucast (i :: u16) < pb_entries p"
  shows "unat i div 8 < length (pb_delivered p)"
proof -
  have "unat i < 2 ^ 16" using unsigned_less [of i, where 'a = nat] by simp
  then have "unat (ucast i :: u32) = unat i" by (simp add: unsigned_ucast_eq take_bit_nat_eq_self)
  then have "unat i < 32768"
    using assms by (simp add: ledger_wf_def MAX_PBUF_RING_ENTRIES_def word_less_nat_alt word_le_nat_alt)
  then show ?thesis using assms(1) by (simp add: ledger_wf_def LEDGER_BYTES_def less_mult_imp_div_less)
qed

lemma ledger_set_frame [simp]:
  "pb_entries (ledger_set i v p) = pb_entries p" "pb_buf_size (ledger_set i v p) = pb_buf_size p"
  "length (pb_delivered (ledger_set i v p)) = length (pb_delivered p)"
  by (simp_all add: ledger_set_def Let_def)

lemma recycle_frame:
  "recycle i (p, bufs) = Some (p', bufs') \<Longrightarrow>
   p' = p\<lparr>pb_tail_local := pb_tail_local p + 1\<rparr>"
  by (auto simp: recycle_def recycle_raw_def Let_def split: if_splits)

lemma ledger_ids_tail [simp]: "ledger_ids (p\<lparr>pb_tail_local := t\<rparr>) = ledger_ids p"
  by (simp add: ledger_ids_def ledger_get_def)

lemma ledger_ids_set:
  "ledger_wf p \<Longrightarrow> ucast i < pb_entries p \<Longrightarrow>
   ledger_ids (ledger_set i v p) = (if v then insert i (ledger_ids p) else ledger_ids p - {i})"
  by (auto simp: ledger_ids_def ledger_get_set ledger_index split: if_splits)

lemma ledger_ids_fresh:
  "ledger_wf p \<Longrightarrow> pb_delivered p = replicate LEDGER_BYTES 0 \<Longrightarrow> ledger_ids p = {}"
  using ledger_index [of p] by (auto simp: ledger_ids_def ledger_get_bit)


section \<open>Leases in use\<close>

text \<open>
  \<open>ack_spec\<close> is what \<open>acknowledge\<close> promises, over the set of ids that are acknowledged and
  not yet recycled.
\<close>

definition ack_spec ::
  "ProvidedBufferRing \<Rightarrow> u16 set \<Rightarrow> u16 \<Rightarrow> u32 \<Rightarrow>
   (AcknowledgedBuffer, AcknowledgeError) result \<times> u16 set" where
  "ack_spec p L i l =
    (if pb_entries p \<le> ucast i \<or> pb_buf_size p < l then (Err (OutOfRange i l), L)
     else if i \<in> L then (Err (AlreadyAcknowledged i), L)
     else (Ok \<lparr>ack_buf_id = i, ack_len = l\<rparr>, insert i L))"

lemma acknowledge_spec:
  assumes "ledger_wf p"
  shows "map_prod id ledger_ids (acknowledge p i l) = ack_spec p (ledger_ids p) i l"
  using ledger_ids_set [OF assms, of i]
  by (auto simp: acknowledge_def ack_spec_def not_le ledger_ids_def)

text \<open>
  A pool together with the tokens its owner holds. The owner may acknowledge any id the
  kernel has delivered, also one it acknowledged before, and recycles only with a token.
\<close>

record lease_sys =
  ls_sys :: pool_sys
  ls_tokens :: "AcknowledgedBuffer list"

inductive lease_step :: "lease_sys \<Rightarrow> lease_sys \<Rightarrow> bool" where
  ls_take: "ps_head s \<noteq> b_resv (ps_bufs s ! 0) \<Longrightarrow>
     lease_step \<lparr>ls_sys = s, ls_tokens = ts\<rparr>
       \<lparr>ls_sys = s\<lparr>ps_head := ps_head s + 1,
          ps_out := b_bid (ps_bufs s ! unat (ps_head s AND ucast (pb_mask (ps_pool s)))) # ps_out s\<rparr>,
        ls_tokens = ts\<rparr>"
| ls_ack: "i \<in> set (ps_out s) \<Longrightarrow> acknowledge (ps_pool s) i l = (Ok t, p') \<Longrightarrow>
     lease_step \<lparr>ls_sys = s, ls_tokens = ts\<rparr> \<lparr>ls_sys = s\<lparr>ps_pool := p'\<rparr>, ls_tokens = t # ts\<rparr>"
| ls_ack_refused: "acknowledge (ps_pool s) i l = (Err e, p') \<Longrightarrow>
     lease_step \<lparr>ls_sys = s, ls_tokens = ts\<rparr> \<lparr>ls_sys = s\<lparr>ps_pool := p'\<rparr>, ls_tokens = ts\<rparr>"
| ls_recycle: "t \<in> set ts \<Longrightarrow> recycle_acknowledged t (ps_pool s, ps_bufs s) = Some (p', bufs') \<Longrightarrow>
     lease_step \<lparr>ls_sys = s, ls_tokens = ts\<rparr>
       \<lparr>ls_sys = s\<lparr>ps_pool := p', ps_bufs := bufs', ps_out := remove1 (ack_buf_id t) (ps_out s)\<rparr>,
        ls_tokens = remove1 t ts\<rparr>"
| ls_commit: "pbuf_commit (ps_pool s, ps_bufs s) = (p', bufs') \<Longrightarrow>
     lease_step \<lparr>ls_sys = s, ls_tokens = ts\<rparr> \<lparr>ls_sys = s\<lparr>ps_pool := p', ps_bufs := bufs'\<rparr>, ls_tokens = ts\<rparr>"

inductive lease_reach :: "lease_sys \<Rightarrow> lease_sys \<Rightarrow> bool" where
  lr_start: "lease_reach s s"
| lr_step: "lease_reach s s' \<Longrightarrow> lease_step s' s'' \<Longrightarrow> lease_reach s s''"

definition lease_inv :: "lease_sys \<Rightarrow> bool" where
  "lease_inv s \<longleftrightarrow>
     pool_sys_inv (ls_sys s) \<and> ledger_wf (ps_pool (ls_sys s)) \<and>
     distinct (map ack_buf_id (ls_tokens s)) \<and>
     set (map ack_buf_id (ls_tokens s)) = ledger_ids (ps_pool (ls_sys s)) \<and>
     ledger_ids (ps_pool (ls_sys s)) \<subseteq> set (ps_out (ls_sys s))"

lemma pool_inv_ledger [simp]: "pool_inv (ledger_set i v p) bufs h out = pool_inv p bufs h out"
  by (simp add: pool_inv_def pool_wf_def pool_avail_def buf_desc_def [abs_def] ledger_set_def Let_def)

lemma lease_step_inv: "lease_step s s' \<Longrightarrow> lease_inv s \<Longrightarrow> lease_inv s'"
proof (induction rule: lease_step.induct)
  case (ls_take s ts)
  then show ?case using pool_step_inv [OF pool_step.ps_take [OF ls_take(1)]]
    by (auto simp: lease_inv_def)
next
  case (ls_ack i s l t p' ts)
  then have p': "p' = ledger_set i True (ps_pool s)" and t: "ack_buf_id t = i"
    and fresh: "i \<notin> ledger_ids (ps_pool s)" and rng: "ucast i < pb_entries (ps_pool s)"
    by (auto simp: acknowledge_def ledger_ids_def not_le split: if_splits)
  have wf: "ledger_wf (ps_pool s)" using ls_ack by (simp add: lease_inv_def)
  note ids = ledger_ids_set [OF wf rng, of True]
  show ?case using ls_ack p' t fresh ids by (auto simp: lease_inv_def ledger_wf_def)
next
  case (ls_ack_refused s i l e p' ts)
  then have "p' = ps_pool s" by (auto simp: acknowledge_def split: if_splits)
  then show ?case using ls_ack_refused by (simp add: lease_inv_def)
next
  case (ls_recycle t ts s p' bufs')
  let ?i = "ack_buf_id t" and ?p = "ledger_set (ack_buf_id t) False (ps_pool s)"
  have wf: "ledger_wf (ps_pool s)" and out: "?i \<in> set (ps_out s)"
    and inv: "pool_inv ?p (ps_bufs s) (ps_head s) (ps_out s)"
    using ls_recycle by (auto simp: lease_inv_def)
  have r: "recycle ?i (?p, ps_bufs s) = Some (p', bufs')"
    using ls_recycle(2) by (simp add: recycle_acknowledged_def)
  from pool_inv_recycle [OF inv out] r
  have inv': "pool_inv p' bufs' (ps_head s) (remove1 ?i (ps_out s))" by auto
  have rng: "ucast ?i < pb_entries (ps_pool s)" using inv out by (auto simp: pool_inv_def)
  have d: "distinct (ps_out s)" using inv by (simp add: pool_inv_def)
  note ids = ledger_ids_set [OF wf rng, of False] and fr = recycle_frame [OF r]
  show ?case
    using ls_recycle(1,3) inv' ids fr d distinct_remove1_map [of ack_buf_id ts t]
    by (auto simp: lease_inv_def ledger_wf_def)
next
  case (ls_commit s p' bufs' ts)
  then have "p' = ps_pool s" by (auto simp: pbuf_commit_def)
  then show ?case using pool_step_inv [OF pool_step.ps_commit [OF ls_commit(1)]] ls_commit
    by (auto simp: lease_inv_def)
qed

lemma lease_reach_inv: "lease_reach s s' \<Longrightarrow> lease_inv s \<Longrightarrow> lease_inv s'"
  by (induction rule: lease_reach.induct) (auto intro: lease_step_inv)

section \<open>Slices of the backing region\<close>

lemma buffer_slice_place:
  assumes "buffer_slice base n sz i l = Some s"
    and "unat base + unat n * unat sz \<le> 2 ^ 64"
  shows "unat (sl_ptr s) = unat base + unat i * unat sz" "unat (sl_len s) \<le> unat sz"
    "unat i < unat n"
proof -
  have i: "unat i < unat n" and l: "unat l \<le> unat sz"
    and s: "s = \<lparr>sl_ptr = base + ucast i * ucast sz, sl_len = ucast l\<rparr>"
    using assms(1) unsigned_less [of i, where 'a = nat]
    by (auto simp: buffer_slice_def Let_def word_less_nat_alt word_le_nat_alt unsigned_ucast_eq
        take_bit_nat_eq_self split: if_splits)
  then show "unat i < unat n" by simp
  have c: "unat (ucast l :: u64) = unat l" "unat (ucast sz :: u64) = unat sz" "unat (ucast i :: u64) = unat i"
    by (simp_all add: unsigned_ucast_eq take_bit_nat_eq_self order_less_trans [OF unsigned_less])
  show "unat (sl_len s) \<le> unat sz" using l c by (simp add: s)
  show "unat (sl_ptr s) = unat base + unat i * unat sz"
  proof (cases "unat sz = 0")
    case True
    then show ?thesis using c unsigned_less [of base, where 'a = nat] by (simp add: s unat_word_ariths)
  next
    case False
    have "Suc (unat i) * unat sz \<le> unat n * unat sz" using i by (intro mult_le_mono1) simp
    then have "unat base + unat i * unat sz < 2 ^ 64" using assms(2) False by simp
    then show ?thesis using c by (simp add: s unat_word_ariths)
  qed
qed

lemma slots_apart: "i < j \<Longrightarrow> l \<le> sz \<Longrightarrow> b + i * sz + l \<le> b + j * (sz :: nat)"
proof -
  assume "i < j" "l \<le> sz"
  then have "i * sz + sz \<le> j * sz" using mult_le_mono1 [of "Suc i" j sz] by simp
  then show ?thesis using \<open>l \<le> sz\<close> by simp
qed

section \<open>Ownership of the pool's mappings\<close>

definition pool_regions :: "ProvidedBufferRing \<Rightarrow> MappedRegion multiset" where
  "pool_regions p = {#\<lparr>addr = pb_ring_addr p, len = pb_ring_bytes p\<rparr>,
     \<lparr>addr = pb_bufs_addr p, len = pb_bufs_bytes p\<rparr>#}"

lemma munmap_res [simp]: "w_res (munmap os a l w) = w_res w"
  by (simp add: munmap_def Let_def)

lemma munmap_holds: "holds w (add_mset \<lparr>addr = a, len = l\<rparr> M) F \<Longrightarrow> holds (munmap os a l w) M F"
  using munmap_region_holds [of w "\<lparr>addr = a, len = l\<rparr>" M F os] by (simp add: munmap_region_def)

lemma reg_pbuf_frame:
  "io_uring_register_pbuf reg fd op arg w = (r, w') \<Longrightarrow> w_res w' = w_res w \<and> holds w' M F = holds w M F"
  by (auto simp: io_uring_register_pbuf_def holds_def split: prod.splits)

lemma checked_ring_bytes_small: "checked_ring_bytes n (ucast (s :: u32)) = Ok (ucast n * ucast s)"
proof -
  have "unat n * unat s < 2 ^ 32 * 2 ^ 32"
    using unsigned_less [of n, where 'a = nat] unsigned_less [of s, where 'a = nat]
    by (intro mult_strict_mono) simp_all
  moreover have "unat (ucast s :: u64) = unat s"
    by (simp add: unsigned_ucast_eq take_bit_nat_eq_self order_less_trans [OF unsigned_less])
  ultimately show ?thesis by (simp add: checked_ring_bytes_def)
qed

lemma populate_commit_fields:
  "\<exists>t. fst (pbuf_commit (pbuf_populate n (p, bufs))) = p\<lparr>pb_tail_local := t\<rparr>"
proof (induction n)
  case 0
  then show ?case by (auto simp: pbuf_commit_def intro: exI [of _ "pb_tail_local p"])
next
  case (Suc n)
  then show ?case by (auto simp: pbuf_commit_def recycle_raw_def Let_def)
qed

lemma populated_pool:
  assumes "pbuf_commit (pbuf_populate k (fresh_pool ptr fd bgid n a l b l' sz, bufs)) = (p', bufs')"
  shows "pb_resources p' = ptr" "pb_fd p' = fd" "pb_bufs_bytes p' = l'"
    "pool_regions p' = {#\<lparr>addr = a, len = l\<rparr>, \<lparr>addr = b, len = l'\<rparr>#}"
proof -
  obtain t where "p' = (fresh_pool ptr fd bgid n a l b l' sz)\<lparr>pb_tail_local := t\<rparr>"
    using assms populate_commit_fields [of k "fresh_pool ptr fd bgid n a l b l' sz" bufs] by auto
  then show "pb_resources p' = ptr" "pb_fd p' = fd" "pb_bufs_bytes p' = l'"
    "pool_regions p' = {#\<lparr>addr = a, len = l\<rparr>, \<lparr>addr = b, len = l'\<rparr>#}"
    by (simp_all add: fresh_pool_def pool_regions_def)
qed

lemma register_outcome:
  assumes res: "w_res w ptr = Some res" and h: "holds w N F" and os: "mmap_rejects_empty os"
  shows "case register_provided_buffers_on os reg ptr bgid n sz flags w of
      (Err e, w') \<Rightarrow> w_res w' = w_res w \<and> holds w' N F
    | (Ok (p, bufs), w') \<Rightarrow> pb_resources p = ptr \<and> pb_fd p = res_fd res \<and>
        pb_bufs_bytes p = ucast n * ucast sz \<and>
        (\<exists>w2. w' = retain ptr w2 \<and> w_res w2 = w_res w \<and> holds w2 (N + pool_regions p) F)"
proof (cases "n = 0 \<or> sz = 0 \<or> \<not> is_power_of_two n \<or> n > MAX_PBUF_RING_ENTRIES")
  case True
  then show ?thesis using res h by (auto simp: register_provided_buffers_on_def Let_def)
next
  case False
  note unf = register_provided_buffers_on_def Let_def checked_ring_bytes_small
  have r16: "checked_ring_bytes n SIZEOF_IoUringBuf = Ok (ucast n * 16)"
    using checked_ring_bytes_small [of n 16] by (simp add: SIZEOF_IoUringBuf_def)
  let ?prot = "PROT_READ OR PROT_WRITE" and ?fl = "MAP_PRIVATE OR MAP_ANONYMOUS"
  show ?thesis
  proof (cases rule: mmap_cases [OF h os, of 0 "ucast n * 16" ?prot ?fl "- 1" 0])
    case (1 e w1)
    then show ?thesis using res False r16 mmap_keeps_res [OF 1(1)] by (auto simp: unf)
  next
    case ring: (2 a w1)
    note keep1 = mmap_keeps_res [OF ring(1)]
    show ?thesis
    proof (cases rule: mmap_cases [OF ring(2) os, of 0 "ucast n * ucast sz" ?prot ?fl "- 1" 0])
      case (1 e w2)
      then show ?thesis using res False r16 ring keep1 mmap_keeps_res [OF 1(1)] munmap_holds [OF 1(2)]
        by (auto simp: unf)
    next
      case bufs: (2 b w2)
      note keep2 = mmap_keeps_res [OF bufs(1)]
      let ?arg = "\<lparr>br_ring_addr = a, br_ring_entries = n, br_bgid = bgid, br_flags = flags, br_resv = [0, 0, 0]\<rparr>"
      obtain r w3 where r: "io_uring_register_pbuf reg (res_fd res) (register_op_u32 RegisterPbufRing) ?arg w2 = (r, w3)"
        by fastforce
      note keep3 = reg_pbuf_frame [OF r]
      show ?thesis
      proof (cases r)
        case (Err e)
        have "holds (munmap os a (ucast n * 16) (munmap os b (ucast n * ucast sz) w3)) N F"
          using bufs(2) keep3 by (intro munmap_holds) blast
        then show ?thesis using Err r res False r16 ring bufs keep1 keep2 keep3 by (auto simp: unf)
      next
        case (Ok v)
        let ?p0 = "fresh_pool ptr (res_fd res) bgid n a (ucast n * 16) b (ucast n * ucast sz) sz"
        obtain p' bufs' where p': "pbuf_commit (pbuf_populate (unat n) (?p0, replicate (unat n) zero_buf)) = (p', bufs')"
          by fastforce
        note f = populated_pool [OF p']
        have "holds w3 (N + pool_regions p') F" using bufs(2) keep3 f(4) by (simp add: add_mset_commute)
        moreover have "register_provided_buffers_on os reg ptr bgid n sz flags w =
            (Ok (p', bufs'), retain ptr w3)"
          using Ok r res False r16 ring bufs p' by (simp add: unf)
        ultimately show ?thesis using f keep1 keep2 keep3 by auto
      qed
    qed
  qed
qed

lemma pool_drop_owns:
  assumes "owns w (pb_resources p) (Suc n) (M + pool_regions p) F"
  shows "(n = 0 \<longrightarrow> holds (ProvidedBufferRing_drop os reg p w) M F) \<and>
    (n \<noteq> 0 \<longrightarrow> owns (ProvidedBufferRing_drop os reg p w) (pb_resources p) n M F)"
proof -
  obtain r w1 where r: "io_uring_register_pbuf reg (pb_fd p) (register_op_u32 UnregisterPbufRing)
    (unreg_arg (pb_bgid p)) w = (r, w1)" by fastforce
  obtain res where res: "w_res w (pb_resources p) = Some res" "unat (refcount res) = Suc n"
    and h: "holds w (M + pool_regions p + res_ms res) (add_mset (res_fd res) F)"
    using assms by (auto simp: owns_def)
  let ?w3 = "munmap os (pb_ring_addr p) (pb_ring_bytes p) (munmap os (pb_bufs_addr p) (pb_bufs_bytes p) w1)"
  have "holds ?w3 (M + res_ms res) (add_mset (res_fd res) F)"
    by (intro munmap_holds) (use h reg_pbuf_frame [OF r] in \<open>simp add: pool_regions_def add_mset_commute\<close>)
  then have own: "owns ?w3 (pb_resources p) (Suc n) M F"
    using res reg_pbuf_frame [OF r] by (simp add: owns_def)
  have drop: "ProvidedBufferRing_drop os reg p w = release os (pb_resources p) ?w3"
    unfolding ProvidedBufferRing_drop_def Let_def r by simp
  show ?thesis unfolding drop
    using own release_last [of ?w3 "pb_resources p" M F os]
      release_shared [of ?w3 "pb_resources p" "n - 1" M F os] by (cases n) simp_all
qed

lemma pool_reach_frame:
  "pool_reach s s' \<Longrightarrow> \<exists>t. ps_pool s' = (ps_pool s)\<lparr>pb_tail_local := t\<rparr>"
proof (induction rule: pool_reach.induct)
  case (pr_start s)
  then show ?case by (auto intro: exI [of _ "pb_tail_local (ps_pool s)"])
next
  case (pr_step s s' s'')
  from pr_step(2) have "\<exists>t. ps_pool s'' = (ps_pool s')\<lparr>pb_tail_local := t\<rparr>"
    by cases (auto dest: recycle_frame simp: pbuf_commit_def intro: exI [of _ "pb_tail_local (ps_pool s')"])
  then show ?case using pr_step(3) by auto
qed

lemma registered_lease_inv:
  assumes "register_provided_buffers_on os reg ptr bgid n sz flags w = (Ok (p, bufs), w')"
  shows "lease_inv \<lparr>ls_sys = \<lparr>ps_pool = p, ps_bufs = bufs, ps_head = 0, ps_out = []\<rparr>, ls_tokens = []\<rparr>"
proof -
  note reg = registered_pool_inv [OF assms]
  have "n \<le> MAX_PBUF_RING_ENTRIES"
    using assms unfolding register_provided_buffers_on_def Let_def
    by (auto split: option.splits if_splits simp: not_less)
  then have "ledger_wf p" using reg by (simp add: ledger_wf_def)
  then show ?thesis using reg ledger_ids_fresh by (simp add: lease_inv_def)
qed

section \<open>Properties\<close>

text \<open>C20. No buffer is lost and none is in two places. From a successful registration on,
  in every order of kernel picks, recycles of delivered buffers and commits, every id of
  the pool is either queued once in the descriptor ring or handed out once; every queued
  descriptor names its own buffer of the backing region with the full buffer length; and
  what the kernel may pick never runs ahead of what was recycled.\<close>

theorem pool_ids_accounted:
  assumes "register_provided_buffers_on os reg ptr bgid n sz flags w = (Ok (p, bufs), w')"
    and "pool_reach \<lparr>ps_pool = p, ps_bufs = bufs, ps_head = 0, ps_out = []\<rparr> s"
  shows "let q = pool_avail (ps_pool s) (ps_bufs s) (ps_head s) in
    distinct (map fst q @ ps_out s) \<and> set (map fst q @ ps_out s) = {i. ucast i < n} \<and>
    (\<forall>d\<in>set q. d = (fst d, pb_bufs_addr p + ucast (fst d) * ucast sz, sz)) \<and>
    unat (b_resv (ps_bufs s ! 0) - ps_head s) \<le> length q"
proof -
  note reg = registered_pool_inv [OF assms(1)]
  have inv: "pool_sys_inv s" using pool_reach_inv [OF assms(2)] reg by simp
  obtain t where t: "ps_pool s = p\<lparr>pb_tail_local := t\<rparr>" using pool_reach_frame [OF assms(2)] by auto
  have "\<forall>d\<in>set (pool_avail (ps_pool s) (ps_bufs s) (ps_head s)). d = buf_desc p (fst d)"
    using inv by (auto simp: pool_inv_def t buf_desc_def)
  then show ?thesis using inv reg
    by (auto simp: pool_inv_def Let_def t buf_desc_def pool_avail_def)
qed

text \<open>C21. An acknowledged delivery is held by one token. However the owner interleaves
  acknowledgments (repeated ones included), token recycles and commits with kernel picks,
  no two live tokens name one buffer, the buffer of a live token is not in the descriptor
  ring, a second acknowledgment of it is refused, and giving the token back succeeds.\<close>

theorem acknowledged_buffer_exclusive:
  assumes "register_provided_buffers_on os reg ptr bgid n sz flags w = (Ok (p, bufs), w')"
    and "lease_reach \<lparr>ls_sys = \<lparr>ps_pool = p, ps_bufs = bufs, ps_head = 0, ps_out = []\<rparr>,
           ls_tokens = []\<rparr> \<lparr>ls_sys = s, ls_tokens = ts\<rparr>"
  shows "distinct (map ack_buf_id ts) \<and>
    (\<forall>t\<in>set ts.
       ack_buf_id t \<notin> set (map fst (pool_avail (ps_pool s) (ps_bufs s) (ps_head s))) \<and>
       (\<forall>l. \<not> is_ok (fst (acknowledge (ps_pool s) (ack_buf_id t) l))) \<and>
       recycle_acknowledged t (ps_pool s, ps_bufs s) \<noteq> None)"
proof -
  have inv: "lease_inv \<lparr>ls_sys = s, ls_tokens = ts\<rparr>"
    by (rule lease_reach_inv [OF assms(2) registered_lease_inv [OF assms(1)]])
  then have led: "ack_buf_id t \<in> ledger_ids (ps_pool s)" "ack_buf_id t \<in> set (ps_out s)"
    if "t \<in> set ts" for t using that by (auto simp: lease_inv_def)
  have dis: "distinct (map fst (pool_avail (ps_pool s) (ps_bufs s) (ps_head s)) @ ps_out s)"
    using inv by (simp add: lease_inv_def pool_inv_def)
  have "ack_buf_id t \<notin> set (map fst (pool_avail (ps_pool s) (ps_bufs s) (ps_head s)))"
    if "t \<in> set ts" for t using led(2) [OF that] dis by auto
  moreover have "\<not> is_ok (fst (acknowledge (ps_pool s) (ack_buf_id t) l))" if "t \<in> set ts" for t l
    using led(1) [OF that] by (simp add: acknowledge_def ledger_ids_def)
  moreover have "recycle_acknowledged t (ps_pool s, ps_bufs s) \<noteq> None" if "t \<in> set ts" for t
    using led(1) [OF that] by (simp add: recycle_acknowledged_def recycle_def ledger_ids_def Let_def)
  ultimately show ?thesis using inv by (simp add: lease_inv_def)
qed

text \<open>C23. The byte array behind \<open>acknowledge\<close> is a set of ids. On a pool whose ledger covers
  its ids, acknowledging refuses what is out of range, then what is in the set, and
  otherwise adds the id and touches no other; recycling a token removes its id.\<close>

theorem ledger_refines_set:
  assumes "ledger_wf p"
  shows "map_prod id ledger_ids (acknowledge p i l) = ack_spec p (ledger_ids p) i l \<and>
    map_option (ledger_ids \<circ> fst) (recycle_acknowledged t (p, bufs)) =
      (if ucast (ack_buf_id t) < pb_entries p then Some (ledger_ids p - {ack_buf_id t}) else None)"
proof -
  have "map_option (ledger_ids \<circ> fst) (recycle_acknowledged t (p, bufs)) =
      (if ucast (ack_buf_id t) < pb_entries p then Some (ledger_ids p - {ack_buf_id t}) else None)"
    using ledger_ids_set [OF assms, of "ack_buf_id t" False]
    by (simp add: recycle_acknowledged_def recycle_def recycle_raw_def Let_def)
  then show ?thesis using acknowledge_spec [OF assms] by simp
qed


text \<open>C22. A pool takes and gives back exactly its own memory and keeps its ring alive.
  Registration that fails, at whichever step, leaves the holdings and the owner count as
  they were. A registered pool holds its two mappings and one share of the ring, dropping
  it restores the state before, and when the ring is dropped first the ring's descriptor
  and mappings stay until the pool goes.\<close>

theorem pool_lifetime:
  assumes "owns w (r_resources r) (Suc n) M F" "Suc (Suc n) < 2 ^ 64" "mmap_rejects_empty os"
  shows "case IoUring_register_provided_buffers os reg r bgid c sz w of
      (Err e, w') \<Rightarrow> owns w' (r_resources r) (Suc n) M F
    | (Ok (p, bufs), w') \<Rightarrow>
        owns (ProvidedBufferRing_drop os reg p w') (r_resources r) (Suc n) M F \<and>
        owns (snd (IoUring_drop os r (m, w'))) (r_resources r) (Suc n) (M + pool_regions p) F \<and>
        (n = 0 \<longrightarrow> holds (ProvidedBufferRing_drop os reg p (snd (IoUring_drop os r (m, w')))) M F)"
proof -
  let ?ptr = "r_resources r"
  obtain res where res: "w_res w ?ptr = Some res" "unat (refcount res) = Suc n"
    and h: "holds w (M + res_ms res) (add_mset (res_fd res) F)" using assms(1) by (auto simp: owns_def)
  obtain x w' where x: "register_provided_buffers_on os reg ?ptr bgid c sz 0 w = (x, w')" by fastforce
  note out = register_outcome [OF res(1) h assms(3), where reg = reg and bgid = bgid and n = c and sz = sz and flags = 0, unfolded x]
  show ?thesis
  proof (cases x)
    case (Err e)
    then show ?thesis using out res x by (simp add: IoUring_register_provided_buffers_def owns_def)
  next
    case (Ok pb)
    obtain p bufs where pb: "pb = (p, bufs)" by fastforce
    with Ok out obtain w2 where w2: "w' = retain ?ptr w2" "w_res w2 = w_res w" "pb_resources p = ?ptr"
      "holds w2 (M + res_ms res + pool_regions p) (add_mset (res_fd res) F)" by auto
    have "owns w2 ?ptr (Suc n) (M + pool_regions p) F"
      using res w2(2,4) by (simp add: owns_def ac_simps)
    from retain_owns [OF this assms(2)] have own: "owns w' ?ptr (Suc (Suc n)) (M + pool_regions p) F"
      by (simp add: w2(1))
    note rel = release_shared [OF own, of os]
    have "owns (ProvidedBufferRing_drop os reg p w') ?ptr (Suc n) M F"
      using pool_drop_owns [of w' p "Suc n" M F os reg] own w2(3) by simp
    moreover have "n = 0 \<longrightarrow> holds (ProvidedBufferRing_drop os reg p (release os ?ptr w')) M F"
      using pool_drop_owns [of "release os ?ptr w'" p n M F os reg] rel w2(3) by simp
    ultimately show ?thesis
      using rel x Ok pb by (simp add: IoUring_register_provided_buffers_def IoUring_drop_def)
  qed
qed

section \<open>Examples\<close>

text \<open>A ring made on the example system, and a pool of four buffers of 64 bytes on it.\<close>

definition ex_reg :: "u64 reg_fn" where "ex_reg fd op arg k = (0, k)"

definition ex_ring_res :: RingResources where
  "ex_ring_res = \<lparr>refcount = 1, res_fd = RawFd 7, res_sq_ring = \<lparr>addr = 0x1000, len = 256\<rparr>,
     res_cq_ring = no_region, res_sqes = \<lparr>addr = 0x2000, len = 256\<rparr>,
     self_page = \<lparr>addr = 0x3000, len = 4096\<rparr>\<rparr>"

definition ex_owned :: "u64 world" where
  "ex_owned = ex_world\<lparr>w_res := [0x3000 \<mapsto> ex_ring_res], w_fds := [RawFd 7],
     w_maps := [\<lparr>addr = 0x1000, len = 256\<rparr>, \<lparr>addr = 0x2000, len = 256\<rparr>, \<lparr>addr = 0x3000, len = 4096\<rparr>]\<rparr>"

lemma ex_owned_owns: "owns ex_owned 0x3000 1 {#} {#}"
  by (simp add: owns_def ex_owned_def ex_ring_res_def holds_def ex_world_def res_ms_def
      region_ms_def no_region_def add_mset_commute)

lemma ex_pool_ok:
  "\<exists>p bufs w'. register_provided_buffers_on (ex_os 9) ex_reg 0x3000 1 4 64 0 ex_owned = (Ok (p, bufs), w')
     \<and> pb_entries p = 4 \<and> pb_buf_size p = 64 \<and> b_resv (bufs ! 0) = 4 \<and> b_bid (bufs ! 0) = 0 \<and>
       pb_mask p = 3 \<and> pb_bufs_addr p = 0x20000"
proof -
  have "is_power_of_two 4" by code_simp
  moreover have "\<not> (9 :: u64) \<le> 1" by (simp add: word_le_nat_alt)
  moreover have "pbuf_populate 4 = pbuf_populate (Suc (Suc (Suc (Suc 0))))" "replicate 4 x = [x, x, x, x]"
    for x :: IoUringBuf by (simp_all add: eval_nat_numeral)
  ultimately show ?thesis
    by (simp add: register_provided_buffers_on_def ex_owned_def ex_world_def ex_ring_res_def Let_def
        MAX_PBUF_RING_ENTRIES_def checked_ring_bytes_def SIZEOF_IoUringBuf_def mmap_def ex_os_def
        check_def MAX_ERRNO_def io_uring_register_pbuf_def ex_reg_def fresh_pool_def recycle_raw_def
        pbuf_commit_def zero_buf_def)
qed

text \<open>The kernel picks the first buffer of the example pool; its owner acknowledges it.\<close>

theorem pool_ids_accounted_witness:
  "\<exists>p bufs w' s. register_provided_buffers_on (ex_os 9) ex_reg 0x3000 1 4 64 0 ex_owned = (Ok (p, bufs), w') \<and>
     pool_reach \<lparr>ps_pool = p, ps_bufs = bufs, ps_head = 0, ps_out = []\<rparr> s \<and> ps_out s = [0] \<and>
     distinct (map fst (pool_avail (ps_pool s) (ps_bufs s) (ps_head s)) @ ps_out s)"
proof -
  obtain p bufs w' where p: "register_provided_buffers_on (ex_os 9) ex_reg 0x3000 1 4 64 0 ex_owned = (Ok (p, bufs), w')"
    and f: "pb_mask p = 3" "b_resv (bufs ! 0) = 4" "b_bid (bufs ! 0) = 0" using ex_pool_ok by blast
  let ?s = "\<lparr>ps_pool = p, ps_bufs = bufs, ps_head = 0, ps_out = []\<rparr>"
  have "pool_step ?s (?s\<lparr>ps_head := 1, ps_out := [0]\<rparr>)"
    using pool_step.ps_take [of ?s] f by simp
  then have r: "pool_reach ?s (?s\<lparr>ps_head := 1, ps_out := [0]\<rparr>)"
    by (rule pool_reach.pr_step [OF pool_reach.pr_start])
  show ?thesis using pool_ids_accounted [OF p r] p r
    by (intro exI [of _ p] exI [of _ bufs] exI [of _ w'] exI [of _ "?s\<lparr>ps_head := 1, ps_out := [0]\<rparr>"])
      (simp add: Let_def)
qed

theorem acknowledged_buffer_exclusive_witness:
  "\<exists>p bufs w' s t. register_provided_buffers_on (ex_os 9) ex_reg 0x3000 1 4 64 0 ex_owned = (Ok (p, bufs), w') \<and>
     lease_reach \<lparr>ls_sys = \<lparr>ps_pool = p, ps_bufs = bufs, ps_head = 0, ps_out = []\<rparr>, ls_tokens = []\<rparr>
       \<lparr>ls_sys = s, ls_tokens = [t]\<rparr> \<and>
     \<not> is_ok (fst (acknowledge (ps_pool s) (ack_buf_id t) 8)) \<and>
     recycle_acknowledged t (ps_pool s, ps_bufs s) \<noteq> None"
proof -
  obtain p bufs w' where p: "register_provided_buffers_on (ex_os 9) ex_reg 0x3000 1 4 64 0 ex_owned = (Ok (p, bufs), w')"
    and f: "pb_mask p = 3" "b_resv (bufs ! 0) = 4" "b_bid (bufs ! 0) = 0" "pb_entries p = 4" "pb_buf_size p = 64"
    using ex_pool_ok by blast
  let ?s = "\<lparr>ps_pool = p, ps_bufs = bufs, ps_head = 0, ps_out = []\<rparr>"
  let ?s1 = "?s\<lparr>ps_head := 1, ps_out := [0]\<rparr>"
  have "lease_inv \<lparr>ls_sys = ?s, ls_tokens = []\<rparr>" by (rule registered_lease_inv [OF p])
  then have "\<not> ledger_get p 0" using f by (auto simp: lease_inv_def ledger_ids_def)
  then have ack: "acknowledge p 0 8 = (Ok \<lparr>ack_buf_id = 0, ack_len = 8\<rparr>, ledger_set 0 True p)"
    using f by (simp add: acknowledge_def)
  have "lease_step \<lparr>ls_sys = ?s, ls_tokens = []\<rparr> \<lparr>ls_sys = ?s1, ls_tokens = []\<rparr>"
    using lease_step.ls_take [of ?s "[]"] f by simp
  moreover have "lease_step \<lparr>ls_sys = ?s1, ls_tokens = []\<rparr>
      \<lparr>ls_sys = ?s1\<lparr>ps_pool := ledger_set 0 True p\<rparr>, ls_tokens = [\<lparr>ack_buf_id = 0, ack_len = 8\<rparr>]\<rparr>"
    using lease_step.ls_ack [of 0 ?s1 8 _ _ "[]"] ack by simp
  ultimately have r: "lease_reach \<lparr>ls_sys = ?s, ls_tokens = []\<rparr>
      \<lparr>ls_sys = ?s1\<lparr>ps_pool := ledger_set 0 True p\<rparr>, ls_tokens = [\<lparr>ack_buf_id = 0, ack_len = 8\<rparr>]\<rparr>"
    by (meson lease_reach.intros)
  show ?thesis using acknowledged_buffer_exclusive [OF p r] p r by fastforce
qed

theorem ledger_refines_set_witness:
  "\<exists>p bufs w'. register_provided_buffers_on (ex_os 9) ex_reg 0x3000 1 4 64 0 ex_owned = (Ok (p, bufs), w') \<and>
     map_prod id ledger_ids (acknowledge p 2 8) = (Ok \<lparr>ack_buf_id = 2, ack_len = 8\<rparr>, {2})"
proof -
  obtain p bufs w' where p: "register_provided_buffers_on (ex_os 9) ex_reg 0x3000 1 4 64 0 ex_owned = (Ok (p, bufs), w')"
    and f: "pb_entries p = 4" "pb_buf_size p = 64" using ex_pool_ok by blast
  have inv: "ledger_wf p" "ledger_ids p = {}"
    using registered_lease_inv [OF p] by (auto simp: lease_inv_def)
  have "ack_spec p {} 2 8 = (Ok \<lparr>ack_buf_id = 2, ack_len = 8\<rparr>, {2})"
    using f by (simp add: ack_spec_def word_le_nat_alt word_less_nat_alt)
  then show ?thesis using ledger_refines_set [OF inv(1), of 2 8] inv(2) p by auto
qed


theorem pool_lifetime_witness:
  "owns (snd (IoUring_register_provided_buffers (ex_os 1) ex_reg (ex_ring\<lparr>r_resources := 0x3000\<rparr>) 1 3 64 ex_owned))
     0x3000 1 {#} {#} \<and>
   (\<exists>p bufs w'. register_provided_buffers_on (ex_os 9) ex_reg 0x3000 1 4 64 0 ex_owned = (Ok (p, bufs), w') \<and>
     owns (ProvidedBufferRing_drop (ex_os 9) ex_reg p w') 0x3000 1 {#} {#})"
proof -
  let ?r = "ex_ring\<lparr>r_resources := 0x3000\<rparr>"
  have o: "owns ex_owned (r_resources ?r) (Suc 0) {#} {#}" using ex_owned_owns by simp
  have life: "case IoUring_register_provided_buffers (ex_os lim) ex_reg ?r 1 c 64 ex_owned of
      (Err e, w') \<Rightarrow> owns w' 0x3000 1 {#} {#}
    | (Ok (p, bufs), w') \<Rightarrow> owns (ProvidedBufferRing_drop (ex_os lim) ex_reg p w') 0x3000 1 {#} {#}" for lim c
    using pool_lifetime [OF o _ ex_os_rejects_empty, where lim1 = lim and reg = ex_reg and bgid = 1 and c = c and sz = 64 and m = ex_shm]
    by (auto split: prod.splits result.splits)
  obtain p bufs w' where p: "register_provided_buffers_on (ex_os 9) ex_reg 0x3000 1 4 64 0 ex_owned = (Ok (p, bufs), w')"
    using ex_pool_ok by blast
  then have "owns (ProvidedBufferRing_drop (ex_os 9) ex_reg p w') 0x3000 1 {#} {#}"
    using life [of 9 4] by (simp add: IoUring_register_provided_buffers_def)
  moreover have "\<not> is_power_of_two 3" by code_simp
  then have "fst (IoUring_register_provided_buffers (ex_os 1) ex_reg ?r 1 3 64 ex_owned) =
      Err (Setup (InvalidArg BufferCountNotPowerOfTwo))"
    by (simp add: IoUring_register_provided_buffers_def register_provided_buffers_on_def ex_owned_def)
  then have "owns (snd (IoUring_register_provided_buffers (ex_os 1) ex_reg ?r 1 3 64 ex_owned)) 0x3000 1 {#} {#}"
    using life [of 1 3] by (simp split: prod.splits)
  ultimately show ?thesis using p by blast
qed

end
