(* ===== verification/Descriptors.thy ===== *)
theory Descriptors
  imports Types
begin

text \<open>
  The values \<open>Socket\<close> (\<open>src/net.rs\<close>) and \<open>File\<close> (\<open>src/fs.rs\<close>), which own one descriptor each and
  are handed out by the owned layer. Their system calls are in the theory \<open>Handles\<close>.
\<close>

datatype Socket = Socket (Socket_fd: RawFd)
datatype File = File (File_fd: RawFd)

definition Socket_from_fd :: "RawFd \<Rightarrow> Socket" where "Socket_from_fd fd = Socket fd"
definition File_from_fd :: "RawFd \<Rightarrow> File" where "File_from_fd fd = File fd"

definition Socket_into_fd :: "Socket \<Rightarrow> RawFd" where "Socket_into_fd s = Socket_fd s"
definition File_into_fd :: "File \<Rightarrow> RawFd" where "File_into_fd f = File_fd f"

end
