(* ===== verification/Owned_Streams.thy ===== *)
theory Owned_Streams
  imports Owned_Core Sqe_Net Pbuf Descriptors
begin

text \<open>
  Requests that hand out what the kernel creates rather than storage of the caller
  (\<open>src/owned/slot.rs\<close>, \<open>multishot.rs\<close>, \<open>readmultishot.rs\<close>, \<open>accept.rs\<close>, \<open>direct_accept.rs\<close>,
  \<open>direct_socket.rs\<close>, \<open>fixedfdinstall.rs\<close>): slots of the registered file table, buffers of
  a provided pool, sockets and files. The multishot kinds stay armed over many
  completions and are shown to satisfy the contract of an armed request; the others
  satisfy the ticket contract.
\<close>

section \<open>Slots of the file table (\<open>slot.rs\<close>)\<close>

definition FILE_INDEX_ALLOC :: u32 where "FILE_INDEX_ALLOC = - 1"

datatype SlotIndex = SlotIndex (slot_get: u32)

definition SLOT_MAX :: u32 where "SLOT_MAX = - 1 - 2"

definition SlotIndex_new :: "u32 \<Rightarrow> SlotIndex option" where
  "SlotIndex_new index = (if index > SLOT_MAX then None else Some (SlotIndex index))"

datatype SlotTarget = Auto | Exact SlotIndex

definition SlotTarget_exact :: "u32 \<Rightarrow> SlotTarget option" where
  "SlotTarget_exact index = map_option Exact (SlotIndex_new index)"

fun SlotTarget_raw :: "SlotTarget \<Rightarrow> i32" where
  "SlotTarget_raw Auto = FILE_INDEX_ALLOC"
| "SlotTarget_raw (Exact slot) = slot_get slot + 1"

fun SlotTarget_resolve :: "SlotTarget \<Rightarrow> i32 \<Rightarrow> SlotIndex option" where
  "SlotTarget_resolve (Exact slot) r = Some slot"
| "SlotTarget_resolve Auto r = (if sint r < 0 then None else SlotIndex_new r)"

record DirectSlot =
  ds_index :: SlotIndex
  ds_ring :: RingId

definition DirectSlot_new :: "SlotIndex \<Rightarrow> RingId \<Rightarrow> DirectSlot" where
  "DirectSlot_new index ring = \<lparr>ds_index = index, ds_ring = ring\<rparr>"

definition DirectSlot_belongs_to :: "DirectSlot \<Rightarrow> RingId \<Rightarrow> bool" where
  "DirectSlot_belongs_to d ring \<longleftrightarrow> ring_raw (ds_ring d) = ring_raw ring"

definition as_fixed_fd :: "DirectSlot \<Rightarrow> i32" where
  "as_fixed_fd d = slot_get (ds_index d)"

text \<open>\<open>u32::try_from\<close> on a signed completion result.\<close>

definition u32_try_from :: "i32 \<Rightarrow> u32 option" where
  "u32_try_from r = (if sint r < 0 then None else Some r)"

section \<open>Multishot receives and reads (\<open>multishot.rs\<close>, \<open>readmultishot.rs\<close>)\<close>

text \<open>The ticket keeps the group of the pool only to report it.\<close>

record PreparedMultishot =
  pms_fd :: RawFd
  pms_bgid :: u16
  pms_flags :: u32

record MultishotRecv =
  ms_ring :: RingId
  ms_id :: RequestId
  ms_bgid :: u16
  ms_fd :: RawFd

definition PreparedMultishot_into_pending ::
  "PreparedMultishot \<Rightarrow> RingId \<Rightarrow> RequestId \<Rightarrow> IoUringSqe \<times> MultishotRecv" where
  "PreparedMultishot_into_pending p ring i =
    (let sqe = Sqe_buffer_select (pms_bgid p) (Sqe_recv_multishot (pms_fd p) (pms_flags p));
         pending = \<lparr>ms_ring = ring, ms_id = i, ms_bgid = pms_bgid p, ms_fd = pms_fd p\<rparr>
     in (Sqe_user_data (id_raw i) sqe, pending))"

definition PreparedMultishot_recv :: "RawFd \<Rightarrow> u16 \<Rightarrow> u32 \<Rightarrow> PreparedMultishot" where
  "PreparedMultishot_recv fd bgid flags = \<lparr>pms_fd = fd, pms_bgid = bgid, pms_flags = flags\<rparr>"

datatype Armed = Yes | Armed_Finished

fun is_armed :: "Armed \<Rightarrow> bool" where
  "is_armed Yes = True"
| "is_armed Armed_Finished = False"

text \<open>An \<open>Arrival\<close> borrows the pool; the pool is an argument of its methods here.\<close>

record Arrival =
  ar_buf_id :: u16
  ar_len :: u32

record Finished =
  fn_receipt :: Receipt
  fn_last :: "Arrival option"

datatype Delivery = Data Arrival | Empty i32 | Done Finished

definition Arrival_claim :: "u16 option \<Rightarrow> i32 \<Rightarrow> Arrival option" where
  "Arrival_claim buffer_id r =
    (case (buffer_id, u32_try_from r) of
       (Some buf_id, Some l) \<Rightarrow> Some \<lparr>ar_buf_id = buf_id, ar_len = l\<rparr>
     | _ \<Rightarrow> None)"

definition Arrival_bytes :: "BufferConsumer \<Rightarrow> Arrival \<Rightarrow> slice" where
  "Arrival_bytes pool a =
     (case Consumer_buffer pool (ar_buf_id a) (ar_len a) of Some s \<Rightarrow> s | None \<Rightarrow> empty_slice)"

definition Arrival_drop ::
  "Arrival \<Rightarrow> BufferConsumer \<times> IoUringBuf list \<Rightarrow> (BufferConsumer \<times> IoUringBuf list) option" where
  "Arrival_drop a = Consumer_recycle_and_commit (ar_buf_id a)"

fun Delivery_from_event :: "Event \<Rightarrow> Delivery" where
  "Delivery_from_event (Partial p) =
    (case Arrival_claim (PartialReceipt_buffer_id p) (pr_result p) of
       None \<Rightarrow> Empty (pr_result p)
     | Some a \<Rightarrow> Data a)"
| "Delivery_from_event (Complete r) =
     Done \<lparr>fn_receipt = r, fn_last = Arrival_claim (CqeFlags_buffer_id (rc_flags r)) (rc_result r)\<rparr>"

fun Delivery_armed :: "Delivery \<Rightarrow> Armed" where
  "Delivery_armed (Data _) = Yes"
| "Delivery_armed (Empty _) = Yes"
| "Delivery_armed (Done _) = Armed_Finished"

fun Delivery_bytes :: "BufferConsumer \<Rightarrow> Delivery \<Rightarrow> slice option" where
  "Delivery_bytes pool (Data a) = Some (Arrival_bytes pool a)"
| "Delivery_bytes pool (Done f) = map_option (Arrival_bytes pool) (fn_last f)"
| "Delivery_bytes pool (Empty _) = None"

definition take_last :: "Finished \<Rightarrow> Arrival option \<times> Finished" where
  "take_last f = (fn_last f, f\<lparr>fn_last := None\<rparr>)"

definition Finished_result :: "Finished \<Rightarrow> (u32, Error) result" where
  "Finished_result f = cqe_u32_result (rc_result (fn_receipt f))"

definition Finished_into_parts :: "Finished \<Rightarrow> Receipt \<times> Arrival option" where
  "Finished_into_parts f = (fn_receipt f, fn_last f)"

text \<open>Dropping a delivery drops the arrival inside it, if any.\<close>

fun delivery_arrival :: "Delivery \<Rightarrow> Arrival option" where
  "delivery_arrival (Data a) = Some a"
| "delivery_arrival (Empty _) = None"
| "delivery_arrival (Done f) = fn_last f"

definition Delivery_drop ::
  "Delivery \<Rightarrow> BufferConsumer \<times> IoUringBuf list \<Rightarrow> (BufferConsumer \<times> IoUringBuf list) option" where
  "Delivery_drop d pool =
     (case delivery_arrival d of None \<Rightarrow> Some pool | Some a \<Rightarrow> Arrival_drop a pool)"

definition MultishotRecv_matches :: "MultishotRecv \<Rightarrow> Event \<Rightarrow> bool" where
  "MultishotRecv_matches t e = Event_belongs_to e (ms_ring t) (ms_id t)"

definition MultishotRecv_record :: "MultishotRecv \<Rightarrow> Event \<Rightarrow> (Delivery, Event) result" where
  "MultishotRecv_record t e =
     (if \<not> MultishotRecv_matches t e then Err e else Ok (Delivery_from_event e))"

definition OwnedSubmitter_push_multishot where
  "OwnedSubmitter_push_multishot p = owned_push PreparedMultishot_into_pending (\<lambda>p _. p) p"

record PreparedReadMultishot =
  prm_fd :: RawFd
  prm_offset :: u64
  prm_bgid :: u16

record MultishotRead =
  mo_ring :: RingId
  mo_id :: RequestId
  mo_bgid :: u16
  mo_fd :: RawFd

definition PreparedReadMultishot_into_pending ::
  "PreparedReadMultishot \<Rightarrow> RingId \<Rightarrow> RequestId \<Rightarrow> IoUringSqe \<times> MultishotRead" where
  "PreparedReadMultishot_into_pending p ring i =
    (let sqe = Sqe_read_multishot (prm_fd p) (prm_offset p) (prm_bgid p);
         pending = \<lparr>mo_ring = ring, mo_id = i, mo_bgid = prm_bgid p, mo_fd = prm_fd p\<rparr>
     in (Sqe_user_data (id_raw i) sqe, pending))"

definition PreparedReadMultishot_on :: "RawFd \<Rightarrow> u64 \<Rightarrow> u16 \<Rightarrow> PreparedReadMultishot" where
  "PreparedReadMultishot_on fd offset bgid = \<lparr>prm_fd = fd, prm_offset = offset, prm_bgid = bgid\<rparr>"

definition MultishotRead_matches :: "MultishotRead \<Rightarrow> Event \<Rightarrow> bool" where
  "MultishotRead_matches t e = Event_belongs_to e (mo_ring t) (mo_id t)"

definition MultishotRead_record :: "MultishotRead \<Rightarrow> Event \<Rightarrow> (Delivery, Event) result" where
  "MultishotRead_record t e =
     (if \<not> MultishotRead_matches t e then Err e else Ok (Delivery_from_event e))"

definition OwnedSubmitter_push_read_multishot where
  "OwnedSubmitter_push_read_multishot p = owned_push PreparedReadMultishot_into_pending (\<lambda>p _. p) p"

lemma delivery_armed_event [simp]: "is_armed (Delivery_armed (Delivery_from_event e)) = (\<not> Event_is_terminal e)"
  by (cases e) (simp_all split: option.split)

interpretation recv_stream: armed_request PreparedMultishot_into_pending "\<lambda>p _. p" ms_ring ms_id
  "\<lambda>_. ()" "\<lambda>_. ()" MultishotRecv_record "is_armed \<circ> Delivery_armed"
  by unfold_locales
    (auto simp: PreparedMultishot_into_pending_def MultishotRecv_record_def MultishotRecv_matches_def
      Sqe_user_data_def Let_def)

interpretation read_stream: armed_request PreparedReadMultishot_into_pending "\<lambda>p _. p" mo_ring mo_id
  "\<lambda>_. ()" "\<lambda>_. ()" MultishotRead_record "is_armed \<circ> Delivery_armed"
  by unfold_locales
    (auto simp: PreparedReadMultishot_into_pending_def MultishotRead_record_def MultishotRead_matches_def
      Sqe_user_data_def Let_def)

section \<open>Multishot accepts (\<open>accept.rs\<close>)\<close>

record PreparedAccept =
  pac_fd :: RawFd
  pac_flags :: u32

record MultishotAccept =
  ac_ring :: RingId
  ac_id :: RequestId
  ac_fd :: RawFd

definition PreparedAccept_into_pending ::
  "PreparedAccept \<Rightarrow> RingId \<Rightarrow> RequestId \<Rightarrow> IoUringSqe \<times> MultishotAccept" where
  "PreparedAccept_into_pending p ring i =
    (let sqe = Sqe_accept_multishot (pac_fd p) (pac_flags p);
         pending = \<lparr>ac_ring = ring, ac_id = i, ac_fd = pac_fd p\<rparr>
     in (Sqe_user_data (id_raw i) sqe, pending))"

definition PreparedAccept_on :: "RawFd \<Rightarrow> u32 \<Rightarrow> PreparedAccept" where
  "PreparedAccept_on fd flags = \<lparr>pac_fd = fd, pac_flags = flags\<rparr>"

record AcceptFinished =
  af_receipt :: Receipt
  af_last :: "Socket option"

datatype Incoming = Connection Socket | Incoming_Empty i32 | Incoming_Done AcceptFinished

definition MultishotAccept_claim :: "i32 \<Rightarrow> Socket option" where
  "MultishotAccept_claim r = map_option (\<lambda>fd. Socket_from_fd (RawFd (ucast fd))) (u32_try_from r)"

definition MultishotAccept_matches :: "MultishotAccept \<Rightarrow> Event \<Rightarrow> bool" where
  "MultishotAccept_matches t e = Event_belongs_to e (ac_ring t) (ac_id t)"

definition MultishotAccept_record :: "MultishotAccept \<Rightarrow> Event \<Rightarrow> (Incoming, Event) result" where
  "MultishotAccept_record t e =
    (if \<not> MultishotAccept_matches t e then Err e
     else case e of
       Partial p \<Rightarrow> Ok (case MultishotAccept_claim (pr_result p) of
                           None \<Rightarrow> Incoming_Empty (pr_result p)
                         | Some s \<Rightarrow> Connection s)
     | Complete r \<Rightarrow> Ok (Incoming_Done \<lparr>af_receipt = r, af_last = MultishotAccept_claim (rc_result r)\<rparr>))"

fun Incoming_armed :: "Incoming \<Rightarrow> Armed" where
  "Incoming_armed (Connection _) = Yes"
| "Incoming_armed (Incoming_Empty _) = Yes"
| "Incoming_armed (Incoming_Done _) = Armed_Finished"

definition AcceptFinished_result :: "AcceptFinished \<Rightarrow> (u32, Error) result" where
  "AcceptFinished_result f = cqe_u32_result (rc_result (af_receipt f))"

definition AcceptFinished_into_parts :: "AcceptFinished \<Rightarrow> Receipt \<times> Socket option" where
  "AcceptFinished_into_parts f = (af_receipt f, af_last f)"

fun into_connection :: "Incoming \<Rightarrow> Socket option" where
  "into_connection (Connection s) = Some s"
| "into_connection (Incoming_Done f) = snd (AcceptFinished_into_parts f)"
| "into_connection (Incoming_Empty _) = None"

definition OwnedSubmitter_push_accept where
  "OwnedSubmitter_push_accept p = owned_push PreparedAccept_into_pending (\<lambda>p _. p) p"

interpretation accept_stream: armed_request PreparedAccept_into_pending "\<lambda>p _. p" ac_ring ac_id
  "\<lambda>_. ()" "\<lambda>_. ()" MultishotAccept_record "is_armed \<circ> Incoming_armed"
  by unfold_locales
    (auto simp: PreparedAccept_into_pending_def MultishotAccept_record_def MultishotAccept_matches_def
      Sqe_user_data_def Let_def split: Event.splits option.splits)

section \<open>Multishot accepts into the file table (\<open>direct_accept.rs\<close>)\<close>

record PreparedDirectAccept =
  pda_fd :: RawFd
  pda_flags :: u32

record DirectAccept =
  da_ring :: RingId
  da_id :: RequestId
  da_fd :: RawFd

definition PreparedDirectAccept_into_pending ::
  "PreparedDirectAccept \<Rightarrow> RingId \<Rightarrow> RequestId \<Rightarrow> IoUringSqe \<times> DirectAccept" where
  "PreparedDirectAccept_into_pending p ring i =
    (let sqe = Sqe_accept_multishot_direct (pda_fd p) (pda_flags p);
         pending = \<lparr>da_ring = ring, da_id = i, da_fd = pda_fd p\<rparr>
     in (Sqe_user_data (id_raw i) sqe, pending))"

definition PreparedDirectAccept_on :: "RawFd \<Rightarrow> u32 \<Rightarrow> PreparedDirectAccept" where
  "PreparedDirectAccept_on fd flags = \<lparr>pda_fd = fd, pda_flags = flags\<rparr>"

record DirectAcceptFinished =
  df_receipt :: Receipt
  df_last :: "DirectSlot option"

datatype DirectIncoming = Installed DirectSlot | DirectIncoming_Empty i32 | DirectIncoming_Done DirectAcceptFinished

definition DirectAccept_claim :: "DirectAccept \<Rightarrow> i32 \<Rightarrow> DirectSlot option" where
  "DirectAccept_claim t r =
     map_option (\<lambda>index. DirectSlot_new index (da_ring t)) (SlotTarget_resolve Auto r)"

definition DirectAccept_matches :: "DirectAccept \<Rightarrow> Event \<Rightarrow> bool" where
  "DirectAccept_matches t e = Event_belongs_to e (da_ring t) (da_id t)"

definition DirectAccept_record :: "DirectAccept \<Rightarrow> Event \<Rightarrow> (DirectIncoming, Event) result" where
  "DirectAccept_record t e =
    (if \<not> DirectAccept_matches t e then Err e
     else case e of
       Partial p \<Rightarrow> Ok (case DirectAccept_claim t (pr_result p) of
                           None \<Rightarrow> DirectIncoming_Empty (pr_result p)
                         | Some s \<Rightarrow> Installed s)
     | Complete r \<Rightarrow> Ok (DirectIncoming_Done \<lparr>df_receipt = r, df_last = DirectAccept_claim t (rc_result r)\<rparr>))"

fun DirectIncoming_armed :: "DirectIncoming \<Rightarrow> Armed" where
  "DirectIncoming_armed (Installed _) = Yes"
| "DirectIncoming_armed (DirectIncoming_Empty _) = Yes"
| "DirectIncoming_armed (DirectIncoming_Done _) = Armed_Finished"

definition DirectAcceptFinished_result :: "DirectAcceptFinished \<Rightarrow> (u32, Error) result" where
  "DirectAcceptFinished_result f = cqe_u32_result (rc_result (df_receipt f))"

definition DirectAcceptFinished_into_parts :: "DirectAcceptFinished \<Rightarrow> Receipt \<times> DirectSlot option" where
  "DirectAcceptFinished_into_parts f = (df_receipt f, df_last f)"

fun DirectIncoming_into_slot :: "DirectIncoming \<Rightarrow> DirectSlot option" where
  "DirectIncoming_into_slot (Installed s) = Some s"
| "DirectIncoming_into_slot (DirectIncoming_Done f) = snd (DirectAcceptFinished_into_parts f)"
| "DirectIncoming_into_slot (DirectIncoming_Empty _) = None"

definition OwnedSubmitter_push_direct_accept where
  "OwnedSubmitter_push_direct_accept p = owned_push PreparedDirectAccept_into_pending (\<lambda>p _. p) p"

interpretation direct_accept_stream: armed_request PreparedDirectAccept_into_pending "\<lambda>p _. p" da_ring da_id
  "\<lambda>_. ()" "\<lambda>_. ()" DirectAccept_record "is_armed \<circ> DirectIncoming_armed"
  by unfold_locales
    (auto simp: PreparedDirectAccept_into_pending_def DirectAccept_record_def DirectAccept_matches_def
      Sqe_user_data_def Let_def split: Event.splits option.splits)

section \<open>Sockets created in the file table (\<open>direct_socket.rs\<close>)\<close>

definition SOCK_CLOEXEC :: u32 where "SOCK_CLOEXEC = 0x80000"

datatype DirectSocketError = CloseOnExec

record PreparedDirectSocket =
  pso_domain :: AddressFamily
  pso_sock_type :: SocketType
  pso_protocol :: i32
  pso_flags :: u32
  pso_target :: SlotTarget

record PendingDirectSocket =
  so_ring :: RingId
  so_id :: RequestId
  so_target :: SlotTarget

record DirectSocketCreated =
  dso_slot :: "DirectSlot option"
  dso_id :: RequestId
  dso_result :: i32

definition PreparedDirectSocket_into_pending ::
  "PreparedDirectSocket \<Rightarrow> RingId \<Rightarrow> RequestId \<Rightarrow> IoUringSqe \<times> PendingDirectSocket" where
  "PreparedDirectSocket_into_pending p ring i =
    (let sqe = Sqe_socket_direct_at (pso_domain p) (pso_sock_type p) (pso_protocol p) (pso_flags p)
                 (SlotTarget_raw (pso_target p));
         pending = \<lparr>so_ring = ring, so_id = i, so_target = pso_target p\<rparr>
     in (Sqe_user_data (id_raw i) sqe, pending))"

definition PendingDirectSocket_matches :: "PendingDirectSocket \<Rightarrow> Receipt \<Rightarrow> bool" where
  "PendingDirectSocket_matches t r = Receipt_belongs_to r (so_ring t) (so_id t)"

definition PendingDirectSocket_redeem :: "PendingDirectSocket \<Rightarrow> Receipt \<Rightarrow> (DirectSocketCreated, PendingDirectSocket \<times> Receipt) result" where
  "PendingDirectSocket_redeem t r =
    (if \<not> PendingDirectSocket_matches t r then Err (t, r)
     else let slot = (if sint (rc_result r) < 0 then None
                       else map_option (\<lambda>index. DirectSlot_new index (so_ring t))
                              (SlotTarget_resolve (so_target t) (rc_result r)))
          in Ok \<lparr>dso_slot = slot, dso_id = so_id t, dso_result = rc_result r\<rparr>)"

definition OwnedSubmitter_push_direct_socket where
  "OwnedSubmitter_push_direct_socket p = owned_push PreparedDirectSocket_into_pending (\<lambda>p _. p) p"

interpretation direct_socket: ticket PreparedDirectSocket_into_pending "\<lambda>p _. p"
  so_ring so_id "\<lambda>_. ()" "\<lambda>_. ()" PendingDirectSocket_redeem "\<lambda>_. ()"
  by unfold_locales
    (auto simp: PreparedDirectSocket_into_pending_def PendingDirectSocket_redeem_def
      PendingDirectSocket_matches_def Sqe_user_data_def Let_def)

definition PreparedDirectSocket_new ::
  "AddressFamily \<Rightarrow> SocketType \<Rightarrow> i32 \<Rightarrow> u32 \<Rightarrow> SlotTarget \<Rightarrow>
   (PreparedDirectSocket, DirectSocketError) result" where
  "PreparedDirectSocket_new domain sock_type protocol flags target =
    (if contains flags SOCK_CLOEXEC then Err CloseOnExec
     else Ok \<lparr>pso_domain = domain, pso_sock_type = sock_type, pso_protocol = protocol,
              pso_flags = flags, pso_target = target\<rparr>)"

definition PreparedDirectSocket_auto ::
  "AddressFamily \<Rightarrow> SocketType \<Rightarrow> i32 \<Rightarrow> u32 \<Rightarrow> (PreparedDirectSocket, DirectSocketError) result" where
  "PreparedDirectSocket_auto domain sock_type protocol flags =
     PreparedDirectSocket_new domain sock_type protocol flags Auto"

definition DirectSocketCreated_is_ok :: "DirectSocketCreated \<Rightarrow> bool" where
  "DirectSocketCreated_is_ok d = cqe_is_ok (dso_result d)"

definition DirectSocketCreated_result :: "DirectSocketCreated \<Rightarrow> (unit, Error) result" where
  "DirectSocketCreated_result d = cqe_unit_result (dso_result d)"

definition DirectSocketCreated_index :: "DirectSocketCreated \<Rightarrow> SlotIndex option" where
  "DirectSocketCreated_index d = map_option ds_index (dso_slot d)"

section \<open>Slots given a descriptor (\<open>fixedfdinstall.rs\<close>)\<close>

record PreparedFixedFdInstall =
  pfi_slot :: RawFd
  pfi_flags :: u32

record PendingFixedFdInstall =
  fi_ring :: RingId
  fi_id :: RequestId
  fi_slot :: RawFd

record FixedFdInstalled =
  dfi_slot :: RawFd
  dfi_file :: "File option"
  dfi_id :: RequestId
  dfi_result :: i32

definition PreparedFixedFdInstall_into_pending ::
  "PreparedFixedFdInstall \<Rightarrow> RingId \<Rightarrow> RequestId \<Rightarrow> IoUringSqe \<times> PendingFixedFdInstall" where
  "PreparedFixedFdInstall_into_pending p ring i =
    (let sqe = Sqe_fixed_fd_install (pfi_slot p) (pfi_flags p);
         pending = \<lparr>fi_ring = ring, fi_id = i, fi_slot = pfi_slot p\<rparr>
     in (Sqe_user_data (id_raw i) sqe, pending))"

definition PendingFixedFdInstall_claim :: "i32 \<Rightarrow> File option" where
  "PendingFixedFdInstall_claim r = map_option (\<lambda>fd. File_from_fd (RawFd (ucast fd))) (u32_try_from r)"

definition PendingFixedFdInstall_matches :: "PendingFixedFdInstall \<Rightarrow> Receipt \<Rightarrow> bool" where
  "PendingFixedFdInstall_matches t r = Receipt_belongs_to r (fi_ring t) (fi_id t)"

definition PendingFixedFdInstall_redeem :: "PendingFixedFdInstall \<Rightarrow> Receipt \<Rightarrow> (FixedFdInstalled, PendingFixedFdInstall \<times> Receipt) result" where
  "PendingFixedFdInstall_redeem t r =
    (if \<not> PendingFixedFdInstall_matches t r then Err (t, r)
     else Ok \<lparr>dfi_slot = fi_slot t, dfi_file = PendingFixedFdInstall_claim (rc_result r),
               dfi_id = fi_id t, dfi_result = rc_result r\<rparr>)"

definition OwnedSubmitter_push_fixed_fd_install where
  "OwnedSubmitter_push_fixed_fd_install p = owned_push PreparedFixedFdInstall_into_pending (\<lambda>p _. p) p"

interpretation fixed_fd_install: ticket PreparedFixedFdInstall_into_pending "\<lambda>p _. p"
  fi_ring fi_id "\<lambda>_. ()" "\<lambda>_. ()" PendingFixedFdInstall_redeem "\<lambda>_. ()"
  by unfold_locales
    (auto simp: PreparedFixedFdInstall_into_pending_def PendingFixedFdInstall_redeem_def
      PendingFixedFdInstall_matches_def Sqe_user_data_def Let_def)

definition PreparedFixedFdInstall_new :: "RawFd \<Rightarrow> u32 \<Rightarrow> PreparedFixedFdInstall" where
  "PreparedFixedFdInstall_new slot flags = \<lparr>pfi_slot = slot, pfi_flags = flags\<rparr>"

definition PreparedFixedFdInstall_of :: "DirectSlot \<Rightarrow> u32 \<Rightarrow> PreparedFixedFdInstall" where
  "PreparedFixedFdInstall_of d flags =
     PreparedFixedFdInstall_new (RawFd (ucast (slot_get (ds_index d)))) flags"

definition FixedFdInstalled_is_ok :: "FixedFdInstalled \<Rightarrow> bool" where
  "FixedFdInstalled_is_ok d = cqe_is_ok (dfi_result d)"

definition FixedFdInstalled_result :: "FixedFdInstalled \<Rightarrow> (unit, Error) result" where
  "FixedFdInstalled_result d = cqe_unit_result (dfi_result d)"

section \<open>Lemmas\<close>

lemma sint_nonneg_u32:
  fixes r :: i32
  assumes "\<not> sint r < 0"
  shows "uint r = sint r" "r \<le> SLOT_MAX"
proof -
  have "sint r < 2 ^ 31" using sint_less [of r] by simp
  moreover have "uint r = sint r mod 2 ^ 32" by (simp add: uint_sint take_bit_eq_mod)
  ultimately show u: "uint r = sint r" using assms by simp
  have "uint (SLOT_MAX :: u32) = 2 ^ 32 - 3" by (simp add: SLOT_MAX_def)
  then show "r \<le> SLOT_MAX" using u \<open>sint r < 2 ^ 31\<close> by (simp add: word_le_def)
qed

lemma SlotIndex_new_Some: "SlotIndex_new n = Some s \<longleftrightarrow> n \<le> SLOT_MAX \<and> s = SlotIndex n"
  by (auto simp: SlotIndex_new_def)

lemma SlotIndex_new_None: "SlotIndex_new n = None \<longleftrightarrow> n = - 1 \<or> n = - 2"
proof -
  have "n > SLOT_MAX \<longleftrightarrow> uint n > 2 ^ 32 - 3" by (simp add: word_less_def SLOT_MAX_def)
  moreover have "uint n < 2 ^ 32" using uint_lt2p [of n] by simp
  moreover have mx: "(- 1 :: u32) = 0xFFFFFFFF" "(- 2 :: u32) = 0xFFFFFFFE" by code_simp+
  moreover have "uint n = 2 ^ 32 - 1 \<longleftrightarrow> n = - 1" "uint n = 2 ^ 32 - 2 \<longleftrightarrow> n = - 2"
    unfolding mx by (simp_all add: word_uint_eq_iff)
  ultimately show ?thesis by (auto simp: SlotIndex_new_def)
qed

lemma slot_encoding:
  assumes "n \<le> SLOT_MAX"
  shows "n + 1 \<noteq> 0" "n + 1 \<noteq> FILE_INDEX_ALLOC" "unat (n + 1) = Suc (unat n)"
proof -
  have "n \<noteq> - 1" "n \<noteq> - 2" using assms leD [OF assms] SlotIndex_new_None [of n] by (auto simp: SlotIndex_new_def)
  then show "n + 1 \<noteq> 0" "n + 1 \<noteq> FILE_INDEX_ALLOC"
    by (auto simp: FILE_INDEX_ALLOC_def add_eq_0_iff2 eq_diff_eq [symmetric])
  then show "unat (n + 1) = Suc (unat n)" using unatSuc [of n] by (simp add: add.commute)
qed

lemma as_i32_small: "as_i32 (RawFd (ucast (x :: u32))) = x"
  by (simp add: as_i32_def bit_eq_iff bit_ucast_iff)

lemma resolve_Auto: "SlotTarget_resolve Auto r = (if sint r < 0 then None else Some (SlotIndex r))"
  using sint_nonneg_u32(2) [of r] by (auto simp: SlotIndex_new_def dest: leD)

text \<open>Dropping a delivery is recycling the buffer its completion named.\<close>

lemma delivery_arrival_event:
  "delivery_arrival (Delivery_from_event e) =
     Arrival_claim (CqeFlags_buffer_id (Event_flags e)) (Event_raw_result e)"
  by (cases e) (simp_all add: PartialReceipt_buffer_id_def split: option.split)

lemma Delivery_bytes_arrival:
  "Delivery_bytes pool d = map_option (Arrival_bytes pool) (delivery_arrival d)"
  by (cases d) simp_all

lemma Delivery_drop_event:
  "Delivery_drop (Delivery_from_event e) (BufferConsumer p, bufs) =
    (case CqeFlags_buffer_id (Event_flags e) of
       Some i \<Rightarrow> if sint (Event_raw_result e) < 0 then Some (BufferConsumer p, bufs)
                 else map_option (map_prod BufferConsumer id) (recycle_and_commit i (p, bufs))
     | None \<Rightarrow> Some (BufferConsumer p, bufs))"
  by (simp add: Delivery_drop_def delivery_arrival_event Arrival_claim_def u32_try_from_def Arrival_drop_def
      Consumer_recycle_and_commit_def on_inner_def split: option.split)

section \<open>Properties\<close>


text \<open>C27. An arrival is recycled exactly once. Whichever completion of a multishot receive or
  read carries a buffer that the kernel picked, also its last one, the delivery lends the
  received bytes of that buffer; when it is dropped the buffer is back in the queue, behind
  what was there, published to the kernel, and no longer handed out. A completion without
  a buffer, or with an error, changes nothing of the pool. The request is reported as
  finished exactly on its terminal completion.\<close>

theorem arrivals_recycled_once:
  assumes "pool_inv p bufs h out" "\<And>i. CqeFlags_buffer_id (Event_flags e) = Some i \<Longrightarrow> i \<in> set out"
    and "Event_ring e = ms_ring t" "Event_id e = ms_id t"
  shows "\<exists>d p' bufs'. MultishotRecv_record t e = Ok d \<and>
     MultishotRead_record \<lparr>mo_ring = ms_ring t, mo_id = ms_id t, mo_bgid = bgid, mo_fd = fd\<rparr> e = Ok d \<and>
     (is_armed (Delivery_armed d) \<longleftrightarrow> \<not> Event_is_terminal e) \<and>
     Delivery_drop d (BufferConsumer p, bufs) = Some (BufferConsumer p', bufs') \<and>
     (case CqeFlags_buffer_id (Event_flags e) of
        Some i \<Rightarrow>
          if sint (Event_raw_result e) < 0 then Delivery_bytes (BufferConsumer p) d = None \<and> p' = p \<and> bufs' = bufs
          else (Event_raw_result e \<le> pb_buf_size p \<longrightarrow> Delivery_bytes (BufferConsumer p) d =
                  Some \<lparr>sl_ptr = pb_bufs_addr p + ucast i * ucast (pb_buf_size p),
                        sl_len = ucast (Event_raw_result e)\<rparr>) \<and>
               pool_inv p' bufs' h (remove1 i out) \<and>
               pool_avail p' bufs' h = pool_avail p bufs h @ [buf_desc p i] \<and>
               b_resv (bufs' ! 0) = ucast (pb_tail_local p')
      | None \<Rightarrow> Delivery_bytes (BufferConsumer p) d = None \<and> p' = p \<and> bufs' = bufs)"
proof -
  let ?d = "Delivery_from_event e"
  have rec: "MultishotRecv_record t e = Ok ?d"
    "MultishotRead_record \<lparr>mo_ring = ms_ring t, mo_id = ms_id t, mo_bgid = bgid, mo_fd = fd\<rparr> e = Ok ?d"
    using assms(3,4)
    by (simp_all add: MultishotRecv_record_def MultishotRecv_matches_def MultishotRead_record_def MultishotRead_matches_def)
  show ?thesis
  proof (cases "CqeFlags_buffer_id (Event_flags e)")
    case None
    then show ?thesis using rec
      by (simp add: Delivery_drop_event Delivery_bytes_arrival delivery_arrival_event Arrival_claim_def)
  next
    case (Some i)
    show ?thesis
    proof (cases "sint (Event_raw_result e) < 0")
      case True
      then show ?thesis using rec Some
        by (simp add: Delivery_drop_event Delivery_bytes_arrival delivery_arrival_event Arrival_claim_def u32_try_from_def)
    next
      case False
      have i: "i \<in> set out" using assms(2) Some .
      then have range: "\<not> pb_entries p \<le> ucast i" using assms(1) by (auto simp: pool_inv_def not_le)
      obtain p' bufs' where r: "recycle i (p, bufs) = Some (p', bufs')" "pool_inv p' bufs' h (remove1 i out)"
        "pool_avail p' bufs' h = pool_avail p bufs h @ [buf_desc p i]"
        by (rule pool_inv_recycle [OF assms(1) i])
      note c = pool_inv_commit [OF r(2)]
      have fst: "fst (pbuf_commit (p', bufs')) = p'" by (simp add: pbuf_commit_def)
      have "Delivery_drop ?d (BufferConsumer p, bufs) = Some (BufferConsumer p', snd (pbuf_commit (p', bufs')))"
        using Some False r(1) fst
        by (simp add: Delivery_drop_event recycle_and_commit_def prod_eq_iff)
      moreover have "Event_raw_result e \<le> pb_buf_size p \<longrightarrow> Delivery_bytes (BufferConsumer p) ?d =
          Some \<lparr>sl_ptr = pb_bufs_addr p + ucast i * ucast (pb_buf_size p), sl_len = ucast (Event_raw_result e)\<rparr>"
        using Some False range
        by (auto simp: Delivery_bytes_arrival delivery_arrival_event Arrival_claim_def u32_try_from_def
            Arrival_bytes_def Consumer_buffer_def pbuf_buffer_def buffer_slice_def Let_def)
      ultimately show ?thesis using rec Some False c r(3) by auto
    qed
  qed
qed

text \<open>C29. Incremental pools are not accounted for. When a completion says that the kernel goes
  on filling its buffer, that buffer is still queued in the kernel; the arrival is recycled
  on its drop all the same, so the id is in the queue twice and the kernel may hand out the
  same bytes to two completions.\<close>

theorem incremental_arrival_queued_twice:
  assumes "pool_inv p bufs h out" "out \<noteq> []" "i \<in> fst ` set (pool_avail p bufs h)"
    and "CqeFlags_buffer_id (Event_flags e) = Some i" "contains (Event_flags e) CQE_BUF_MORE"
    and "\<not> sint (Event_raw_result e) < 0"
    and "MultishotRecv_record t e = Ok d"
  shows "\<exists>p' bufs'. Delivery_drop d (BufferConsumer p, bufs) = Some (BufferConsumer p', bufs') \<and>
     \<not> distinct (map fst (pool_avail p' bufs' h))"
proof -
  obtain k where wf: "pool_wf k p bufs" using assms(1) by (auto simp: pool_inv_def)
  have range: "ucast i < pb_entries p" using assms(1,3) by (auto simp: pool_inv_def)
  have room: "unat (ucast (pb_tail_local p) - h) < 2 ^ k"
    using pool_inv_count [OF assms(1) wf] assms(2) by (cases out) auto
  obtain p' bufs' where r: "recycle i (p, bufs) = Some (p', bufs')"
    "pool_avail p' bufs' h = pool_avail p bufs h @ [buf_desc p i]"
    by (rule recycle_appends [OF wf room range])
  have d: "d = Delivery_from_event e"
    using assms(7) by (auto simp: MultishotRecv_record_def split: if_splits)
  have "Delivery_drop d (BufferConsumer p, bufs) = Some (BufferConsumer p', snd (pbuf_commit (p', bufs')))"
    using assms(4,6) r(1) by (simp add: d Delivery_drop_event recycle_and_commit_def pbuf_commit_def)
  moreover have "pool_avail p' (snd (pbuf_commit (p', bufs'))) h = pool_avail p' bufs' h"
    by (simp add: pool_avail_def pbuf_commit_def)
  moreover have "\<not> distinct (map fst (pool_avail p' bufs' h))"
    using assms(3) by (simp add: r(2) buf_desc_def)
  ultimately show ?thesis by auto
qed

section \<open>Examples\<close>

text \<open>The kernel has picked the first buffer of a registered pool of four and left three bytes
  in it; or it is still filling the second.\<close>

definition ex_stream :: MultishotRecv where
  "ex_stream = snd (PreparedMultishot_into_pending (PreparedMultishot_recv (RawFd 5) 1 0) (RingId 1) (RequestId 4))"

definition ex_arrival :: Event where
  "ex_arrival = Complete \<lparr>rc_ring = RingId 1, rc_id = RequestId 4, rc_result = 3, rc_flags = 1\<rparr>"

definition ex_filling :: Event where
  "ex_filling = Partial \<lparr>pr_ring = RingId 1, pr_id = RequestId 4, pr_result = 3, pr_flags = 0x10013\<rparr>"

lemma ex_stream_facts: "ms_ring ex_stream = RingId 1" "ms_id ex_stream = RequestId 4"
  by (simp_all add: ex_stream_def PreparedMultishot_into_pending_def Let_def)

lemma ex_event_flags:
  "CqeFlags_buffer_id (Event_flags ex_arrival) = Some 0" "CqeFlags_buffer_id (Event_flags ex_filling) = Some 1"
  "contains (Event_flags ex_filling) CQE_BUF_MORE"
  by code_simp+

lemma ex_picked:
  "\<exists>p bufs. pool_inv p bufs 1 [0] \<and> pb_entries p = 4 \<and> pb_buf_size p = 64 \<and> pb_bufs_addr p = 0x20000"
proof -
  obtain p bufs w' where p: "register_provided_buffers_on (ex_os 9) ex_reg 0x3000 1 4 64 0 ex_owned = (Ok (p, bufs), w')"
    and f: "pb_mask p = 3" "b_resv (bufs ! 0) = 4" "b_bid (bufs ! 0) = 0" "pb_entries p = 4" "pb_buf_size p = 64"
      "pb_bufs_addr p = 0x20000" using ex_pool_ok by blast
  let ?s = "\<lparr>ps_pool = p, ps_bufs = bufs, ps_head = 0, ps_out = []\<rparr>"
  have "pool_step ?s (?s\<lparr>ps_head := 1, ps_out := [0]\<rparr>)" using pool_step.ps_take [of ?s] f by simp
  then have "pool_inv p bufs 1 [0]" using pool_step_inv registered_pool_inv [OF p] by fastforce
  then show ?thesis using f by blast
qed

theorem arrivals_recycled_once_witness:
  "\<exists>p bufs p' bufs' d. pool_inv p bufs 1 [0] \<and> MultishotRecv_record ex_stream ex_arrival = Ok d \<and>
     Delivery_bytes (BufferConsumer p) d = Some \<lparr>sl_ptr = 0x20000, sl_len = 3\<rparr> \<and>
     Delivery_drop d (BufferConsumer p, bufs) = Some (BufferConsumer p', bufs') \<and> pool_inv p' bufs' 1 []"
proof -
  obtain p bufs where p: "pool_inv p bufs 1 [0]" "pb_buf_size p = 64" "pb_bufs_addr p = 0x20000"
    using ex_picked by blast
  have e: "Event_ring ex_arrival = ms_ring ex_stream" "Event_id ex_arrival = ms_id ex_stream"
    "Event_raw_result ex_arrival = 3" by (simp_all add: ex_arrival_def ex_stream_facts)
  have "i \<in> set [0]" if "CqeFlags_buffer_id (Event_flags ex_arrival) = Some i" for i
    using that by (simp add: ex_event_flags)
  from arrivals_recycled_once [OF p(1) this e(1,2), of 0 "RawFd 0"] show ?thesis
    using p by (simp add: ex_event_flags e(3)) blast
qed

theorem incremental_arrival_queued_twice_witness:
  "\<exists>p bufs p' bufs' d. pool_inv p bufs 1 [0] \<and> MultishotRecv_record ex_stream ex_filling = Ok d \<and>
     Delivery_drop d (BufferConsumer p, bufs) = Some (BufferConsumer p', bufs') \<and>
     \<not> distinct (map fst (pool_avail p' bufs' 1))"
proof -
  obtain p bufs where p: "pool_inv p bufs 1 [0]" "pb_entries p = 4" using ex_picked by blast
  have "(1 :: u16) \<in> {i. ucast i < pb_entries p}" by (simp add: p(2))
  then have q: "1 \<in> fst ` set (pool_avail p bufs 1)" using p(1) unfolding pool_inv_def by (metis (no_types, lifting) Un_iff empty_iff insert_iff list.set(1,2) set_append set_map zero_neq_one)
  have r: "\<not> sint (Event_raw_result ex_filling) < 0" by (simp add: ex_filling_def)
  have d: "MultishotRecv_record ex_stream ex_filling = Ok (Delivery_from_event ex_filling)"
    by (simp add: MultishotRecv_record_def MultishotRecv_matches_def ex_stream_facts ex_filling_def)
  from incremental_arrival_queued_twice [OF p(1) _ q ex_event_flags(2,3) r d] show ?thesis using p(1) d by auto
qed

end
