(* ===== verification/Owned_Paths.thy ===== *)
theory Owned_Paths
  imports Owned_Streams Sqe_Ops Ram
begin

text \<open>
  Requests that own paths (\<open>src/owned/path.rs\<close>, \<open>open.rs\<close>, \<open>direct.rs\<close>, \<open>pathop.rs\<close>,
  \<open>rename.rs\<close>, \<open>link.rs\<close>, \<open>openat2.rs\<close>, \<open>statx.rs\<close>): a path is NUL-terminated inside storage
  the request owns; some requests own a second storage that the kernel reads or fills.
  Each kind satisfies the ticket contract.
\<close>

section \<open>Paths (\<open>path.rs\<close>)\<close>

datatype PathError = NotTerminated | PathError_Empty | TooLong (needed: usize) (got: usize)

record 's OwnedPath =
  op_storage :: 's
  op_len :: usize

definition OwnedPath_copy_into ::
  "'s stable \<Rightarrow> 's \<Rightarrow> u8 list \<Rightarrow> ram \<Rightarrow> ('s OwnedPath, 's \<times> PathError) result \<times> ram" where
  "OwnedPath_copy_into sb storage path m =
    (if path = [] then (Err (storage, PathError_Empty), m)
     else if 0 \<in> set path then (Err (storage, NotTerminated), m)
     else let needed = of_nat (length path) + 1; got = stable_len sb storage
          in if got < needed then (Err (storage, TooLong needed got), m)
             else let base = stable_mut_ptr sb storage;
                      m = ram_write base path m;
                      m = ram_write (base + of_nat (length path)) [0] m
                  in (Ok \<lparr>op_storage = storage, op_len = of_nat (length path)\<rparr>, m))"

fun position0 :: "u8 list \<Rightarrow> nat option" where
  "position0 [] = None"
| "position0 (b # bs) = (if b = 0 then Some 0 else map_option Suc (position0 bs))"

definition OwnedPath_adopt :: "'s stable \<Rightarrow> 's \<Rightarrow> ram \<Rightarrow> ('s OwnedPath, 's \<times> PathError) result" where
  "OwnedPath_adopt sb storage m =
    (let bytes = ram_read m (stable_ptr sb storage) (unat (stable_len sb storage))
     in case position0 bytes of
          None \<Rightarrow> Err (storage, NotTerminated)
        | Some n \<Rightarrow> if n = 0 then Err (storage, PathError_Empty)
                    else Ok \<lparr>op_storage = storage, op_len = of_nat n\<rparr>)"

definition OwnedPath_as_bytes :: "'s stable \<Rightarrow> 's OwnedPath \<Rightarrow> ram \<Rightarrow> u8 list" where
  "OwnedPath_as_bytes sb p m = ram_read m (stable_ptr sb (op_storage p)) (unat (op_len p))"

definition OwnedPath_stable_ptr :: "'s stable \<Rightarrow> 's OwnedPath \<Rightarrow> u64" where
  "OwnedPath_stable_ptr sb p = stable_ptr sb (op_storage p)"

section \<open>Opens (\<open>open.rs\<close>)\<close>

record 's PreparedOpen =
  pop_path :: "'s OwnedPath"
  pop_dir :: DirFd
  pop_flags :: u32
  pop_mode :: u32
  pop_addr :: u64

record 's PendingOpen =
  top_ring :: RingId
  top_id :: RequestId
  top_path :: "'s OwnedPath"
  top_dir :: DirFd
  top_flags :: u32
  top_mode :: u32
  top_addr :: u64

record 's Opened =
  dop_path :: "'s OwnedPath"
  dop_file :: "File option"
  dop_id :: RequestId
  dop_result :: i32

definition PreparedOpen_into_pending ::
  "'s PreparedOpen \<Rightarrow> RingId \<Rightarrow> RequestId \<Rightarrow> IoUringSqe \<times> 's PendingOpen" where
  "PreparedOpen_into_pending p ring i =
    (let sqe = Sqe_openat_ptr (DirFd_as_raw (pop_dir p)) (pop_addr p) (pop_flags p) (pop_mode p);
         pending = \<lparr>top_ring = ring, top_id = i, top_path = pop_path p, top_dir = pop_dir p,
                    top_flags = pop_flags p, top_mode = pop_mode p, top_addr = pop_addr p\<rparr>
     in (Sqe_user_data (id_raw i) sqe, pending))"

definition PendingOpen_claim :: "i32 \<Rightarrow> File option" where
  "PendingOpen_claim r = map_option (\<lambda>fd. File_from_fd (RawFd (ucast fd))) (u32_try_from r)"

definition PendingOpen_matches :: "'s PendingOpen \<Rightarrow> Receipt \<Rightarrow> bool" where
  "PendingOpen_matches t r = Receipt_belongs_to r (top_ring t) (top_id t)"

definition PendingOpen_reclaim_unsubmitted :: "'s PendingOpen \<Rightarrow> 's PreparedOpen" where
  "PendingOpen_reclaim_unsubmitted t =
     \<lparr>pop_path = top_path t, pop_dir = top_dir t, pop_flags = top_flags t,
      pop_mode = top_mode t, pop_addr = top_addr t\<rparr>"

definition PendingOpen_redeem :: "'s PendingOpen \<Rightarrow> Receipt \<Rightarrow> ('s Opened, 's PendingOpen \<times> Receipt) result" where
  "PendingOpen_redeem t r =
    (if \<not> PendingOpen_matches t r then Err (t, r)
     else Ok \<lparr>dop_path = top_path t, dop_file = PendingOpen_claim (rc_result r),
               dop_id = top_id t, dop_result = rc_result r\<rparr>)"

definition OwnedSubmitter_push_open where
  "OwnedSubmitter_push_open p = owned_push PreparedOpen_into_pending (\<lambda>_ t. PendingOpen_reclaim_unsubmitted t) p"

interpretation open_req: ticket PreparedOpen_into_pending "\<lambda>_ t. PendingOpen_reclaim_unsubmitted t"
  top_ring top_id pop_path top_path PendingOpen_redeem dop_path
  by unfold_locales
    (auto simp: PreparedOpen_into_pending_def PendingOpen_reclaim_unsubmitted_def PendingOpen_redeem_def
      PendingOpen_matches_def Sqe_user_data_def Let_def)

definition PreparedOpen_at :: "'s stable \<Rightarrow> DirFd \<Rightarrow> 's OwnedPath \<Rightarrow> u32 \<Rightarrow> u32 \<Rightarrow> 's PreparedOpen" where
  "PreparedOpen_at sb dir path flags mode =
     \<lparr>pop_path = path, pop_dir = dir, pop_flags = flags, pop_mode = mode,
      pop_addr = OwnedPath_stable_ptr sb path\<rparr>"

definition PreparedOpen_cwd :: "'s stable \<Rightarrow> 's OwnedPath \<Rightarrow> u32 \<Rightarrow> u32 \<Rightarrow> 's PreparedOpen" where
  "PreparedOpen_cwd sb path flags mode = PreparedOpen_at sb Cwd path flags mode"

definition Opened_is_ok :: "'s Opened \<Rightarrow> bool" where
  "Opened_is_ok d = cqe_is_ok (dop_result d)"

definition Opened_result :: "'s Opened \<Rightarrow> (unit, Error) result" where
  "Opened_result d = cqe_unit_result (dop_result d)"

definition Opened_into_parts :: "'s Opened \<Rightarrow> File option \<times> 's OwnedPath" where
  "Opened_into_parts d = (dop_file d, dop_path d)"

section \<open>Opens into the file table (\<open>direct.rs\<close>)\<close>

definition OPEN_CLOEXEC :: u32 where "OPEN_CLOEXEC = 0x80000"

datatype DirectOpenError = DirectOpen_CloseOnExec

record 's PreparedDirectOpen =
  pdo_path :: "'s OwnedPath"
  pdo_dir :: DirFd
  pdo_flags :: u32
  pdo_mode :: u32
  pdo_target :: SlotTarget
  pdo_addr :: u64

record 's PendingDirectOpen =
  tdo_ring :: RingId
  tdo_id :: RequestId
  tdo_path :: "'s OwnedPath"
  tdo_dir :: DirFd
  tdo_flags :: u32
  tdo_mode :: u32
  tdo_target :: SlotTarget
  tdo_addr :: u64

record 's DirectOpened =
  ddo_path :: "'s OwnedPath"
  ddo_slot :: "DirectSlot option"
  ddo_id :: RequestId
  ddo_result :: i32

definition PreparedDirectOpen_into_pending ::
  "'s PreparedDirectOpen \<Rightarrow> RingId \<Rightarrow> RequestId \<Rightarrow> IoUringSqe \<times> 's PendingDirectOpen" where
  "PreparedDirectOpen_into_pending p ring i =
    (let sqe = Sqe_openat_direct (DirFd_as_raw (pdo_dir p)) (pdo_addr p) (pdo_flags p) (pdo_mode p)
                 (SlotTarget_raw (pdo_target p));
         pending = \<lparr>tdo_ring = ring, tdo_id = i, tdo_path = pdo_path p, tdo_dir = pdo_dir p,
                    tdo_flags = pdo_flags p, tdo_mode = pdo_mode p,
                    tdo_target = pdo_target p, tdo_addr = pdo_addr p\<rparr>
     in (Sqe_user_data (id_raw i) sqe, pending))"

definition PendingDirectOpen_matches :: "'s PendingDirectOpen \<Rightarrow> Receipt \<Rightarrow> bool" where
  "PendingDirectOpen_matches t r = Receipt_belongs_to r (tdo_ring t) (tdo_id t)"

definition PendingDirectOpen_reclaim_unsubmitted :: "'s PendingDirectOpen \<Rightarrow> 's PreparedDirectOpen" where
  "PendingDirectOpen_reclaim_unsubmitted t =
     \<lparr>pdo_path = tdo_path t, pdo_dir = tdo_dir t, pdo_flags = tdo_flags t,
      pdo_mode = tdo_mode t, pdo_target = tdo_target t, pdo_addr = tdo_addr t\<rparr>"

definition PendingDirectOpen_redeem :: "'s PendingDirectOpen \<Rightarrow> Receipt \<Rightarrow> ('s DirectOpened, 's PendingDirectOpen \<times> Receipt) result" where
  "PendingDirectOpen_redeem t r =
    (if \<not> PendingDirectOpen_matches t r then Err (t, r)
     else let slot = (if sint (rc_result r) < 0 then None
                       else map_option (\<lambda>index. DirectSlot_new index (tdo_ring t))
                              (SlotTarget_resolve (tdo_target t) (rc_result r)))
          in Ok \<lparr>ddo_path = tdo_path t, ddo_slot = slot, ddo_id = tdo_id t,
                 ddo_result = rc_result r\<rparr>)"

definition OwnedSubmitter_push_direct_open where
  "OwnedSubmitter_push_direct_open p = owned_push PreparedDirectOpen_into_pending (\<lambda>_ t. PendingDirectOpen_reclaim_unsubmitted t) p"

interpretation direct_open: ticket PreparedDirectOpen_into_pending "\<lambda>_ t. PendingDirectOpen_reclaim_unsubmitted t"
  tdo_ring tdo_id pdo_path tdo_path PendingDirectOpen_redeem ddo_path
  by unfold_locales
    (auto simp: PreparedDirectOpen_into_pending_def PendingDirectOpen_reclaim_unsubmitted_def PendingDirectOpen_redeem_def
      PendingDirectOpen_matches_def Sqe_user_data_def Let_def)

definition PreparedDirectOpen_at ::
  "'s stable \<Rightarrow> DirFd \<Rightarrow> 's OwnedPath \<Rightarrow> u32 \<Rightarrow> u32 \<Rightarrow> SlotTarget \<Rightarrow>
   ('s PreparedDirectOpen, 's OwnedPath \<times> DirectOpenError) result" where
  "PreparedDirectOpen_at sb dir path flags mode target =
    (if contains flags OPEN_CLOEXEC then Err (path, DirectOpen_CloseOnExec)
     else Ok \<lparr>pdo_path = path, pdo_dir = dir, pdo_flags = flags, pdo_mode = mode, pdo_target = target,
              pdo_addr = OwnedPath_stable_ptr sb path\<rparr>)"

definition PreparedDirectOpen_cwd ::
  "'s stable \<Rightarrow> 's OwnedPath \<Rightarrow> u32 \<Rightarrow> u32 \<Rightarrow> SlotTarget \<Rightarrow>
   ('s PreparedDirectOpen, 's OwnedPath \<times> DirectOpenError) result" where
  "PreparedDirectOpen_cwd sb path flags mode target = PreparedDirectOpen_at sb Cwd path flags mode target"

definition DirectOpened_is_ok :: "'s DirectOpened \<Rightarrow> bool" where
  "DirectOpened_is_ok d = cqe_is_ok (ddo_result d)"

definition DirectOpened_result :: "'s DirectOpened \<Rightarrow> (unit, Error) result" where
  "DirectOpened_result d = cqe_unit_result (ddo_result d)"

definition DirectOpened_index :: "'s DirectOpened \<Rightarrow> SlotIndex option" where
  "DirectOpened_index d = map_option ds_index (ddo_slot d)"

definition DirectOpened_into_parts :: "'s DirectOpened \<Rightarrow> DirectSlot option \<times> 's OwnedPath" where
  "DirectOpened_into_parts d = (ddo_slot d, ddo_path d)"

section \<open>Operations on one path (\<open>pathop.rs\<close>)\<close>

definition REMOVEDIR :: u32 where "REMOVEDIR = 0x200"

datatype PathOpKind = Unlink | Rmdir | Mkdir u32

fun PathOpKind_sqe :: "PathOpKind \<Rightarrow> DirFd \<Rightarrow> u64 \<Rightarrow> IoUringSqe" where
  "PathOpKind_sqe Unlink dir a = Sqe_unlinkat_ptr (DirFd_as_raw dir) a 0"
| "PathOpKind_sqe Rmdir dir a = Sqe_unlinkat_ptr (DirFd_as_raw dir) a REMOVEDIR"
| "PathOpKind_sqe (Mkdir mode) dir a = Sqe_mkdirat_ptr (DirFd_as_raw dir) a mode"

record 's PreparedPathOp =
  pp1_path :: "'s OwnedPath"
  pp1_dir :: DirFd
  pp1_kind :: PathOpKind
  pp1_addr :: u64

record 's PendingPathOp =
  tp1_ring :: RingId
  tp1_id :: RequestId
  tp1_path :: "'s OwnedPath"
  tp1_dir :: DirFd
  tp1_kind :: PathOpKind
  tp1_addr :: u64

record 's PathOpCompleted =
  dp1_path :: "'s OwnedPath"
  dp1_kind :: PathOpKind
  dp1_id :: RequestId
  dp1_result :: i32

definition PreparedPathOp_into_pending ::
  "'s PreparedPathOp \<Rightarrow> RingId \<Rightarrow> RequestId \<Rightarrow> IoUringSqe \<times> 's PendingPathOp" where
  "PreparedPathOp_into_pending p ring i =
    (let sqe = PathOpKind_sqe (pp1_kind p) (pp1_dir p) (pp1_addr p);
         pending = \<lparr>tp1_ring = ring, tp1_id = i, tp1_path = pp1_path p, tp1_dir = pp1_dir p,
                    tp1_kind = pp1_kind p, tp1_addr = pp1_addr p\<rparr>
     in (Sqe_user_data (id_raw i) sqe, pending))"

definition PendingPathOp_matches :: "'s PendingPathOp \<Rightarrow> Receipt \<Rightarrow> bool" where
  "PendingPathOp_matches t r = Receipt_belongs_to r (tp1_ring t) (tp1_id t)"

definition PendingPathOp_reclaim_unsubmitted :: "'s PendingPathOp \<Rightarrow> 's PreparedPathOp" where
  "PendingPathOp_reclaim_unsubmitted t =
     \<lparr>pp1_path = tp1_path t, pp1_dir = tp1_dir t, pp1_kind = tp1_kind t,
      pp1_addr = tp1_addr t\<rparr>"

definition PendingPathOp_redeem :: "'s PendingPathOp \<Rightarrow> Receipt \<Rightarrow> ('s PathOpCompleted, 's PendingPathOp \<times> Receipt) result" where
  "PendingPathOp_redeem t r =
    (if \<not> PendingPathOp_matches t r then Err (t, r)
     else Ok \<lparr>dp1_path = tp1_path t, dp1_kind = tp1_kind t, dp1_id = tp1_id t,
               dp1_result = rc_result r\<rparr>)"

definition OwnedSubmitter_push_path_op where
  "OwnedSubmitter_push_path_op p = owned_push PreparedPathOp_into_pending (\<lambda>_ t. PendingPathOp_reclaim_unsubmitted t) p"

interpretation path_op: ticket PreparedPathOp_into_pending "\<lambda>_ t. PendingPathOp_reclaim_unsubmitted t"
  tp1_ring tp1_id pp1_path tp1_path PendingPathOp_redeem dp1_path
  by unfold_locales
    (auto simp: PreparedPathOp_into_pending_def PendingPathOp_reclaim_unsubmitted_def PendingPathOp_redeem_def
      PendingPathOp_matches_def Sqe_user_data_def Let_def)

definition PreparedPathOp_new :: "'s stable \<Rightarrow> DirFd \<Rightarrow> 's OwnedPath \<Rightarrow> PathOpKind \<Rightarrow> 's PreparedPathOp" where
  "PreparedPathOp_new sb dir path kind =
     \<lparr>pp1_path = path, pp1_dir = dir, pp1_kind = kind, pp1_addr = OwnedPath_stable_ptr sb path\<rparr>"

definition PreparedPathOp_unlink_at :: "'s stable \<Rightarrow> DirFd \<Rightarrow> 's OwnedPath \<Rightarrow> 's PreparedPathOp" where
  "PreparedPathOp_unlink_at sb dir path = PreparedPathOp_new sb dir path Unlink"

definition PreparedPathOp_unlink_cwd :: "'s stable \<Rightarrow> 's OwnedPath \<Rightarrow> 's PreparedPathOp" where
  "PreparedPathOp_unlink_cwd sb path = PreparedPathOp_unlink_at sb Cwd path"

definition PreparedPathOp_rmdir_at :: "'s stable \<Rightarrow> DirFd \<Rightarrow> 's OwnedPath \<Rightarrow> 's PreparedPathOp" where
  "PreparedPathOp_rmdir_at sb dir path = PreparedPathOp_new sb dir path Rmdir"

definition PreparedPathOp_rmdir_cwd :: "'s stable \<Rightarrow> 's OwnedPath \<Rightarrow> 's PreparedPathOp" where
  "PreparedPathOp_rmdir_cwd sb path = PreparedPathOp_rmdir_at sb Cwd path"

definition PreparedPathOp_mkdir_at :: "'s stable \<Rightarrow> DirFd \<Rightarrow> 's OwnedPath \<Rightarrow> u32 \<Rightarrow> 's PreparedPathOp" where
  "PreparedPathOp_mkdir_at sb dir path mode = PreparedPathOp_new sb dir path (Mkdir mode)"

definition PreparedPathOp_mkdir_cwd :: "'s stable \<Rightarrow> 's OwnedPath \<Rightarrow> u32 \<Rightarrow> 's PreparedPathOp" where
  "PreparedPathOp_mkdir_cwd sb path mode = PreparedPathOp_mkdir_at sb Cwd path mode"

definition PathOpCompleted_is_ok :: "'s PathOpCompleted \<Rightarrow> bool" where
  "PathOpCompleted_is_ok d = cqe_is_ok (dp1_result d)"

definition PathOpCompleted_result :: "'s PathOpCompleted \<Rightarrow> (unit, Error) result" where
  "PathOpCompleted_result d = cqe_unit_result (dp1_result d)"

section \<open>Renames (\<open>rename.rs\<close>)\<close>

definition RENAME_NOREPLACE :: u32 where "RENAME_NOREPLACE = 1"
definition RENAME_EXCHANGE :: u32 where "RENAME_EXCHANGE = 2"

datatype RenameMode = Replace | NoReplace | Exchange

fun RenameMode_flags :: "RenameMode \<Rightarrow> u32" where
  "RenameMode_flags Replace = 0"
| "RenameMode_flags NoReplace = RENAME_NOREPLACE"
| "RenameMode_flags Exchange = RENAME_EXCHANGE"

record ('f, 't) PreparedRename =
  prn_from :: "'f OwnedPath"
  prn_to :: "'t OwnedPath"
  prn_from_dir :: DirFd
  prn_to_dir :: DirFd
  prn_mode :: RenameMode
  prn_from_addr :: u64
  prn_to_addr :: u64

record ('f, 't) PendingRename =
  trn_ring :: RingId
  trn_id :: RequestId
  trn_from :: "'f OwnedPath"
  trn_to :: "'t OwnedPath"
  trn_from_dir :: DirFd
  trn_to_dir :: DirFd
  trn_mode :: RenameMode
  trn_from_addr :: u64
  trn_to_addr :: u64

record ('f, 't) RenameCompleted =
  drn_from :: "'f OwnedPath"
  drn_to :: "'t OwnedPath"
  drn_mode :: RenameMode
  drn_id :: RequestId
  drn_result :: i32

definition PreparedRename_into_pending ::
  "('f, 't) PreparedRename \<Rightarrow> RingId \<Rightarrow> RequestId \<Rightarrow> IoUringSqe \<times> ('f, 't) PendingRename" where
  "PreparedRename_into_pending p ring i =
    (let sqe = Sqe_renameat_ptr (DirFd_as_raw (prn_from_dir p)) (prn_from_addr p)
                 (DirFd_as_raw (prn_to_dir p)) (prn_to_addr p) (RenameMode_flags (prn_mode p));
         pending = \<lparr>trn_ring = ring, trn_id = i, trn_from = prn_from p, trn_to = prn_to p,
                    trn_from_dir = prn_from_dir p, trn_to_dir = prn_to_dir p,
                    trn_mode = prn_mode p, trn_from_addr = prn_from_addr p,
                    trn_to_addr = prn_to_addr p\<rparr>
     in (Sqe_user_data (id_raw i) sqe, pending))"

definition PendingRename_matches :: "('f, 't) PendingRename \<Rightarrow> Receipt \<Rightarrow> bool" where
  "PendingRename_matches t r = Receipt_belongs_to r (trn_ring t) (trn_id t)"

definition PendingRename_reclaim_unsubmitted :: "('f, 't) PendingRename \<Rightarrow> ('f, 't) PreparedRename" where
  "PendingRename_reclaim_unsubmitted t =
     \<lparr>prn_from = trn_from t, prn_to = trn_to t, prn_from_dir = trn_from_dir t,
      prn_to_dir = trn_to_dir t, prn_mode = trn_mode t, prn_from_addr = trn_from_addr t,
      prn_to_addr = trn_to_addr t\<rparr>"

definition PendingRename_redeem :: "('f, 't) PendingRename \<Rightarrow> Receipt \<Rightarrow> (('f, 't) RenameCompleted, ('f, 't) PendingRename \<times> Receipt) result" where
  "PendingRename_redeem t r =
    (if \<not> PendingRename_matches t r then Err (t, r)
     else Ok \<lparr>drn_from = trn_from t, drn_to = trn_to t, drn_mode = trn_mode t,
               drn_id = trn_id t, drn_result = rc_result r\<rparr>)"

definition OwnedSubmitter_push_rename where
  "OwnedSubmitter_push_rename p = owned_push PreparedRename_into_pending (\<lambda>_ t. PendingRename_reclaim_unsubmitted t) p"

interpretation rename_req: ticket PreparedRename_into_pending "\<lambda>_ t. PendingRename_reclaim_unsubmitted t"
  trn_ring trn_id "\<lambda>p. (prn_from p, prn_to p)" "\<lambda>t. (trn_from t, trn_to t)" PendingRename_redeem "\<lambda>d. (drn_from d, drn_to d)"
  by unfold_locales
    (auto simp: PreparedRename_into_pending_def PendingRename_reclaim_unsubmitted_def PendingRename_redeem_def
      PendingRename_matches_def Sqe_user_data_def Let_def)

definition PreparedRename_new ::
  "'f stable \<Rightarrow> 't stable \<Rightarrow> DirFd \<Rightarrow> 'f OwnedPath \<Rightarrow> DirFd \<Rightarrow> 't OwnedPath \<Rightarrow> RenameMode \<Rightarrow>
   ('f, 't) PreparedRename" where
  "PreparedRename_new sf st from_dir from to_dir to mode =
     \<lparr>prn_from = from, prn_to = to, prn_from_dir = from_dir, prn_to_dir = to_dir, prn_mode = mode,
      prn_from_addr = OwnedPath_stable_ptr sf from, prn_to_addr = OwnedPath_stable_ptr st to\<rparr>"

definition PreparedRename_cwd ::
  "'f stable \<Rightarrow> 't stable \<Rightarrow> 'f OwnedPath \<Rightarrow> 't OwnedPath \<Rightarrow> RenameMode \<Rightarrow> ('f, 't) PreparedRename" where
  "PreparedRename_cwd sf st from to mode = PreparedRename_new sf st Cwd from Cwd to mode"

definition RenameCompleted_is_ok :: "('f, 't) RenameCompleted \<Rightarrow> bool" where
  "RenameCompleted_is_ok d = cqe_is_ok (drn_result d)"

definition RenameCompleted_result :: "('f, 't) RenameCompleted \<Rightarrow> (unit, Error) result" where
  "RenameCompleted_result d = cqe_unit_result (drn_result d)"

section \<open>Links (\<open>link.rs\<close>)\<close>

datatype LinkKind = Symlink DirFd | Link DirFd DirFd u32

fun LinkKind_sqe :: "LinkKind \<Rightarrow> u64 \<Rightarrow> u64 \<Rightarrow> IoUringSqe" where
  "LinkKind_sqe (Symlink new_dir) old_addr new_addr =
     Sqe_symlinkat_ptr old_addr (DirFd_as_raw new_dir) new_addr"
| "LinkKind_sqe (Link old_dir new_dir flags) old_addr new_addr =
     Sqe_linkat_ptr (DirFd_as_raw old_dir) old_addr (DirFd_as_raw new_dir) new_addr flags"

record ('f, 't) PreparedLink =
  pln_old :: "'f OwnedPath"
  pln_new :: "'t OwnedPath"
  pln_kind :: LinkKind
  pln_old_addr :: u64
  pln_new_addr :: u64

record ('f, 't) PendingLink =
  tln_ring :: RingId
  tln_id :: RequestId
  tln_old :: "'f OwnedPath"
  tln_new :: "'t OwnedPath"
  tln_kind :: LinkKind
  tln_old_addr :: u64
  tln_new_addr :: u64

record ('f, 't) LinkCompleted =
  dln_old :: "'f OwnedPath"
  dln_new :: "'t OwnedPath"
  dln_kind :: LinkKind
  dln_id :: RequestId
  dln_result :: i32

definition PreparedLink_into_pending ::
  "('f, 't) PreparedLink \<Rightarrow> RingId \<Rightarrow> RequestId \<Rightarrow> IoUringSqe \<times> ('f, 't) PendingLink" where
  "PreparedLink_into_pending p ring i =
    (let sqe = LinkKind_sqe (pln_kind p) (pln_old_addr p) (pln_new_addr p);
         pending = \<lparr>tln_ring = ring, tln_id = i, tln_old = pln_old p, tln_new = pln_new p,
                    tln_kind = pln_kind p, tln_old_addr = pln_old_addr p,
                    tln_new_addr = pln_new_addr p\<rparr>
     in (Sqe_user_data (id_raw i) sqe, pending))"

definition PendingLink_matches :: "('f, 't) PendingLink \<Rightarrow> Receipt \<Rightarrow> bool" where
  "PendingLink_matches t r = Receipt_belongs_to r (tln_ring t) (tln_id t)"

definition PendingLink_reclaim_unsubmitted :: "('f, 't) PendingLink \<Rightarrow> ('f, 't) PreparedLink" where
  "PendingLink_reclaim_unsubmitted t =
     \<lparr>pln_old = tln_old t, pln_new = tln_new t, pln_kind = tln_kind t,
      pln_old_addr = tln_old_addr t, pln_new_addr = tln_new_addr t\<rparr>"

definition PendingLink_redeem :: "('f, 't) PendingLink \<Rightarrow> Receipt \<Rightarrow> (('f, 't) LinkCompleted, ('f, 't) PendingLink \<times> Receipt) result" where
  "PendingLink_redeem t r =
    (if \<not> PendingLink_matches t r then Err (t, r)
     else Ok \<lparr>dln_old = tln_old t, dln_new = tln_new t, dln_kind = tln_kind t,
               dln_id = tln_id t, dln_result = rc_result r\<rparr>)"

definition OwnedSubmitter_push_link where
  "OwnedSubmitter_push_link p = owned_push PreparedLink_into_pending (\<lambda>_ t. PendingLink_reclaim_unsubmitted t) p"

interpretation link_req: ticket PreparedLink_into_pending "\<lambda>_ t. PendingLink_reclaim_unsubmitted t"
  tln_ring tln_id "\<lambda>p. (pln_old p, pln_new p)" "\<lambda>t. (tln_old t, tln_new t)" PendingLink_redeem "\<lambda>d. (dln_old d, dln_new d)"
  by unfold_locales
    (auto simp: PreparedLink_into_pending_def PendingLink_reclaim_unsubmitted_def PendingLink_redeem_def
      PendingLink_matches_def Sqe_user_data_def Let_def)

definition PreparedLink_new ::
  "'f stable \<Rightarrow> 't stable \<Rightarrow> 'f OwnedPath \<Rightarrow> 't OwnedPath \<Rightarrow> LinkKind \<Rightarrow> ('f, 't) PreparedLink" where
  "PreparedLink_new sf st old new kind =
     \<lparr>pln_old = old, pln_new = new, pln_kind = kind,
      pln_old_addr = OwnedPath_stable_ptr sf old, pln_new_addr = OwnedPath_stable_ptr st new\<rparr>"

definition PreparedLink_symlink_at ::
  "'f stable \<Rightarrow> 't stable \<Rightarrow> 'f OwnedPath \<Rightarrow> DirFd \<Rightarrow> 't OwnedPath \<Rightarrow> ('f, 't) PreparedLink" where
  "PreparedLink_symlink_at sf st old new_dir new = PreparedLink_new sf st old new (Symlink new_dir)"

definition PreparedLink_symlink_cwd ::
  "'f stable \<Rightarrow> 't stable \<Rightarrow> 'f OwnedPath \<Rightarrow> 't OwnedPath \<Rightarrow> ('f, 't) PreparedLink" where
  "PreparedLink_symlink_cwd sf st old new = PreparedLink_symlink_at sf st old Cwd new"

definition PreparedLink_link_at ::
  "'f stable \<Rightarrow> 't stable \<Rightarrow> DirFd \<Rightarrow> 'f OwnedPath \<Rightarrow> DirFd \<Rightarrow> 't OwnedPath \<Rightarrow> u32 \<Rightarrow> ('f, 't) PreparedLink" where
  "PreparedLink_link_at sf st old_dir old new_dir new flags =
     PreparedLink_new sf st old new (Link old_dir new_dir flags)"

definition PreparedLink_link_cwd ::
  "'f stable \<Rightarrow> 't stable \<Rightarrow> 'f OwnedPath \<Rightarrow> 't OwnedPath \<Rightarrow> u32 \<Rightarrow> ('f, 't) PreparedLink" where
  "PreparedLink_link_cwd sf st old new flags = PreparedLink_link_at sf st Cwd old Cwd new flags"

definition LinkCompleted_is_ok :: "('f, 't) LinkCompleted \<Rightarrow> bool" where
  "LinkCompleted_is_ok d = cqe_is_ok (dln_result d)"

definition LinkCompleted_result :: "('f, 't) LinkCompleted \<Rightarrow> (unit, Error) result" where
  "LinkCompleted_result d = cqe_unit_result (dln_result d)"

section \<open>Opens with a resolution policy (\<open>openat2.rs\<close>)\<close>

definition MODE_BITS :: u32 where "MODE_BITS = 0xFFF"
definition OPEN_CREAT :: u32 where "OPEN_CREAT = 0x40"
definition OPEN_EXCL :: u32 where "OPEN_EXCL = 0x80"
definition OPEN_TMPFILE :: u32 where "OPEN_TMPFILE = 0x410000"
definition ALIGN_OpenHow :: usize where "ALIGN_OpenHow = 8"

record OpenHow =
  how_flags :: u64
  how_mode :: u64
  how_resolve :: u64

definition OpenHow_bytes :: "OpenHow \<Rightarrow> u8 list" where
  "OpenHow_bytes h = le_bytes 8 (how_flags h) @ le_bytes 8 (how_mode h) @ le_bytes 8 (how_resolve h)"

definition OpenHow_of_bytes :: "u8 list \<Rightarrow> OpenHow" where
  "OpenHow_of_bytes bs = \<lparr>how_flags = of_le (take 8 bs), how_mode = of_le (take 8 (drop 8 bs)),
     how_resolve = of_le (take 8 (drop 16 bs))\<rparr>"

interpretation open_how: codec OpenHow_bytes OpenHow_of_bytes 24
  by unfold_locales (simp_all add: OpenHow_bytes_def OpenHow_of_bytes_def of_le_bytes)

datatype Openat2Mode = Existing | Create u32 | CreateNew u32 | Tmpfile u32

fun Openat2Mode_flags :: "Openat2Mode \<Rightarrow> u32" where
  "Openat2Mode_flags Existing = 0"
| "Openat2Mode_flags (Create _) = OPEN_CREAT"
| "Openat2Mode_flags (CreateNew _) = OPEN_CREAT OR OPEN_EXCL"
| "Openat2Mode_flags (Tmpfile _) = OPEN_TMPFILE"

fun Openat2Mode_mode :: "Openat2Mode \<Rightarrow> u32" where
  "Openat2Mode_mode Existing = 0"
| "Openat2Mode_mode (Create mode) = mode"
| "Openat2Mode_mode (CreateNew mode) = mode"
| "Openat2Mode_mode (Tmpfile mode) = mode"

datatype Openat2Error = HowTooSmall usize usize | HowMisaligned usize | ModeOutsidePermissionBits u32

record ('s, 'h) PreparedOpenat2 =
  po2_path :: "'s OwnedPath"
  po2_how_store :: 'h
  po2_dir :: DirFd
  po2_flags :: u32
  po2_mode :: Openat2Mode
  po2_resolve :: u64
  po2_path_addr :: u64
  po2_how_addr :: u64

record ('s, 'h) PendingOpenat2 =
  to2_ring :: RingId
  to2_id :: RequestId
  to2_path :: "'s OwnedPath"
  to2_how_store :: 'h
  to2_dir :: DirFd
  to2_flags :: u32
  to2_mode :: Openat2Mode
  to2_resolve :: u64
  to2_path_addr :: u64
  to2_how_addr :: u64

record ('s, 'h) Opened2 =
  do2_path :: "'s OwnedPath"
  do2_how_store :: 'h
  do2_file :: "File option"
  do2_id :: RequestId
  do2_result :: i32

definition HOW_SIZE :: u32 where "HOW_SIZE = ucast SIZEOF_OpenHow"

definition PreparedOpenat2_into_pending ::
  "('s, 'h) PreparedOpenat2 \<Rightarrow> RingId \<Rightarrow> RequestId \<Rightarrow> IoUringSqe \<times> ('s, 'h) PendingOpenat2" where
  "PreparedOpenat2_into_pending p ring i =
    (let sqe = Sqe_openat2_ptr (DirFd_as_raw (po2_dir p)) (po2_path_addr p) (po2_how_addr p) HOW_SIZE;
         pending = \<lparr>to2_ring = ring, to2_id = i, to2_path = po2_path p,
                    to2_how_store = po2_how_store p, to2_dir = po2_dir p,
                    to2_flags = po2_flags p, to2_mode = po2_mode p,
                    to2_resolve = po2_resolve p, to2_path_addr = po2_path_addr p,
                    to2_how_addr = po2_how_addr p\<rparr>
     in (Sqe_user_data (id_raw i) sqe, pending))"

definition PendingOpenat2_claim :: "i32 \<Rightarrow> File option" where
  "PendingOpenat2_claim r = map_option (\<lambda>fd. File_from_fd (RawFd (ucast fd))) (u32_try_from r)"

definition PendingOpenat2_matches :: "('s, 'h) PendingOpenat2 \<Rightarrow> Receipt \<Rightarrow> bool" where
  "PendingOpenat2_matches t r = Receipt_belongs_to r (to2_ring t) (to2_id t)"

definition PendingOpenat2_reclaim_unsubmitted :: "('s, 'h) PendingOpenat2 \<Rightarrow> ('s, 'h) PreparedOpenat2" where
  "PendingOpenat2_reclaim_unsubmitted t =
     \<lparr>po2_path = to2_path t, po2_how_store = to2_how_store t, po2_dir = to2_dir t,
      po2_flags = to2_flags t, po2_mode = to2_mode t, po2_resolve = to2_resolve t,
      po2_path_addr = to2_path_addr t, po2_how_addr = to2_how_addr t\<rparr>"

definition PendingOpenat2_redeem :: "('s, 'h) PendingOpenat2 \<Rightarrow> Receipt \<Rightarrow> (('s, 'h) Opened2, ('s, 'h) PendingOpenat2 \<times> Receipt) result" where
  "PendingOpenat2_redeem t r =
    (if \<not> PendingOpenat2_matches t r then Err (t, r)
     else Ok \<lparr>do2_path = to2_path t, do2_how_store = to2_how_store t,
               do2_file = PendingOpenat2_claim (rc_result r), do2_id = to2_id t,
               do2_result = rc_result r\<rparr>)"

definition OwnedSubmitter_push_openat2 where
  "OwnedSubmitter_push_openat2 p = owned_push PreparedOpenat2_into_pending (\<lambda>_ t. PendingOpenat2_reclaim_unsubmitted t) p"

interpretation openat2: ticket PreparedOpenat2_into_pending "\<lambda>_ t. PendingOpenat2_reclaim_unsubmitted t"
  to2_ring to2_id "\<lambda>p. (po2_path p, po2_how_store p)" "\<lambda>t. (to2_path t, to2_how_store t)" PendingOpenat2_redeem "\<lambda>d. (do2_path d, do2_how_store d)"
  by unfold_locales
    (auto simp: PreparedOpenat2_into_pending_def PendingOpenat2_reclaim_unsubmitted_def PendingOpenat2_redeem_def
      PendingOpenat2_matches_def Sqe_user_data_def Let_def)

definition publish_how :: "('s, 'h) PreparedOpenat2 \<Rightarrow> ram \<Rightarrow> ram" where
  "publish_how p m =
    (let how = \<lparr>how_flags = ucast (po2_flags p OR Openat2Mode_flags (po2_mode p)),
                how_mode = ucast (Openat2Mode_mode (po2_mode p)), how_resolve = po2_resolve p\<rparr>
     in ram_write (po2_how_addr p) (OpenHow_bytes how) m)"

definition published_how :: "('s, 'h) PreparedOpenat2 \<Rightarrow> ram \<Rightarrow> OpenHow" where
  "published_how p m = OpenHow_of_bytes (ram_read m (po2_how_addr p) (unat SIZEOF_OpenHow))"

definition PreparedOpenat2_at ::
  "'s stable \<Rightarrow> 'h stable \<Rightarrow> DirFd \<Rightarrow> 's OwnedPath \<Rightarrow> u32 \<Rightarrow> Openat2Mode \<Rightarrow> u64 \<Rightarrow> 'h \<Rightarrow> ram \<Rightarrow>
   (('s, 'h) PreparedOpenat2, 's OwnedPath \<times> 'h \<times> Openat2Error) result \<times> ram" where
  "PreparedOpenat2_at sb sh dir path flags mode resolve how_store m =
    (let stray = Openat2Mode_mode mode AND NOT MODE_BITS
     in if stray \<noteq> 0 then (Err (path, how_store, ModeOutsidePermissionBits stray), m)
        else let needed = SIZEOF_OpenHow; got = stable_len sh how_store
        in if got < needed then (Err (path, how_store, HowTooSmall needed got), m)
        else let base = stable_mut_ptr sh how_store
        in if base mod ALIGN_OpenHow \<noteq> 0 then (Err (path, how_store, HowMisaligned ALIGN_OpenHow), m)
        else let prepared = \<lparr>po2_path = path, po2_how_store = how_store, po2_dir = dir,
               po2_flags = flags, po2_mode = mode, po2_resolve = resolve,
               po2_path_addr = OwnedPath_stable_ptr sb path, po2_how_addr = base\<rparr>
        in (Ok prepared, publish_how prepared m))"

definition PreparedOpenat2_cwd where
  "PreparedOpenat2_cwd sb sh path flags mode resolve how_store m =
     PreparedOpenat2_at sb sh Cwd path flags mode resolve how_store m"

definition Opened2_is_ok :: "('s, 'h) Opened2 \<Rightarrow> bool" where
  "Opened2_is_ok d = cqe_is_ok (do2_result d)"

definition Opened2_result :: "('s, 'h) Opened2 \<Rightarrow> (unit, Error) result" where
  "Opened2_result d = cqe_unit_result (do2_result d)"

definition Opened2_into_parts :: "('s, 'h) Opened2 \<Rightarrow> File option \<times> 's OwnedPath \<times> 'h" where
  "Opened2_into_parts d = (do2_file d, do2_path d, do2_how_store d)"

section \<open>File status (\<open>statx.rs\<close>)\<close>

definition STATX_RESERVED :: u32 where "STATX_RESERVED = 0x80000000"
definition SIZEOF_Statx :: usize where "SIZEOF_Statx = 256"
definition ALIGN_Statx :: usize where "ALIGN_Statx = 8"

datatype StatxError = DestTooSmall usize usize | DestMisaligned usize | ReservedMaskBit

record ('s, 'd) PreparedStatx =
  psx_path :: "'s OwnedPath"
  psx_dest :: 'd
  psx_dir :: DirFd
  psx_flags :: u32
  psx_mask :: u32
  psx_path_addr :: u64
  psx_dest_addr :: u64

record ('s, 'd) PendingStatx =
  tsx_ring :: RingId
  tsx_id :: RequestId
  tsx_path :: "'s OwnedPath"
  tsx_dest :: 'd
  tsx_dir :: DirFd
  tsx_flags :: u32
  tsx_mask :: u32
  tsx_path_addr :: u64
  tsx_dest_addr :: u64

record ('s, 'd) StatxCompleted =
  dsx_path :: "'s OwnedPath"
  dsx_dest :: 'd
  dsx_id :: RequestId
  dsx_result :: i32
  dsx_dest_addr :: u64

definition PreparedStatx_into_pending ::
  "('s, 'd) PreparedStatx \<Rightarrow> RingId \<Rightarrow> RequestId \<Rightarrow> IoUringSqe \<times> ('s, 'd) PendingStatx" where
  "PreparedStatx_into_pending p ring i =
    (let sqe = Sqe_statx_ptr (DirFd_as_raw (psx_dir p)) (psx_path_addr p) (psx_flags p) (psx_mask p)
                 (psx_dest_addr p);
         pending = \<lparr>tsx_ring = ring, tsx_id = i, tsx_path = psx_path p,
                    tsx_dest = psx_dest p, tsx_dir = psx_dir p, tsx_flags = psx_flags p,
                    tsx_mask = psx_mask p, tsx_path_addr = psx_path_addr p,
                    tsx_dest_addr = psx_dest_addr p\<rparr>
     in (Sqe_user_data (id_raw i) sqe, pending))"

definition PendingStatx_matches :: "('s, 'd) PendingStatx \<Rightarrow> Receipt \<Rightarrow> bool" where
  "PendingStatx_matches t r = Receipt_belongs_to r (tsx_ring t) (tsx_id t)"

definition PendingStatx_reclaim_unsubmitted :: "('s, 'd) PendingStatx \<Rightarrow> ('s, 'd) PreparedStatx" where
  "PendingStatx_reclaim_unsubmitted t =
     \<lparr>psx_path = tsx_path t, psx_dest = tsx_dest t, psx_dir = tsx_dir t,
      psx_flags = tsx_flags t, psx_mask = tsx_mask t, psx_path_addr = tsx_path_addr t,
      psx_dest_addr = tsx_dest_addr t\<rparr>"

definition PendingStatx_redeem :: "('s, 'd) PendingStatx \<Rightarrow> Receipt \<Rightarrow> (('s, 'd) StatxCompleted, ('s, 'd) PendingStatx \<times> Receipt) result" where
  "PendingStatx_redeem t r =
    (if \<not> PendingStatx_matches t r then Err (t, r)
     else Ok \<lparr>dsx_path = tsx_path t, dsx_dest = tsx_dest t, dsx_id = tsx_id t,
               dsx_result = rc_result r, dsx_dest_addr = tsx_dest_addr t\<rparr>)"

definition OwnedSubmitter_push_statx where
  "OwnedSubmitter_push_statx p = owned_push PreparedStatx_into_pending (\<lambda>_ t. PendingStatx_reclaim_unsubmitted t) p"

interpretation statx: ticket PreparedStatx_into_pending "\<lambda>_ t. PendingStatx_reclaim_unsubmitted t"
  tsx_ring tsx_id "\<lambda>p. (psx_path p, psx_dest p)" "\<lambda>t. (tsx_path t, tsx_dest t)" PendingStatx_redeem "\<lambda>d. (dsx_path d, dsx_dest d)"
  by unfold_locales
    (auto simp: PreparedStatx_into_pending_def PendingStatx_reclaim_unsubmitted_def PendingStatx_redeem_def
      PendingStatx_matches_def Sqe_user_data_def Let_def)

definition PreparedStatx_at ::
  "'s stable \<Rightarrow> 'd stable \<Rightarrow> DirFd \<Rightarrow> 's OwnedPath \<Rightarrow> u32 \<Rightarrow> u32 \<Rightarrow> 'd \<Rightarrow>
   (('s, 'd) PreparedStatx, 's OwnedPath \<times> 'd \<times> StatxError) result" where
  "PreparedStatx_at sb sd dir path flags msk dest =
    (if msk AND STATX_RESERVED \<noteq> 0 then Err (path, dest, ReservedMaskBit)
     else let needed = SIZEOF_Statx; got = stable_len sd dest
     in if got < needed then Err (path, dest, DestTooSmall needed got)
     else let base = stable_mut_ptr sd dest
     in if base mod ALIGN_Statx \<noteq> 0 then Err (path, dest, DestMisaligned ALIGN_Statx)
     else Ok \<lparr>psx_path = path, psx_dest = dest, psx_dir = dir, psx_flags = flags, psx_mask = msk,
              psx_path_addr = OwnedPath_stable_ptr sb path, psx_dest_addr = base\<rparr>)"

definition PreparedStatx_cwd where
  "PreparedStatx_cwd sb sd path flags msk dest = PreparedStatx_at sb sd Cwd path flags msk dest"

definition StatxCompleted_is_ok :: "('s, 'd) StatxCompleted \<Rightarrow> bool" where
  "StatxCompleted_is_ok d = cqe_is_ok (dsx_result d)"

definition StatxCompleted_result :: "('s, 'd) StatxCompleted \<Rightarrow> (unit, Error) result" where
  "StatxCompleted_result d = cqe_unit_result (dsx_result d)"

text \<open>The reference \<open>stat\<close> lends is the place of the structure in the destination.\<close>

definition StatxCompleted_stat :: "('s, 'd) StatxCompleted \<Rightarrow> slice option" where
  "StatxCompleted_stat d =
     (if sint (dsx_result d) < 0 then None
      else Some \<lparr>sl_ptr = dsx_dest_addr d, sl_len = SIZEOF_Statx\<rparr>)"

definition StatxCompleted_into_parts :: "('s, 'd) StatxCompleted \<Rightarrow> 's OwnedPath \<times> 'd" where
  "StatxCompleted_into_parts d = (dsx_path d, dsx_dest d)"

section \<open>Lemmas\<close>

lemma position0_Some: "position0 bs = Some n \<longleftrightarrow> n < length bs \<and> bs ! n = 0 \<and> 0 \<notin> set (take n bs)"
proof (induction bs arbitrary: n)
  case (Cons b bs)
  then show ?case by (cases n) auto
qed simp

context stable_buffer
begin

lemma copied_path:
  assumes v: "valid b" and path: "length path < unat (stable_len sb b)"
    and m': "m' = ram_write (stable_ptr sb b + of_nat (length path)) [0] (ram_write (stable_ptr sb b) path m)"
  shows "ram_read m' (stable_ptr sb b) (Suc (length path)) = path @ [0]"
    and "length path < unat (a - stable_ptr sb b) \<Longrightarrow> m' a = m a"
proof -
  let ?a = "stable_ptr sb b" and ?z = "stable_ptr sb b + of_nat (length path)"
  have sp: "unat ?a + length path < 2 ^ 64" using in_space [OF v] path by simp
  then have z: "unat ?z = unat ?a + length path" by (simp add: unat_word_ariths unat_of_nat mod_simps)
  have "ram_read m' ?a (length path + 1) = ram_read m' ?a (length path) @ ram_read m' ?z 1"
    by (simp only: ram_read_add)
  moreover have "ram_read m' ?a (length path) = path"
    unfolding m' by (subst ram_read_other) (use sp z in \<open>simp_all add: apart_def ram_read_write\<close>)
  moreover have "ram_read m' ?z 1 = [0]"
    unfolding m' using ram_read_write [of "[0]" ?z] by simp
  ultimately show "ram_read m' ?a (Suc (length path)) = path @ [0]" by simp
  show "m' a = m a" if "length path < unat (a - ?a)"
  proof -
    have "\<not> unat (a - ?z) < length [0 :: u8]"
    proof
      assume "unat (a - ?z) < length [0 :: u8]"
      then have "a = ?z" by (simp add: unat_eq_zero)
      then have "a - ?a = of_nat (length path)" by simp
      then show False using that sp by (simp add: unat_of_nat)
    qed
    then show ?thesis unfolding m' ram_write_def using that by simp
  qed
qed

lemma adopt_Ok:
  assumes v: "valid b" and ok: "OwnedPath_adopt sb b m = Ok p"
  defines "bytes \<equiv> OwnedPath_as_bytes sb p m"
  shows "bytes \<noteq> []" "0 \<notin> set bytes" "unat (op_len p) < unat (stable_len sb b)" "op_storage p = b"
    "ram_read m (stable_ptr sb b) (unat (op_len p) + 1) = bytes @ [0]"
proof -
  let ?bs = "ram_read m (stable_ptr sb b) (unat (stable_len sb b))"
  obtain n where n: "position0 ?bs = Some n" "n \<noteq> 0" "p = \<lparr>op_storage = b, op_len = of_nat n\<rparr>"
    using ok by (auto simp: OwnedPath_adopt_def Let_def split: option.splits if_splits)
  then have p0: "n < unat (stable_len sb b)" "?bs ! n = 0" "0 \<notin> set (take n ?bs)"
    by (auto simp: position0_Some simp del: take_ram_read)
  have "n < 2 ^ 64" using p0(1) less_trans [OF _ unsigned_less] by fastforce
  then have l: "unat (op_len p) = n" by (simp add: n(3) unat_of_nat take_bit_nat_eq_self)
  show "unat (op_len p) < unat (stable_len sb b)" "op_storage p = b" using l p0 n(3) by simp_all
  have b: "bytes = take n ?bs" using p0(1) l n(3) by (simp add: bytes_def OwnedPath_as_bytes_def)
  show "0 \<notin> set bytes" using p0(3) b by simp
  show "bytes \<noteq> []" using n(2) b p0(1) by (auto simp: ram_read_def)
  have "ram_read m (stable_ptr sb b) (n + 1) = bytes @ ram_read m (stable_ptr sb b + of_nat n) 1"
    using p0(1) by (simp only: ram_read_add b take_ram_read) simp
  then show "ram_read m (stable_ptr sb b) (unat (op_len p) + 1) = bytes @ [0]"
    using p0(1,2) l by (simp add: ram_read_def)
qed

lemma adopt_read:
  assumes "length path < unat (stable_len sb b)" "path \<noteq> []" "0 \<notin> set path"
    and "ram_read m (stable_ptr sb b) (Suc (length path)) = path @ [0]"
  shows "OwnedPath_adopt sb b m = Ok \<lparr>op_storage = b, op_len = of_nat (length path)\<rparr>"
proof -
  let ?bs = "ram_read m (stable_ptr sb b) (unat (stable_len sb b))"
  have t: "take (Suc (length path)) ?bs = path @ [0]" using assms(1,4) by (simp add: min_def)
  then have "take (length path) ?bs = path"
    by (metis append_eq_conv_conj butlast_snoc butlast_take diff_Suc_1 length_ram_read Suc_leI assms(1))
  moreover have "?bs ! length path = 0" using t assms(1) by (metis lessI nth_append_length nth_take)
  ultimately have "position0 ?bs = Some (length path)" using assms(1,3) by (simp add: position0_Some)
  then show ?thesis using assms(2) by (simp add: OwnedPath_adopt_def Let_def)
qed

end

section \<open>Properties\<close>

lemma copied_path_outcome:
  assumes "MmapBuffer_valid b" "length path < 2 ^ 63"
  shows "(case OwnedPath_copy_into mmap_stable b path m of
      (Ok p, m') \<Rightarrow> OwnedPath_as_bytes mmap_stable p m' = path \<and>
        ram_read m' (mb_addr b) (length path + 1) = path @ [0] \<and> length path + 1 \<le> unat (mb_len b) \<and>
        (\<forall>a. length path < unat (a - mb_addr b) \<longrightarrow> m' a = m a) \<and>
        OwnedPath_adopt mmap_stable b m' = Ok p \<and>
        sqe_addr (fst (PreparedOpen_into_pending (PreparedOpen_at mmap_stable dir p flags mode) ring i)) = mb_addr b
    | (Err (b', e), m') \<Rightarrow> b' = b \<and> m' = m \<and>
        (path = [] \<or> 0 \<in> set path \<or> unat (mb_len b) < length path + 1))"
proof -
  have n: "unat (of_nat (length path) + 1 :: u64) = length path + 1" "unat (of_nat (length path) :: u64) = length path"
    using assms(2) by (simp_all add: unat_word_ariths unat_of_nat mod_simps take_bit_nat_eq_self)
  show ?thesis
  proof (cases "path = [] \<or> 0 \<in> set path \<or> mb_len b < of_nat (length path) + 1")
    case True
    then have "path = [] \<or> 0 \<in> set path \<or> unat (mb_len b) < length path + 1"
      using n by (auto simp: word_less_nat_alt)
    then show ?thesis using True by (auto simp: OwnedPath_copy_into_def mmap_stable_def Let_def)
  next
    case False
    let ?m = "ram_write (mb_addr b + of_nat (length path)) [0] (ram_write (mb_addr b) path m)"
    let ?p = "\<lparr>op_storage = b, op_len = of_nat (length path)\<rparr>"
    have r: "OwnedPath_copy_into mmap_stable b path m = (Ok ?p, ?m)"
      using False by (simp add: OwnedPath_copy_into_def mmap_stable_def Let_def)
    have lt: "length path < unat (stable_len mmap_stable b)"
      using False n by (simp add: word_less_nat_alt mmap_stable_def)
    note c = mmap_buffer.copied_path [OF assms(1) lt, of ?m m]
    have c1: "ram_read ?m (mb_addr b) (Suc (length path)) = path @ [0]" using c(1) by (simp add: mmap_stable_def)
    then have "OwnedPath_adopt mmap_stable b ?m = Ok ?p"
      using mmap_buffer.adopt_read [OF lt] False by (simp add: mmap_stable_def)
    moreover have "OwnedPath_as_bytes mmap_stable ?p ?m = path"
      using arg_cong [OF c1, of "take (length path)"] n(2)
      by (simp add: OwnedPath_as_bytes_def mmap_stable_def min_def)
    moreover have "sqe_addr (fst (PreparedOpen_into_pending (PreparedOpen_at mmap_stable dir ?p flags mode) ring i)) =
        mb_addr b"
      by (simp add: PreparedOpen_into_pending_def PreparedOpen_at_def OwnedPath_stable_ptr_def mmap_stable_def
          Sqe_openat_ptr_def Sqe_user_data_def Let_def)
    ultimately show ?thesis using r c1 c(2) lt by (simp add: mmap_stable_def)
  qed
qed

lemma adopted_path_outcome:
  assumes "MmapBuffer_valid b"
  shows "case OwnedPath_adopt mmap_stable b m of
      Ok p \<Rightarrow> OwnedPath_as_bytes mmap_stable p m \<noteq> [] \<and> 0 \<notin> set (OwnedPath_as_bytes mmap_stable p m) \<and>
        unat (op_len p) + 1 \<le> unat (mb_len b) \<and>
        ram_read m (mb_addr b) (unat (op_len p) + 1) = OwnedPath_as_bytes mmap_stable p m @ [0]
    | Err (b', e) \<Rightarrow> b' = b"
proof (cases "OwnedPath_adopt mmap_stable b m")
  case (Ok p)
  have e: "stable_ptr mmap_stable b = mb_addr b" "stable_len mmap_stable b = mb_len b"
    by (simp_all add: mmap_stable_def)
  show ?thesis using mmap_buffer.adopt_Ok [OF assms Ok, unfolded e] Ok by simp
next
  case (Err be)
  then show ?thesis by (auto simp: OwnedPath_adopt_def Let_def split: option.splits if_splits)
qed

text \<open>C30. An owned path is a C string inside its storage. Copying a path either gives the
  storage back with nothing written, because the path is empty, contains a NUL or does not
  fit with its terminator, or leaves exactly the path and a NUL at the start of the
  storage, touches no other byte, and adopting that storage yields the same path. Whatever
  is adopted is a non-empty string whose terminator is inside the storage. The entry of an
  open names the first byte of the path.\<close>

theorem owned_path_is_c_string:
  assumes "MmapBuffer_valid b" "length path < 2 ^ 63"
  shows "(case OwnedPath_copy_into mmap_stable b path m of
      (Ok p, m') \<Rightarrow> OwnedPath_as_bytes mmap_stable p m' = path \<and>
        ram_read m' (mb_addr b) (length path + 1) = path @ [0] \<and> length path + 1 \<le> unat (mb_len b) \<and>
        (\<forall>a. length path < unat (a - mb_addr b) \<longrightarrow> m' a = m a) \<and>
        OwnedPath_adopt mmap_stable b m' = Ok p \<and>
        sqe_addr (fst (PreparedOpen_into_pending (PreparedOpen_at mmap_stable dir p flags mode) ring i)) = mb_addr b
    | (Err (b', e), m') \<Rightarrow> b' = b \<and> m' = m \<and>
        (path = [] \<or> 0 \<in> set path \<or> unat (mb_len b) < length path + 1)) \<and>
    (case OwnedPath_adopt mmap_stable b m of
      Ok p \<Rightarrow> OwnedPath_as_bytes mmap_stable p m \<noteq> [] \<and> 0 \<notin> set (OwnedPath_as_bytes mmap_stable p m) \<and>
        unat (op_len p) + 1 \<le> unat (mb_len b) \<and>
        ram_read m (mb_addr b) (unat (op_len p) + 1) = OwnedPath_as_bytes mmap_stable p m @ [0]
    | Err (b', e) \<Rightarrow> b' = b)"
  by (rule conjI [OF copied_path_outcome [OF assms] adopted_path_outcome [OF assms(1)]])

theorem owned_path_is_c_string_witness:
  "\<exists>p m'. OwnedPath_copy_into mmap_stable \<lparr>mb_addr = 0x8000, mb_len = 4, mb_mapped = 4096\<rparr> [47, 97, 98] (\<lambda>_. 7) = (Ok p, m') \<and>
     ram_read m' 0x8000 (3 + 1) = [47, 97, 98, 0] \<and> m' 0x8004 = 7"
proof -
  let ?b = "\<lparr>mb_addr = 0x8000, mb_len = 4, mb_mapped = 4096\<rparr>"
  have v: "MmapBuffer_valid ?b" by (simp add: MmapBuffer_valid_def word_le_nat_alt)
  obtain p m' where c: "OwnedPath_copy_into mmap_stable ?b [47, 97, 98] (\<lambda>_. 7) = (Ok p, m')"
    by (simp add: OwnedPath_copy_into_def mmap_stable_def Let_def)
  have l: "length [47, 97, 98 :: u8] = 3" by simp
  have "m' 0x8004 = 7 \<and> ram_read m' 0x8000 (3 + 1) = [47, 97, 98] @ [0]"
    using owned_path_is_c_string [OF v, of "[47, 97, 98]" "\<lambda>_. 7" Cwd 0 0 "RingId 1" "RequestId 1", unfolded l c]
    by simp
  then show ?thesis using c by simp
qed

end
