(* ===== verification/Owned_Staged.thy ===== *)
theory Owned_Staged
  imports Owned_Paths Owned_Store
begin

text \<open>
  Requests that stage a value in storage they own, for the kernel to read, or that own the
  place the kernel fills. The first share two generic modules of the crate,
  \<open>src/owned/staged_value.rs\<close> (timeouts, epoll changes) and \<open>staged_addr.rs\<close> (\<open>bind\<close>,
  \<open>connect\<close>), whose traits are records of functions here; \<open>filesupdate.rs\<close> and
  \<open>futexwaitv.rs\<close> stage arrays. The second are \<open>waitid.rs\<close>, \<open>epollwait.rs\<close> and \<open>pipe.rs\<close>.
  The futex requests of \<open>futex.rs\<close> own nothing. Sizes and alignments are those of x86_64.
\<close>

section \<open>Values in storage (\<open>staged_value.rs\<close>)\<close>

text \<open>The trait \<open>ValueOp\<close>; the last four members are the layout of its \<open>Value\<close> type.\<close>

record ('c, 'i, 'v, 'o, 'e) ValueOp =
  vo_too_small :: "usize \<Rightarrow> usize \<Rightarrow> 'e"
  vo_misaligned :: "usize \<Rightarrow> 'e"
  vo_value :: "'c \<Rightarrow> 'v"
  vo_build_sqe :: "'c \<Rightarrow> u64 \<Rightarrow> IoUringSqe"
  vo_info :: "'c \<Rightarrow> 'i"
  vo_classify :: "i32 \<Rightarrow> 'o"
  vo_size :: usize
  vo_align :: usize
  vo_bytes :: "'v \<Rightarrow> u8 list"
  vo_of_bytes :: "u8 list \<Rightarrow> 'v"

record ('s, 'c) ValuePrepared =
  vp_store :: 's
  vp_ctx :: 'c
  vp_addr :: u64

record ('s, 'c) ValuePending =
  vt_store :: 's
  vt_ring :: RingId
  vt_id :: RequestId
  vt_ctx :: 'c
  vt_addr :: u64

record ('s, 'i) ValueDone =
  vd_store :: 's
  vd_info :: 'i
  vd_id :: RequestId
  vd_result :: i32

definition ValuePrepared_publish :: "('c, 'i, 'v, 'o, 'e) ValueOp \<Rightarrow> ('s, 'c) ValuePrepared \<Rightarrow> ram \<Rightarrow> ram" where
  "ValuePrepared_publish op p m = ram_write (vp_addr p) (vo_bytes op (vo_value op (vp_ctx p))) m"

definition ValuePrepared_new ::
  "('c, 'i, 'v, 'o, 'e) ValueOp \<Rightarrow> 's stable \<Rightarrow> 'c \<Rightarrow> 's \<Rightarrow> ram \<Rightarrow>
   (('s, 'c) ValuePrepared, 's \<times> 'e) result \<times> ram" where
  "ValuePrepared_new op sb ctx store m =
    (let needed = vo_size op; got = stable_len sb store
     in if got < needed then (Err (store, vo_too_small op needed got), m)
        else let base = stable_mut_ptr sb store; align = vo_align op
        in if base mod align \<noteq> 0 then (Err (store, vo_misaligned op align), m)
        else let prepared = \<lparr>vp_store = store, vp_ctx = ctx, vp_addr = base\<rparr>
        in (Ok prepared, ValuePrepared_publish op prepared m))"

definition ValuePrepared_published :: "('c, 'i, 'v, 'o, 'e) ValueOp \<Rightarrow> ('s, 'c) ValuePrepared \<Rightarrow> ram \<Rightarrow> 'v" where
  "ValuePrepared_published op p m = vo_of_bytes op (ram_read m (vp_addr p) (unat (vo_size op)))"

definition ValuePrepared_into_pending ::
  "('c, 'i, 'v, 'o, 'e) ValueOp \<Rightarrow> ('s, 'c) ValuePrepared \<Rightarrow> RingId \<Rightarrow> RequestId \<Rightarrow>
   IoUringSqe \<times> ('s, 'c) ValuePending" where
  "ValuePrepared_into_pending op p ring i =
    (let sqe = vo_build_sqe op (vp_ctx p) (vp_addr p);
         pending = \<lparr>vt_store = vp_store p, vt_ring = ring, vt_id = i, vt_ctx = vp_ctx p, vt_addr = vp_addr p\<rparr>
     in (Sqe_user_data (id_raw i) sqe, pending))"

definition ValuePending_matches :: "('s, 'c) ValuePending \<Rightarrow> Receipt \<Rightarrow> bool" where
  "ValuePending_matches t r = Receipt_belongs_to r (vt_ring t) (vt_id t)"

definition ValuePending_reclaim_unsubmitted :: "('s, 'c) ValuePending \<Rightarrow> ('s, 'c) ValuePrepared" where
  "ValuePending_reclaim_unsubmitted t = \<lparr>vp_store = vt_store t, vp_ctx = vt_ctx t, vp_addr = vt_addr t\<rparr>"

definition ValuePending_redeem ::
  "('c, 'i, 'v, 'o, 'e) ValueOp \<Rightarrow> ('s, 'c) ValuePending \<Rightarrow> Receipt \<Rightarrow>
   (('s, 'i) ValueDone, ('s, 'c) ValuePending \<times> Receipt) result" where
  "ValuePending_redeem op t r =
    (if \<not> ValuePending_matches t r then Err (t, r)
     else Ok \<lparr>vd_store = vt_store t, vd_info = vo_info op (vt_ctx t), vd_id = vt_id t,
              vd_result = rc_result r\<rparr>)"

definition ValueDone_outcome :: "('c, 'i, 'v, 'o, 'e) ValueOp \<Rightarrow> ('s, 'i) ValueDone \<Rightarrow> 'o" where
  "ValueDone_outcome op d = vo_classify op (vd_result d)"

definition ValueDone_into_parts :: "('c, 'i, 'v, 'o, 'e) ValueOp \<Rightarrow> ('s, 'i) ValueDone \<Rightarrow> 'o \<times> 's" where
  "ValueDone_into_parts op d = (ValueDone_outcome op d, vd_store d)"

lemma value_eta: "\<lparr>vp_store = vp_store p, vp_ctx = vp_ctx p, vp_addr = vp_addr p\<rparr> = p"
  by simp

lemmas value_defs = value_eta ValuePrepared_into_pending_def ValuePending_reclaim_unsubmitted_def ValuePending_redeem_def
  ValuePending_matches_def Sqe_user_data_def Let_def

section \<open>Timeouts (\<open>timeout.rs\<close>)\<close>

definition Timespec_bytes :: "Timespec \<Rightarrow> u8 list" where
  "Timespec_bytes t = le_bytes 8 (tv_sec t) @ le_bytes 8 (tv_nsec t)"

definition Timespec_of_bytes :: "u8 list \<Rightarrow> Timespec" where
  "Timespec_of_bytes bs = \<lparr>tv_sec = of_le (take 8 bs), tv_nsec = of_le (take 8 (drop 8 bs))\<rparr>"

interpretation timespec: codec Timespec_bytes Timespec_of_bytes 16
  by unfold_locales (simp_all add: Timespec_bytes_def Timespec_of_bytes_def of_le_bytes)

definition TIMEOUT_ABS :: u32 where "TIMEOUT_ABS = 1"
definition EXPIRED :: i32 where "EXPIRED = - 62"
definition CANCELLED :: i32 where "CANCELLED = - 125"

datatype Count = Timer | Completions u32

fun Count_raw :: "Count \<Rightarrow> u64" where
  "Count_raw Timer = 0"
| "Count_raw (Completions n) = ucast n"

datatype Expiry = Expired | CountReached | Cancelled | Expiry_Failed Errno

definition Expiry_from_raw :: "i32 \<Rightarrow> Expiry" where
  "Expiry_from_raw r =
    (if r = EXPIRED then Expired
     else if r = CANCELLED then Cancelled
     else if sint r < 0 then Expiry_Failed (Errno_new (- r))
     else CountReached)"

definition Expiry_is_expired :: "Expiry \<Rightarrow> bool" where "Expiry_is_expired e \<longleftrightarrow> e = Expired"

definition Expiry_is_ok :: "Expiry \<Rightarrow> bool" where
  "Expiry_is_ok e = (case e of Expiry_Failed _ \<Rightarrow> False | _ \<Rightarrow> True)"

datatype TimeoutError = Timeout_StoreTooSmall usize usize | Timeout_StoreMisaligned usize

record TimeoutCtx =
  tc_duration :: Timespec
  tc_count :: Count
  tc_flags :: u32

definition TimeoutOp :: "(TimeoutCtx, Count, Timespec, Expiry, TimeoutError) ValueOp" where
  "TimeoutOp =
     \<lparr>vo_too_small = Timeout_StoreTooSmall, vo_misaligned = Timeout_StoreMisaligned,
      vo_value = tc_duration,
      vo_build_sqe = (\<lambda>ctx a. Sqe_timeout_ptr a (ucast (Count_raw (tc_count ctx))) (tc_flags ctx)),
      vo_info = tc_count, vo_classify = Expiry_from_raw,
      vo_size = 16, vo_align = 8, vo_bytes = Timespec_bytes, vo_of_bytes = Timespec_of_bytes\<rparr>"

datatype 's PreparedTimeout = PreparedTimeout (pti_0: "('s, TimeoutCtx) ValuePrepared")
datatype 's PendingTimeout = PendingTimeout (tti_0: "('s, TimeoutCtx) ValuePending")
datatype 's TimeoutCompleted = TimeoutCompleted (dti_0: "('s, Count) ValueDone")

definition PreparedTimeout_into_pending ::
  "'s PreparedTimeout \<Rightarrow> RingId \<Rightarrow> RequestId \<Rightarrow> IoUringSqe \<times> 's PendingTimeout" where
  "PreparedTimeout_into_pending p ring i = map_prod id PendingTimeout (ValuePrepared_into_pending TimeoutOp (pti_0 p) ring i)"

definition PendingTimeout_matches :: "'s PendingTimeout \<Rightarrow> Receipt \<Rightarrow> bool" where
  "PendingTimeout_matches t r = ValuePending_matches (tti_0 t) r"

definition PendingTimeout_reclaim_unsubmitted :: "'s PendingTimeout \<Rightarrow> 's PreparedTimeout" where
  "PendingTimeout_reclaim_unsubmitted t = PreparedTimeout (ValuePending_reclaim_unsubmitted (tti_0 t))"

definition PendingTimeout_redeem :: "'s PendingTimeout \<Rightarrow> Receipt \<Rightarrow> ('s TimeoutCompleted, 's PendingTimeout \<times> Receipt) result" where
  "PendingTimeout_redeem t r =
     map_err (map_prod PendingTimeout id) (map_ok TimeoutCompleted (ValuePending_redeem TimeoutOp (tti_0 t) r))"

definition TimeoutCompleted_into_parts where
  "TimeoutCompleted_into_parts d = ValueDone_into_parts TimeoutOp (dti_0 d)"

definition OwnedSubmitter_push_timeout where
  "OwnedSubmitter_push_timeout p = owned_push PreparedTimeout_into_pending (\<lambda>_ t. PendingTimeout_reclaim_unsubmitted t) p"

interpretation timeout_req: ticket PreparedTimeout_into_pending "\<lambda>_ t. PendingTimeout_reclaim_unsubmitted t"
  "\<lambda>t. vt_ring (tti_0 t)" "\<lambda>t. vt_id (tti_0 t)" "\<lambda>p. vp_store (pti_0 p)" "\<lambda>t. vt_store (tti_0 t)" PendingTimeout_redeem "\<lambda>d. vd_store (dti_0 d)"
  by unfold_locales
    (auto simp: PreparedTimeout_into_pending_def PendingTimeout_reclaim_unsubmitted_def PendingTimeout_redeem_def value_defs TimeoutOp_def Sqe_timeout_ptr_def)

definition PreparedTimeout_build ::
  "'s stable \<Rightarrow> Timespec \<Rightarrow> Count \<Rightarrow> u32 \<Rightarrow> 's \<Rightarrow> ram \<Rightarrow> ('s PreparedTimeout, 's \<times> TimeoutError) result \<times> ram" where
  "PreparedTimeout_build sb duration cnt flags store m =
    (let ctx = \<lparr>tc_duration = duration, tc_count = cnt, tc_flags = flags\<rparr>
     in case ValuePrepared_new TimeoutOp sb ctx store m of (r, m) \<Rightarrow> (map_ok PreparedTimeout r, m))"

definition PreparedTimeout_after where
  "PreparedTimeout_after sb duration cnt store m = PreparedTimeout_build sb duration cnt 0 store m"

definition PreparedTimeout_at where
  "PreparedTimeout_at sb deadline cnt store m = PreparedTimeout_build sb deadline cnt TIMEOUT_ABS store m"

definition PreparedTimeout_published :: "'s PreparedTimeout \<Rightarrow> ram \<Rightarrow> Timespec" where
  "PreparedTimeout_published p m = ValuePrepared_published TimeoutOp (pti_0 p) m"

definition is_absolute :: "'s PreparedTimeout \<Rightarrow> bool" where
  "is_absolute p = contains (tc_flags (vp_ctx (pti_0 p))) TIMEOUT_ABS"

definition cancel_key :: "'s PendingTimeout \<Rightarrow> u64" where
  "cancel_key t = id_raw (vt_id (tti_0 t))"

definition TimeoutCompleted_expiry :: "'s TimeoutCompleted \<Rightarrow> Expiry" where
  "TimeoutCompleted_expiry d = ValueDone_outcome TimeoutOp (dti_0 d)"

section \<open>Changes of an epoll set (\<open>epoll.rs\<close>)\<close>

record EpollEvent =
  ev_events :: u32
  ev_data :: u64

definition EpollEvent_bytes :: "EpollEvent \<Rightarrow> u8 list" where
  "EpollEvent_bytes e = le_bytes 4 (ev_events e) @ le_bytes 8 (ev_data e)"

definition EpollEvent_of_bytes :: "u8 list \<Rightarrow> EpollEvent" where
  "EpollEvent_of_bytes bs = \<lparr>ev_events = of_le (take 4 bs), ev_data = of_le (take 8 (drop 4 bs))\<rparr>"

interpretation epoll_event: codec EpollEvent_bytes EpollEvent_of_bytes 12
  by unfold_locales (simp_all add: EpollEvent_bytes_def EpollEvent_of_bytes_def of_le_bytes)

definition SIZEOF_EpollEvent :: usize where "SIZEOF_EpollEvent = 12"
definition ALIGN_EpollEvent :: usize where "ALIGN_EpollEvent = 1"

datatype EpollChange = Add u32 u64 | Mod u32 u64 | Del

fun EpollChange_op :: "EpollChange \<Rightarrow> EpollOp" where
  "EpollChange_op (Add _ _) = Epoll_Add"
| "EpollChange_op (Mod _ _) = Epoll_Mod"
| "EpollChange_op Del = Epoll_Del"

fun EpollChange_event :: "EpollChange \<Rightarrow> EpollEvent" where
  "EpollChange_event (Add events d) = \<lparr>ev_events = events, ev_data = d\<rparr>"
| "EpollChange_event (Mod events d) = \<lparr>ev_events = events, ev_data = d\<rparr>"
| "EpollChange_event Del = \<lparr>ev_events = 0, ev_data = 0\<rparr>"

datatype EpollOutcome = Epoll_Applied | AlreadyRegistered | NotRegistered | Epoll_Failed Errno

definition EpollOutcome_from_raw :: "i32 \<Rightarrow> EpollOutcome" where
  "EpollOutcome_from_raw r =
    (if r = - 17 then AlreadyRegistered
     else if r = - 2 then NotRegistered
     else if sint r < 0 then Epoll_Failed (Errno_new (- r))
     else Epoll_Applied)"

definition EpollOutcome_is_applied :: "EpollOutcome \<Rightarrow> bool" where
  "EpollOutcome_is_applied x \<longleftrightarrow> x = Epoll_Applied"

datatype EpollError = Epoll_StoreTooSmall usize usize | Epoll_StoreMisaligned usize

record EpollCtx =
  ec_epoll :: RawFd
  ec_target :: RawFd
  ec_change :: EpollChange

definition EpollCtlOp :: "(EpollCtx, EpollChange, EpollEvent, EpollOutcome, EpollError) ValueOp" where
  "EpollCtlOp =
     \<lparr>vo_too_small = Epoll_StoreTooSmall, vo_misaligned = Epoll_StoreMisaligned,
      vo_value = (\<lambda>ctx. EpollChange_event (ec_change ctx)),
      vo_build_sqe = (\<lambda>ctx a. Sqe_epoll_ctl_ptr (ec_epoll ctx) (EpollChange_op (ec_change ctx)) (ec_target ctx) a),
      vo_info = ec_change, vo_classify = EpollOutcome_from_raw,
      vo_size = SIZEOF_EpollEvent, vo_align = ALIGN_EpollEvent,
      vo_bytes = EpollEvent_bytes, vo_of_bytes = EpollEvent_of_bytes\<rparr>"

datatype 's PreparedEpollCtl = PreparedEpollCtl (pep_0: "('s, EpollCtx) ValuePrepared")
datatype 's PendingEpollCtl = PendingEpollCtl (tep_0: "('s, EpollCtx) ValuePending")
datatype 's EpollCtlDone = EpollCtlDone (dep_0: "('s, EpollChange) ValueDone")

definition PreparedEpollCtl_into_pending ::
  "'s PreparedEpollCtl \<Rightarrow> RingId \<Rightarrow> RequestId \<Rightarrow> IoUringSqe \<times> 's PendingEpollCtl" where
  "PreparedEpollCtl_into_pending p ring i = map_prod id PendingEpollCtl (ValuePrepared_into_pending EpollCtlOp (pep_0 p) ring i)"

definition PendingEpollCtl_matches :: "'s PendingEpollCtl \<Rightarrow> Receipt \<Rightarrow> bool" where
  "PendingEpollCtl_matches t r = ValuePending_matches (tep_0 t) r"

definition PendingEpollCtl_reclaim_unsubmitted :: "'s PendingEpollCtl \<Rightarrow> 's PreparedEpollCtl" where
  "PendingEpollCtl_reclaim_unsubmitted t = PreparedEpollCtl (ValuePending_reclaim_unsubmitted (tep_0 t))"

definition PendingEpollCtl_redeem :: "'s PendingEpollCtl \<Rightarrow> Receipt \<Rightarrow> ('s EpollCtlDone, 's PendingEpollCtl \<times> Receipt) result" where
  "PendingEpollCtl_redeem t r =
     map_err (map_prod PendingEpollCtl id) (map_ok EpollCtlDone (ValuePending_redeem EpollCtlOp (tep_0 t) r))"

definition EpollCtlDone_into_parts where
  "EpollCtlDone_into_parts d = ValueDone_into_parts EpollCtlOp (dep_0 d)"

definition OwnedSubmitter_push_epoll_ctl where
  "OwnedSubmitter_push_epoll_ctl p = owned_push PreparedEpollCtl_into_pending (\<lambda>_ t. PendingEpollCtl_reclaim_unsubmitted t) p"

interpretation epoll_ctl_req: ticket PreparedEpollCtl_into_pending "\<lambda>_ t. PendingEpollCtl_reclaim_unsubmitted t"
  "\<lambda>t. vt_ring (tep_0 t)" "\<lambda>t. vt_id (tep_0 t)" "\<lambda>p. vp_store (pep_0 p)" "\<lambda>t. vt_store (tep_0 t)" PendingEpollCtl_redeem "\<lambda>d. vd_store (dep_0 d)"
  by unfold_locales
    (auto simp: PreparedEpollCtl_into_pending_def PendingEpollCtl_reclaim_unsubmitted_def PendingEpollCtl_redeem_def value_defs EpollCtlOp_def)

definition PreparedEpollCtl_new ::
  "'s stable \<Rightarrow> RawFd \<Rightarrow> RawFd \<Rightarrow> EpollChange \<Rightarrow> 's \<Rightarrow> ram \<Rightarrow>
   ('s PreparedEpollCtl, 's \<times> EpollError) result \<times> ram" where
  "PreparedEpollCtl_new sb epoll target change store m =
    (let ctx = \<lparr>ec_epoll = epoll, ec_target = target, ec_change = change\<rparr>
     in case ValuePrepared_new EpollCtlOp sb ctx store m of (r, m) \<Rightarrow> (map_ok PreparedEpollCtl r, m))"

definition PreparedEpollCtl_published :: "'s PreparedEpollCtl \<Rightarrow> ram \<Rightarrow> EpollEvent" where
  "PreparedEpollCtl_published p m = ValuePrepared_published EpollCtlOp (pep_0 p) m"

definition EpollCtlDone_outcome :: "'s EpollCtlDone \<Rightarrow> EpollOutcome" where
  "EpollCtlDone_outcome d = ValueDone_outcome EpollCtlOp (dep_0 d)"

section \<open>Socket addresses in storage (\<open>staged_addr.rs\<close>)\<close>

definition ADDR_LEN :: usize where "ADDR_LEN = 16"
definition ADDR_LEN_U32 :: u32 where "ADDR_LEN_U32 = 16"

record ('o, 'e) AddrOp =
  ao_too_small :: "usize \<Rightarrow> usize \<Rightarrow> 'e"
  ao_build_sqe :: "RawFd \<Rightarrow> u64 \<Rightarrow> u32 \<Rightarrow> IoUringSqe"
  ao_classify :: "i32 \<Rightarrow> 'o"

record 's StagedPrepared =
  sp_store :: 's
  sp_fd :: RawFd
  sp_addr :: SockAddrIn
  sp_staged :: u64

record 's StagedPending =
  st_store :: 's
  st_ring :: RingId
  st_id :: RequestId
  st_fd :: RawFd
  st_addr :: SockAddrIn
  st_staged :: u64

record 's StagedDone =
  sd_store :: 's
  sd_addr :: SockAddrIn
  sd_id :: RequestId
  sd_result :: i32

definition StagedPrepared_publish :: "'s StagedPrepared \<Rightarrow> ram \<Rightarrow> ram" where
  "StagedPrepared_publish p m = ram_write (sp_staged p) (SockAddrIn_to_bytes (sp_addr p)) m"

definition StagedPrepared_new ::
  "('o, 'e) AddrOp \<Rightarrow> 's stable \<Rightarrow> RawFd \<Rightarrow> SockAddrIn \<Rightarrow> 's \<Rightarrow> ram \<Rightarrow> ('s StagedPrepared, 's \<times> 'e) result \<times> ram" where
  "StagedPrepared_new op sb fd a store m =
    (let got = stable_len sb store
     in if got < ADDR_LEN then (Err (store, ao_too_small op ADDR_LEN got), m)
        else let prepared = \<lparr>sp_store = store, sp_fd = fd, sp_addr = a, sp_staged = stable_mut_ptr sb store\<rparr>
        in (Ok prepared, StagedPrepared_publish prepared m))"

definition StagedPrepared_published :: "'s StagedPrepared \<Rightarrow> ram \<Rightarrow> u8 list" where
  "StagedPrepared_published p m = ram_read m (sp_staged p) (unat ADDR_LEN)"

definition StagedPrepared_into_pending ::
  "('o, 'e) AddrOp \<Rightarrow> 's StagedPrepared \<Rightarrow> RingId \<Rightarrow> RequestId \<Rightarrow> IoUringSqe \<times> 's StagedPending" where
  "StagedPrepared_into_pending op p ring i =
    (let sqe = ao_build_sqe op (sp_fd p) (sp_staged p) ADDR_LEN_U32;
         pending = \<lparr>st_store = sp_store p, st_ring = ring, st_id = i, st_fd = sp_fd p, st_addr = sp_addr p,
                    st_staged = sp_staged p\<rparr>
     in (Sqe_user_data (id_raw i) sqe, pending))"

definition StagedPending_matches :: "'s StagedPending \<Rightarrow> Receipt \<Rightarrow> bool" where
  "StagedPending_matches t r = Receipt_belongs_to r (st_ring t) (st_id t)"

definition StagedPending_reclaim_unsubmitted :: "'s StagedPending \<Rightarrow> 's StagedPrepared" where
  "StagedPending_reclaim_unsubmitted t =
     \<lparr>sp_store = st_store t, sp_fd = st_fd t, sp_addr = st_addr t, sp_staged = st_staged t\<rparr>"

definition StagedPending_redeem ::
  "'s StagedPending \<Rightarrow> Receipt \<Rightarrow> ('s StagedDone, 's StagedPending \<times> Receipt) result" where
  "StagedPending_redeem t r =
    (if \<not> StagedPending_matches t r then Err (t, r)
     else Ok \<lparr>sd_store = st_store t, sd_addr = st_addr t, sd_id = st_id t, sd_result = rc_result r\<rparr>)"

definition StagedDone_outcome :: "('o, 'e) AddrOp \<Rightarrow> 's StagedDone \<Rightarrow> 'o" where
  "StagedDone_outcome op d = ao_classify op (sd_result d)"

definition StagedDone_into_parts :: "('o, 'e) AddrOp \<Rightarrow> 's StagedDone \<Rightarrow> 'o \<times> 's" where
  "StagedDone_into_parts op d = (StagedDone_outcome op d, sd_store d)"

lemma staged_eta: "\<lparr>sp_store = sp_store p, sp_fd = sp_fd p, sp_addr = sp_addr p, sp_staged = sp_staged p\<rparr> = p"
  by simp

lemmas staged_defs = staged_eta StagedPrepared_into_pending_def StagedPending_reclaim_unsubmitted_def StagedPending_redeem_def
  StagedPending_matches_def Sqe_user_data_def Let_def

section \<open>\<open>bind\<close> (\<open>bind.rs\<close>) and \<open>connect\<close> (\<open>connect.rs\<close>)\<close>

datatype BindOutcome = Bound | AddressInUse | AlreadyBound | PermissionDenied | Bind_Failed Errno

definition BindOutcome_from_raw :: "i32 \<Rightarrow> BindOutcome" where
  "BindOutcome_from_raw r =
    (if r = - 98 then AddressInUse
     else if r = - 22 then AlreadyBound
     else if r = - 13 then PermissionDenied
     else if sint r < 0 then Bind_Failed (Errno_new (- r))
     else Bound)"

definition BindOutcome_is_bound :: "BindOutcome \<Rightarrow> bool" where "BindOutcome_is_bound x \<longleftrightarrow> x = Bound"

datatype BindError = Bind_StoreTooSmall usize usize

definition BindOp :: "(BindOutcome, BindError) AddrOp" where
  "BindOp = \<lparr>ao_too_small = Bind_StoreTooSmall, ao_build_sqe = Sqe_bind_ptr, ao_classify = BindOutcome_from_raw\<rparr>"

datatype 's PreparedBind = PreparedBind (pbi_0: "'s StagedPrepared")
datatype 's PendingBind = PendingBind (tbi_0: "'s StagedPending")
datatype 's BindDone = BindDone (dbi_0: "'s StagedDone")

definition PreparedBind_into_pending ::
  "'s PreparedBind \<Rightarrow> RingId \<Rightarrow> RequestId \<Rightarrow> IoUringSqe \<times> 's PendingBind" where
  "PreparedBind_into_pending p ring i = map_prod id PendingBind (StagedPrepared_into_pending BindOp (pbi_0 p) ring i)"

definition PendingBind_matches :: "'s PendingBind \<Rightarrow> Receipt \<Rightarrow> bool" where
  "PendingBind_matches t r = StagedPending_matches (tbi_0 t) r"

definition PendingBind_reclaim_unsubmitted :: "'s PendingBind \<Rightarrow> 's PreparedBind" where
  "PendingBind_reclaim_unsubmitted t = PreparedBind (StagedPending_reclaim_unsubmitted (tbi_0 t))"

definition PendingBind_redeem :: "'s PendingBind \<Rightarrow> Receipt \<Rightarrow> ('s BindDone, 's PendingBind \<times> Receipt) result" where
  "PendingBind_redeem t r =
     map_err (map_prod PendingBind id) (map_ok BindDone (StagedPending_redeem (tbi_0 t) r))"

definition BindDone_into_parts where
  "BindDone_into_parts d = StagedDone_into_parts BindOp (dbi_0 d)"

definition OwnedSubmitter_push_bind where
  "OwnedSubmitter_push_bind p = owned_push PreparedBind_into_pending (\<lambda>_ t. PendingBind_reclaim_unsubmitted t) p"

interpretation bind_req: ticket PreparedBind_into_pending "\<lambda>_ t. PendingBind_reclaim_unsubmitted t"
  "\<lambda>t. st_ring (tbi_0 t)" "\<lambda>t. st_id (tbi_0 t)" "\<lambda>p. sp_store (pbi_0 p)" "\<lambda>t. st_store (tbi_0 t)" PendingBind_redeem "\<lambda>d. sd_store (dbi_0 d)"
  by unfold_locales
    (auto simp: PreparedBind_into_pending_def PendingBind_reclaim_unsubmitted_def PendingBind_redeem_def staged_defs BindOp_def)

definition PreparedBind_new ::
  "'s stable \<Rightarrow> RawFd \<Rightarrow> SockAddrIn \<Rightarrow> 's \<Rightarrow> ram \<Rightarrow> ('s PreparedBind, 's \<times> BindError) result \<times> ram" where
  "PreparedBind_new sb fd a store m =
     (case StagedPrepared_new BindOp sb fd a store m of (r, m) \<Rightarrow> (map_ok PreparedBind r, m))"

definition BindDone_outcome :: "'s BindDone \<Rightarrow> BindOutcome" where
  "BindDone_outcome d = StagedDone_outcome BindOp (dbi_0 d)"

datatype ConnectOutcome =
    Connected | ConnectionRefused | AlreadyConnected | TimedOut | NetworkUnreachable | Connect_Failed Errno

definition ConnectOutcome_from_raw :: "i32 \<Rightarrow> ConnectOutcome" where
  "ConnectOutcome_from_raw r =
    (if r = - 111 then ConnectionRefused
     else if r = - 106 then AlreadyConnected
     else if r = - 110 then TimedOut
     else if r = - 101 then NetworkUnreachable
     else if sint r < 0 then Connect_Failed (Errno_new (- r))
     else Connected)"

definition ConnectOutcome_is_connected :: "ConnectOutcome \<Rightarrow> bool" where
  "ConnectOutcome_is_connected x \<longleftrightarrow> x = Connected"

datatype ConnectError = Connect_StoreTooSmall usize usize

definition ConnectOp :: "(ConnectOutcome, ConnectError) AddrOp" where
  "ConnectOp =
     \<lparr>ao_too_small = Connect_StoreTooSmall, ao_build_sqe = Sqe_connect_ptr, ao_classify = ConnectOutcome_from_raw\<rparr>"

datatype 's PreparedConnect = PreparedConnect (pcn_0: "'s StagedPrepared")
datatype 's PendingConnect = PendingConnect (tcn_0: "'s StagedPending")
datatype 's ConnectDone = ConnectDone (dcn_0: "'s StagedDone")

definition PreparedConnect_into_pending ::
  "'s PreparedConnect \<Rightarrow> RingId \<Rightarrow> RequestId \<Rightarrow> IoUringSqe \<times> 's PendingConnect" where
  "PreparedConnect_into_pending p ring i = map_prod id PendingConnect (StagedPrepared_into_pending ConnectOp (pcn_0 p) ring i)"

definition PendingConnect_matches :: "'s PendingConnect \<Rightarrow> Receipt \<Rightarrow> bool" where
  "PendingConnect_matches t r = StagedPending_matches (tcn_0 t) r"

definition PendingConnect_reclaim_unsubmitted :: "'s PendingConnect \<Rightarrow> 's PreparedConnect" where
  "PendingConnect_reclaim_unsubmitted t = PreparedConnect (StagedPending_reclaim_unsubmitted (tcn_0 t))"

definition PendingConnect_redeem :: "'s PendingConnect \<Rightarrow> Receipt \<Rightarrow> ('s ConnectDone, 's PendingConnect \<times> Receipt) result" where
  "PendingConnect_redeem t r =
     map_err (map_prod PendingConnect id) (map_ok ConnectDone (StagedPending_redeem (tcn_0 t) r))"

definition ConnectDone_into_parts where
  "ConnectDone_into_parts d = StagedDone_into_parts ConnectOp (dcn_0 d)"

definition OwnedSubmitter_push_connect where
  "OwnedSubmitter_push_connect p = owned_push PreparedConnect_into_pending (\<lambda>_ t. PendingConnect_reclaim_unsubmitted t) p"

interpretation connect_req: ticket PreparedConnect_into_pending "\<lambda>_ t. PendingConnect_reclaim_unsubmitted t"
  "\<lambda>t. st_ring (tcn_0 t)" "\<lambda>t. st_id (tcn_0 t)" "\<lambda>p. sp_store (pcn_0 p)" "\<lambda>t. st_store (tcn_0 t)" PendingConnect_redeem "\<lambda>d. sd_store (dcn_0 d)"
  by unfold_locales
    (auto simp: PreparedConnect_into_pending_def PendingConnect_reclaim_unsubmitted_def PendingConnect_redeem_def staged_defs ConnectOp_def)

definition PreparedConnect_new ::
  "'s stable \<Rightarrow> RawFd \<Rightarrow> SockAddrIn \<Rightarrow> 's \<Rightarrow> ram \<Rightarrow> ('s PreparedConnect, 's \<times> ConnectError) result \<times> ram" where
  "PreparedConnect_new sb fd a store m =
     (case StagedPrepared_new ConnectOp sb fd a store m of (r, m) \<Rightarrow> (map_ok PreparedConnect r, m))"

definition ConnectDone_outcome :: "'s ConnectDone \<Rightarrow> ConnectOutcome" where
  "ConnectDone_outcome d = StagedDone_outcome ConnectOp (dcn_0 d)"

section \<open>Waiting for children (\<open>waitid.rs\<close>)\<close>

definition SIZEOF_WaitidSiginfo :: usize where "SIZEOF_WaitidSiginfo = 128"
definition ALIGN_WaitidSiginfo :: usize where "ALIGN_WaitidSiginfo = 4"

datatype WaitIdError = WaitId_DestTooSmall usize usize | WaitId_DestMisaligned usize

record 'd PreparedWaitId =
  pwi_dest :: "'d option"
  pwi_id_type :: IdType
  pwi_id :: i32
  pwi_options :: u32
  pwi_dest_addr :: u64

record 'd PendingWaitId =
  twi_dest :: "'d option"
  twi_ring :: RingId
  twi_id :: RequestId
  twi_id_type :: IdType
  twi_waitid_id :: i32
  twi_options :: u32
  twi_dest_addr :: u64

record 'd WaitIdCompleted =
  dwi_dest :: "'d option"
  dwi_id :: RequestId
  dwi_result :: i32
  dwi_dest_addr :: u64

definition PreparedWaitId_new ::
  "'d stable \<Rightarrow> IdType \<Rightarrow> i32 \<Rightarrow> u32 \<Rightarrow> 'd \<Rightarrow> ('d PreparedWaitId, 'd \<times> WaitIdError) result" where
  "PreparedWaitId_new sd id_type pid options dest =
    (let needed = SIZEOF_WaitidSiginfo; got = stable_len sd dest
     in if got < needed then Err (dest, WaitId_DestTooSmall needed got)
        else let base = stable_mut_ptr sd dest
        in if base mod ALIGN_WaitidSiginfo \<noteq> 0 then Err (dest, WaitId_DestMisaligned ALIGN_WaitidSiginfo)
        else Ok \<lparr>pwi_dest = Some dest, pwi_id_type = id_type, pwi_id = pid, pwi_options = options,
                 pwi_dest_addr = base\<rparr>)"

definition PreparedWaitId_discard :: "IdType \<Rightarrow> i32 \<Rightarrow> u32 \<Rightarrow> 'd PreparedWaitId" where
  "PreparedWaitId_discard id_type pid options =
     \<lparr>pwi_dest = None, pwi_id_type = id_type, pwi_id = pid, pwi_options = options, pwi_dest_addr = 0\<rparr>"

definition PreparedWaitId_into_pending ::
  "'d PreparedWaitId \<Rightarrow> RingId \<Rightarrow> RequestId \<Rightarrow> IoUringSqe \<times> 'd PendingWaitId" where
  "PreparedWaitId_into_pending p ring i =
    (let sqe = Sqe_waitid (pwi_id_type p) (pwi_id p) (pwi_dest_addr p) (pwi_options p);
         pending = \<lparr>twi_dest = pwi_dest p, twi_ring = ring, twi_id = i, twi_id_type = pwi_id_type p,
                    twi_waitid_id = pwi_id p, twi_options = pwi_options p, twi_dest_addr = pwi_dest_addr p\<rparr>
     in (Sqe_user_data (id_raw i) sqe, pending))"

definition PendingWaitId_matches :: "'d PendingWaitId \<Rightarrow> Receipt \<Rightarrow> bool" where
  "PendingWaitId_matches t r = Receipt_belongs_to r (twi_ring t) (twi_id t)"

definition PendingWaitId_reclaim_unsubmitted :: "'d PendingWaitId \<Rightarrow> 'd PreparedWaitId" where
  "PendingWaitId_reclaim_unsubmitted t =
     \<lparr>pwi_dest = twi_dest t, pwi_id_type = twi_id_type t, pwi_id = twi_waitid_id t,
      pwi_options = twi_options t, pwi_dest_addr = twi_dest_addr t\<rparr>"

definition PendingWaitId_redeem ::
  "'d PendingWaitId \<Rightarrow> Receipt \<Rightarrow> ('d WaitIdCompleted, 'd PendingWaitId \<times> Receipt) result" where
  "PendingWaitId_redeem t r =
    (if \<not> PendingWaitId_matches t r then Err (t, r)
     else Ok \<lparr>dwi_dest = twi_dest t, dwi_id = twi_id t, dwi_result = rc_result r,
              dwi_dest_addr = twi_dest_addr t\<rparr>)"

definition OwnedSubmitter_push_waitid where
  "OwnedSubmitter_push_waitid p = owned_push PreparedWaitId_into_pending (\<lambda>_ t. PendingWaitId_reclaim_unsubmitted t) p"

interpretation waitid_req: ticket PreparedWaitId_into_pending "\<lambda>_ t. PendingWaitId_reclaim_unsubmitted t"
  twi_ring twi_id pwi_dest twi_dest PendingWaitId_redeem dwi_dest
  by unfold_locales
    (auto simp: PreparedWaitId_into_pending_def PendingWaitId_reclaim_unsubmitted_def PendingWaitId_redeem_def
      PendingWaitId_matches_def Sqe_user_data_def Let_def)

definition WaitIdCompleted_is_ok :: "'d WaitIdCompleted \<Rightarrow> bool" where
  "WaitIdCompleted_is_ok d = cqe_is_ok (dwi_result d)"

definition WaitIdCompleted_result :: "'d WaitIdCompleted \<Rightarrow> (unit, Error) result" where
  "WaitIdCompleted_result d = cqe_unit_result (dwi_result d)"

definition WaitIdCompleted_info :: "'d WaitIdCompleted \<Rightarrow> slice option" where
  "WaitIdCompleted_info d =
     (if sint (dwi_result d) < 0 \<or> dwi_dest_addr d = 0 then None
      else Some \<lparr>sl_ptr = dwi_dest_addr d, sl_len = SIZEOF_WaitidSiginfo\<rparr>)"

section \<open>Events of an epoll set (\<open>epollwait.rs\<close>)\<close>

datatype EpollWaitError = EpollWait_StoreTooSmall usize usize | EpollWait_StoreMisaligned usize

record 'd PreparedEpollWait =
  pew_store :: 'd
  pew_epfd :: RawFd
  pew_max_events :: u32
  pew_addr :: u64

record 'd PendingEpollWait =
  tew_ring :: RingId
  tew_id :: RequestId
  tew_store :: 'd
  tew_epfd :: RawFd
  tew_max_events :: u32
  tew_addr :: u64

record 'd EpollWaitCompleted =
  dew_store :: 'd
  dew_id :: RequestId
  dew_result :: i32
  dew_addr :: u64

definition PreparedEpollWait_into_pending ::
  "'d PreparedEpollWait \<Rightarrow> RingId \<Rightarrow> RequestId \<Rightarrow> IoUringSqe \<times> 'd PendingEpollWait" where
  "PreparedEpollWait_into_pending p ring i =
    (let sqe = Sqe_epoll_wait_ptr (pew_epfd p) (pew_addr p) (pew_max_events p);
         pending = \<lparr>tew_ring = ring, tew_id = i, tew_store = pew_store p,
                    tew_epfd = pew_epfd p, tew_max_events = pew_max_events p,
                    tew_addr = pew_addr p\<rparr>
     in (Sqe_user_data (id_raw i) sqe, pending))"

definition PendingEpollWait_matches :: "'d PendingEpollWait \<Rightarrow> Receipt \<Rightarrow> bool" where
  "PendingEpollWait_matches t r = Receipt_belongs_to r (tew_ring t) (tew_id t)"

definition PendingEpollWait_reclaim_unsubmitted :: "'d PendingEpollWait \<Rightarrow> 'd PreparedEpollWait" where
  "PendingEpollWait_reclaim_unsubmitted t =
     \<lparr>pew_store = tew_store t, pew_epfd = tew_epfd t, pew_max_events = tew_max_events t,
      pew_addr = tew_addr t\<rparr>"

definition PendingEpollWait_redeem :: "'d PendingEpollWait \<Rightarrow> Receipt \<Rightarrow> ('d EpollWaitCompleted, 'd PendingEpollWait \<times> Receipt) result" where
  "PendingEpollWait_redeem t r =
    (if \<not> PendingEpollWait_matches t r then Err (t, r)
     else Ok \<lparr>dew_store = tew_store t, dew_id = tew_id t, dew_result = rc_result r,
               dew_addr = tew_addr t\<rparr>)"

definition OwnedSubmitter_push_epoll_wait where
  "OwnedSubmitter_push_epoll_wait p = owned_push PreparedEpollWait_into_pending (\<lambda>_ t. PendingEpollWait_reclaim_unsubmitted t) p"

interpretation epoll_wait_req: ticket PreparedEpollWait_into_pending "\<lambda>_ t. PendingEpollWait_reclaim_unsubmitted t"
  tew_ring tew_id pew_store tew_store PendingEpollWait_redeem dew_store
  by unfold_locales
    (auto simp: PreparedEpollWait_into_pending_def PendingEpollWait_reclaim_unsubmitted_def PendingEpollWait_redeem_def
      PendingEpollWait_matches_def Sqe_user_data_def Let_def)

definition owned_clamp_max_events :: "usize \<Rightarrow> u32" where
  "owned_clamp_max_events slots = (if slots > ucast (- 1 :: u32) then - 1 else ucast slots)"

definition PreparedEpollWait_new ::
  "'d stable \<Rightarrow> RawFd \<Rightarrow> 'd \<Rightarrow> ('d PreparedEpollWait, 'd \<times> EpollWaitError) result" where
  "PreparedEpollWait_new sd epfd store =
    (let needed = SIZEOF_EpollEvent; got = stable_len sd store
     in if got < needed then Err (store, EpollWait_StoreTooSmall needed got)
        else let base = stable_mut_ptr sd store
        in if base mod ALIGN_EpollEvent \<noteq> 0 then Err (store, EpollWait_StoreMisaligned ALIGN_EpollEvent)
        else Ok \<lparr>pew_store = store, pew_epfd = epfd,
                 pew_max_events = owned_clamp_max_events (got div needed), pew_addr = base\<rparr>)"

definition EpollWaitCompleted_count :: "'d EpollWaitCompleted \<Rightarrow> (u32, Error) result" where
  "EpollWaitCompleted_count d = cqe_u32_result (dew_result d)"

text \<open>\<open>events\<close> lends as many structures as the kernel reported, from the start of the storage.\<close>

definition EpollWaitCompleted_events :: "'d EpollWaitCompleted \<Rightarrow> slice" where
  "EpollWaitCompleted_events d =
    (case EpollWaitCompleted_count d of
       Err _ \<Rightarrow> empty_slice
     | Ok n \<Rightarrow> \<lparr>sl_ptr = dew_addr d, sl_len = ucast n * SIZEOF_EpollEvent\<rparr>)"

section \<open>Pipes (\<open>pipe.rs\<close>)\<close>

definition PIPE_DEST_LEN :: usize where "PIPE_DEST_LEN = 8"
definition PIPE_DEST_ALIGN :: usize where "PIPE_DEST_ALIGN = 4"

datatype PipeError = Pipe_DestTooSmall usize usize | Pipe_DestMisaligned usize

record 'd PreparedPipe =
  ppi_dest :: 'd
  ppi_flags :: u32
  ppi_addr :: u64

record 'd PendingPipe =
  tpi_ring :: RingId
  tpi_id :: RequestId
  tpi_dest :: 'd
  tpi_flags :: u32
  tpi_addr :: u64

record 'd PipeCreated =
  dpi_dest :: 'd
  dpi_id :: RequestId
  dpi_result :: i32
  dpi_addr :: u64

definition PreparedPipe_into_pending ::
  "'d PreparedPipe \<Rightarrow> RingId \<Rightarrow> RequestId \<Rightarrow> IoUringSqe \<times> 'd PendingPipe" where
  "PreparedPipe_into_pending p ring i =
    (let sqe = Sqe_pipe_ptr (ppi_addr p) (ppi_flags p);
         pending = \<lparr>tpi_ring = ring, tpi_id = i, tpi_dest = ppi_dest p,
                    tpi_flags = ppi_flags p, tpi_addr = ppi_addr p\<rparr>
     in (Sqe_user_data (id_raw i) sqe, pending))"

definition PendingPipe_matches :: "'d PendingPipe \<Rightarrow> Receipt \<Rightarrow> bool" where
  "PendingPipe_matches t r = Receipt_belongs_to r (tpi_ring t) (tpi_id t)"

definition PendingPipe_reclaim_unsubmitted :: "'d PendingPipe \<Rightarrow> 'd PreparedPipe" where
  "PendingPipe_reclaim_unsubmitted t =
     \<lparr>ppi_dest = tpi_dest t, ppi_flags = tpi_flags t, ppi_addr = tpi_addr t\<rparr>"

definition PendingPipe_redeem :: "'d PendingPipe \<Rightarrow> Receipt \<Rightarrow> ('d PipeCreated, 'd PendingPipe \<times> Receipt) result" where
  "PendingPipe_redeem t r =
    (if \<not> PendingPipe_matches t r then Err (t, r)
     else Ok \<lparr>dpi_dest = tpi_dest t, dpi_id = tpi_id t, dpi_result = rc_result r,
               dpi_addr = tpi_addr t\<rparr>)"

definition OwnedSubmitter_push_pipe where
  "OwnedSubmitter_push_pipe p = owned_push PreparedPipe_into_pending (\<lambda>_ t. PendingPipe_reclaim_unsubmitted t) p"

interpretation pipe_req: ticket PreparedPipe_into_pending "\<lambda>_ t. PendingPipe_reclaim_unsubmitted t"
  tpi_ring tpi_id ppi_dest tpi_dest PendingPipe_redeem dpi_dest
  by unfold_locales
    (auto simp: PreparedPipe_into_pending_def PendingPipe_reclaim_unsubmitted_def PendingPipe_redeem_def
      PendingPipe_matches_def Sqe_user_data_def Let_def)

definition PreparedPipe_new :: "'d stable \<Rightarrow> u32 \<Rightarrow> 'd \<Rightarrow> ('d PreparedPipe, 'd \<times> PipeError) result" where
  "PreparedPipe_new sd flags dest =
    (let got = stable_len sd dest
     in if got < PIPE_DEST_LEN then Err (dest, Pipe_DestTooSmall PIPE_DEST_LEN got)
        else let base = stable_mut_ptr sd dest
        in if base mod PIPE_DEST_ALIGN \<noteq> 0 then Err (dest, Pipe_DestMisaligned PIPE_DEST_ALIGN)
        else Ok \<lparr>ppi_dest = dest, ppi_flags = flags, ppi_addr = base\<rparr>)"

definition PipeCreated_is_ok :: "'d PipeCreated \<Rightarrow> bool" where
  "PipeCreated_is_ok d = cqe_is_ok (dpi_result d)"

definition PipeCreated_result :: "'d PipeCreated \<Rightarrow> (unit, Error) result" where
  "PipeCreated_result d = cqe_unit_result (dpi_result d)"

definition PipeCreated_read_fd :: "'d PipeCreated \<Rightarrow> ram \<Rightarrow> i32 option" where
  "PipeCreated_read_fd d m =
     (if sint (dpi_result d) < 0 then None else Some (of_le (ram_read m (dpi_addr d) 4)))"

definition PipeCreated_write_fd :: "'d PipeCreated \<Rightarrow> ram \<Rightarrow> i32 option" where
  "PipeCreated_write_fd d m =
     (if sint (dpi_result d) < 0 then None else Some (of_le (ram_read m (dpi_addr d + 4) 4)))"

section \<open>Futexes (\<open>futex.rs\<close>)\<close>

datatype FutexWaitOutcome = Woken | ValueMismatch | Futex_Cancelled | Futex_Failed Errno

definition FutexWaitOutcome_from_raw :: "i32 \<Rightarrow> FutexWaitOutcome" where
  "FutexWaitOutcome_from_raw r =
    (if r = 0 then Woken
     else if r = - 11 then ValueMismatch
     else if r = - 125 then Futex_Cancelled
     else Futex_Failed (Errno_new (- r)))"

record PreparedFutexWait =
  pfw_uaddr :: u64
  pfw_val :: u64
  pfw_mask :: u64
  pfw_flags :: u32

record PendingFutexWait =
  tfw_ring :: RingId
  tfw_id :: RequestId
  tfw_uaddr :: u64

record FutexWaitDone =
  dfw_id :: RequestId
  dfw_result :: i32

definition PreparedFutexWait_into_pending ::
  "PreparedFutexWait \<Rightarrow> RingId \<Rightarrow> RequestId \<Rightarrow> IoUringSqe \<times> PendingFutexWait" where
  "PreparedFutexWait_into_pending p ring i =
    (let sqe = Sqe_futex_wait (pfw_uaddr p) (pfw_val p) (pfw_mask p) (pfw_flags p);
         pending = \<lparr>tfw_ring = ring, tfw_id = i, tfw_uaddr = pfw_uaddr p\<rparr>
     in (Sqe_user_data (id_raw i) sqe, pending))"

definition PendingFutexWait_matches :: "PendingFutexWait \<Rightarrow> Receipt \<Rightarrow> bool" where
  "PendingFutexWait_matches t r = Receipt_belongs_to r (tfw_ring t) (tfw_id t)"

definition PendingFutexWait_redeem :: "PendingFutexWait \<Rightarrow> Receipt \<Rightarrow> (FutexWaitDone, PendingFutexWait \<times> Receipt) result" where
  "PendingFutexWait_redeem t r =
    (if \<not> PendingFutexWait_matches t r then Err (t, r)
     else Ok \<lparr>dfw_id = tfw_id t, dfw_result = rc_result r\<rparr>)"

definition OwnedSubmitter_push_futex_wait where
  "OwnedSubmitter_push_futex_wait p = owned_push PreparedFutexWait_into_pending (\<lambda>p _. p) p"

interpretation futex_wait_req: ticket PreparedFutexWait_into_pending "\<lambda>p _. p"
  tfw_ring tfw_id "\<lambda>_. ()" "\<lambda>_. ()" PendingFutexWait_redeem "\<lambda>_. ()"
  by unfold_locales
    (auto simp: PreparedFutexWait_into_pending_def PendingFutexWait_redeem_def
      PendingFutexWait_matches_def Sqe_user_data_def Let_def)

definition PreparedFutexWait_new :: "u64 \<Rightarrow> u64 \<Rightarrow> u64 \<Rightarrow> u32 \<Rightarrow> PreparedFutexWait" where
  "PreparedFutexWait_new uaddr val msk flags =
     \<lparr>pfw_uaddr = uaddr, pfw_val = val, pfw_mask = msk, pfw_flags = flags\<rparr>"

definition FutexWaitDone_outcome :: "FutexWaitDone \<Rightarrow> FutexWaitOutcome" where
  "FutexWaitDone_outcome d = FutexWaitOutcome_from_raw (dfw_result d)"

record PreparedFutexWake =
  pfk_uaddr :: u64
  pfk_count :: u64
  pfk_mask :: u64
  pfk_flags :: u32

record PendingFutexWake =
  tfk_ring :: RingId
  tfk_id :: RequestId
  tfk_uaddr :: u64

record FutexWakeDone =
  dfk_id :: RequestId
  dfk_result :: i32

definition PreparedFutexWake_into_pending ::
  "PreparedFutexWake \<Rightarrow> RingId \<Rightarrow> RequestId \<Rightarrow> IoUringSqe \<times> PendingFutexWake" where
  "PreparedFutexWake_into_pending p ring i =
    (let sqe = Sqe_futex_wake (pfk_uaddr p) (pfk_count p) (pfk_mask p) (pfk_flags p);
         pending = \<lparr>tfk_ring = ring, tfk_id = i, tfk_uaddr = pfk_uaddr p\<rparr>
     in (Sqe_user_data (id_raw i) sqe, pending))"

definition PendingFutexWake_matches :: "PendingFutexWake \<Rightarrow> Receipt \<Rightarrow> bool" where
  "PendingFutexWake_matches t r = Receipt_belongs_to r (tfk_ring t) (tfk_id t)"

definition PendingFutexWake_redeem :: "PendingFutexWake \<Rightarrow> Receipt \<Rightarrow> (FutexWakeDone, PendingFutexWake \<times> Receipt) result" where
  "PendingFutexWake_redeem t r =
    (if \<not> PendingFutexWake_matches t r then Err (t, r)
     else Ok \<lparr>dfk_id = tfk_id t, dfk_result = rc_result r\<rparr>)"

definition OwnedSubmitter_push_futex_wake where
  "OwnedSubmitter_push_futex_wake p = owned_push PreparedFutexWake_into_pending (\<lambda>p _. p) p"

interpretation futex_wake_req: ticket PreparedFutexWake_into_pending "\<lambda>p _. p"
  tfk_ring tfk_id "\<lambda>_. ()" "\<lambda>_. ()" PendingFutexWake_redeem "\<lambda>_. ()"
  by unfold_locales
    (auto simp: PreparedFutexWake_into_pending_def PendingFutexWake_redeem_def
      PendingFutexWake_matches_def Sqe_user_data_def Let_def)

definition PreparedFutexWake_new :: "u64 \<Rightarrow> u64 \<Rightarrow> u64 \<Rightarrow> u32 \<Rightarrow> PreparedFutexWake" where
  "PreparedFutexWake_new uaddr cnt msk flags =
     \<lparr>pfk_uaddr = uaddr, pfk_count = cnt, pfk_mask = msk, pfk_flags = flags\<rparr>"

definition FutexWakeDone_woken :: "FutexWakeDone \<Rightarrow> (u32, Error) result" where
  "FutexWakeDone_woken d = cqe_u32_result (dfk_result d)"

section \<open>Waiting on several futexes (\<open>futexwaitv.rs\<close>)\<close>

record FutexWaitv =
  fv_val :: u64
  fv_uaddr :: u64
  fv_flags :: u32
  fv_reserved :: u32

definition FutexWaitv_new :: "u64 \<Rightarrow> u64 \<Rightarrow> u32 \<Rightarrow> FutexWaitv" where
  "FutexWaitv_new uaddr val flags = \<lparr>fv_val = val, fv_uaddr = uaddr, fv_flags = flags, fv_reserved = 0\<rparr>"

definition FutexWaitv_bytes :: "FutexWaitv \<Rightarrow> u8 list" where
  "FutexWaitv_bytes w =
     le_bytes 8 (fv_val w) @ le_bytes 8 (fv_uaddr w) @ le_bytes 4 (fv_flags w) @ le_bytes 4 (fv_reserved w)"

definition FUTEX_WAITV_MAX :: nat where "FUTEX_WAITV_MAX = 128"
definition SIZEOF_FutexWaitv :: usize where "SIZEOF_FutexWaitv = 24"
definition ALIGN_FutexWaitv :: usize where "ALIGN_FutexWaitv = 8"

datatype FutexWaitvError =
    ArrayTooSmall usize usize | ArrayMisaligned usize | TooManyWaiters usize usize | NoWaiters

record 'v PreparedFutexWaitv =
  pfv_array :: 'v
  pfv_count :: usize
  pfv_addr :: u64

record 'v PendingFutexWaitv =
  tfv_ring :: RingId
  tfv_id :: RequestId
  tfv_array :: 'v
  tfv_count :: usize
  tfv_addr :: u64

record 'v FutexWaitvDone =
  dfv_array :: 'v
  dfv_id :: RequestId
  dfv_result :: i32

definition PreparedFutexWaitv_into_pending ::
  "'v PreparedFutexWaitv \<Rightarrow> RingId \<Rightarrow> RequestId \<Rightarrow> IoUringSqe \<times> 'v PendingFutexWaitv" where
  "PreparedFutexWaitv_into_pending p ring i =
    (let sqe = Sqe_futex_waitv_ptr (pfv_addr p) (ucast (pfv_count p));
         pending = \<lparr>tfv_ring = ring, tfv_id = i, tfv_array = pfv_array p,
                    tfv_count = pfv_count p, tfv_addr = pfv_addr p\<rparr>
     in (Sqe_user_data (id_raw i) sqe, pending))"

definition PendingFutexWaitv_matches :: "'v PendingFutexWaitv \<Rightarrow> Receipt \<Rightarrow> bool" where
  "PendingFutexWaitv_matches t r = Receipt_belongs_to r (tfv_ring t) (tfv_id t)"

definition PendingFutexWaitv_reclaim_unsubmitted :: "'v PendingFutexWaitv \<Rightarrow> 'v PreparedFutexWaitv" where
  "PendingFutexWaitv_reclaim_unsubmitted t =
     \<lparr>pfv_array = tfv_array t, pfv_count = tfv_count t, pfv_addr = tfv_addr t\<rparr>"

definition PendingFutexWaitv_redeem :: "'v PendingFutexWaitv \<Rightarrow> Receipt \<Rightarrow> ('v FutexWaitvDone, 'v PendingFutexWaitv \<times> Receipt) result" where
  "PendingFutexWaitv_redeem t r =
    (if \<not> PendingFutexWaitv_matches t r then Err (t, r)
     else Ok \<lparr>dfv_array = tfv_array t, dfv_id = tfv_id t, dfv_result = rc_result r\<rparr>)"

definition OwnedSubmitter_push_futex_waitv where
  "OwnedSubmitter_push_futex_waitv p = owned_push PreparedFutexWaitv_into_pending (\<lambda>_ t. PendingFutexWaitv_reclaim_unsubmitted t) p"

interpretation futex_waitv_req: ticket PreparedFutexWaitv_into_pending "\<lambda>_ t. PendingFutexWaitv_reclaim_unsubmitted t"
  tfv_ring tfv_id pfv_array tfv_array PendingFutexWaitv_redeem dfv_array
  by unfold_locales
    (auto simp: PreparedFutexWaitv_into_pending_def PendingFutexWaitv_reclaim_unsubmitted_def PendingFutexWaitv_redeem_def
      PendingFutexWaitv_matches_def Sqe_user_data_def Let_def)

definition PreparedFutexWaitv_new ::
  "'v stable \<Rightarrow> FutexWaitv list \<Rightarrow> 'v \<Rightarrow> ram \<Rightarrow> ('v PreparedFutexWaitv, 'v \<times> FutexWaitvError) result \<times> ram" where
  "PreparedFutexWaitv_new sv waiters array m =
    (if waiters = [] then (Err (array, NoWaiters), m)
     else if length waiters > FUTEX_WAITV_MAX
     then (Err (array, TooManyWaiters (of_nat (length waiters)) (of_nat FUTEX_WAITV_MAX)), m)
     else let needed = SIZEOF_FutexWaitv * of_nat (length waiters); got = stable_len sv array
     in if got < needed then (Err (array, ArrayTooSmall needed got), m)
     else let base = stable_mut_ptr sv array
     in if base mod ALIGN_FutexWaitv \<noteq> 0 then (Err (array, ArrayMisaligned ALIGN_FutexWaitv), m)
     else (Ok \<lparr>pfv_array = array, pfv_count = of_nat (length waiters), pfv_addr = base\<rparr>,
           ram_write base (concat (map FutexWaitv_bytes waiters)) m))"

definition woken_index :: "'v FutexWaitvDone \<Rightarrow> (u32, Error) result" where
  "woken_index d = cqe_u32_result (dfv_result d)"

section \<open>Updates of the file table (\<open>filesupdate.rs\<close>)\<close>

datatype TableEntry = Install RawFd | Clear

fun TableEntry_raw :: "TableEntry \<Rightarrow> i32" where
  "TableEntry_raw (Install fd) = as_i32 fd"
| "TableEntry_raw Clear = - 1"

datatype Update = All u32 | Update_Partial u32 u32 | Update_Failed Errno

definition Update_from_raw :: "i32 \<Rightarrow> u32 \<Rightarrow> Update" where
  "Update_from_raw r requested =
    (if sint r < 0 then Update_Failed (Errno_new (- r))
     else if r \<ge> requested then All requested
     else Update_Partial r requested)"

fun Update_installed :: "Update \<Rightarrow> u32" where
  "Update_installed (All n) = n"
| "Update_installed (Update_Partial installed _) = installed"
| "Update_installed (Update_Failed _) = 0"

fun Update_is_complete :: "Update \<Rightarrow> bool" where
  "Update_is_complete (All _) = True"
| "Update_is_complete _ = False"

datatype FilesUpdateError = FilesUpdate_StoreTooSmall usize usize | FilesUpdate_StoreMisaligned usize | FilesUpdate_Empty

text \<open>The const parameter \<open>N\<close> is the length of \<open>entries\<close>.\<close>

record 's PreparedFilesUpdate =
  pfu_store :: 's
  pfu_entries :: "TableEntry list"
  pfu_offset :: SlotIndex
  pfu_addr :: u64

record 's PendingFilesUpdate =
  tfu_ring :: RingId
  tfu_id :: RequestId
  tfu_store :: 's
  tfu_entries :: "TableEntry list"
  tfu_offset :: SlotIndex
  tfu_addr :: u64

record 's FilesUpdated =
  dfu_store :: 's
  dfu_entries :: "TableEntry list"
  dfu_offset :: SlotIndex
  dfu_id :: RequestId
  dfu_result :: i32

definition PreparedFilesUpdate_slots :: "'s PreparedFilesUpdate \<Rightarrow> u32" where
  "PreparedFilesUpdate_slots p = of_nat (length (pfu_entries p))"

definition PreparedFilesUpdate_into_pending ::
  "'s PreparedFilesUpdate \<Rightarrow> RingId \<Rightarrow> RequestId \<Rightarrow> IoUringSqe \<times> 's PendingFilesUpdate" where
  "PreparedFilesUpdate_into_pending p ring i =
    (let sqe = Sqe_files_update_ptr (pfu_addr p) (PreparedFilesUpdate_slots p) (slot_get (pfu_offset p));
         pending = \<lparr>tfu_ring = ring, tfu_id = i, tfu_store = pfu_store p,
                    tfu_entries = pfu_entries p, tfu_offset = pfu_offset p,
                    tfu_addr = pfu_addr p\<rparr>
     in (Sqe_user_data (id_raw i) sqe, pending))"

definition PendingFilesUpdate_matches :: "'s PendingFilesUpdate \<Rightarrow> Receipt \<Rightarrow> bool" where
  "PendingFilesUpdate_matches t r = Receipt_belongs_to r (tfu_ring t) (tfu_id t)"

definition PendingFilesUpdate_reclaim_unsubmitted :: "'s PendingFilesUpdate \<Rightarrow> 's PreparedFilesUpdate" where
  "PendingFilesUpdate_reclaim_unsubmitted t =
     \<lparr>pfu_store = tfu_store t, pfu_entries = tfu_entries t, pfu_offset = tfu_offset t,
      pfu_addr = tfu_addr t\<rparr>"

definition PendingFilesUpdate_redeem :: "'s PendingFilesUpdate \<Rightarrow> Receipt \<Rightarrow> ('s FilesUpdated, 's PendingFilesUpdate \<times> Receipt) result" where
  "PendingFilesUpdate_redeem t r =
    (if \<not> PendingFilesUpdate_matches t r then Err (t, r)
     else Ok \<lparr>dfu_store = tfu_store t, dfu_entries = tfu_entries t,
               dfu_offset = tfu_offset t, dfu_id = tfu_id t, dfu_result = rc_result r\<rparr>)"

definition OwnedSubmitter_push_files_update where
  "OwnedSubmitter_push_files_update p = owned_push PreparedFilesUpdate_into_pending (\<lambda>_ t. PendingFilesUpdate_reclaim_unsubmitted t) p"

interpretation files_update_req: ticket PreparedFilesUpdate_into_pending "\<lambda>_ t. PendingFilesUpdate_reclaim_unsubmitted t"
  tfu_ring tfu_id pfu_store tfu_store PendingFilesUpdate_redeem dfu_store
  by unfold_locales
    (auto simp: PreparedFilesUpdate_into_pending_def PendingFilesUpdate_reclaim_unsubmitted_def PendingFilesUpdate_redeem_def
      PendingFilesUpdate_matches_def Sqe_user_data_def Let_def)

definition files_publish :: "u64 \<Rightarrow> TableEntry list \<Rightarrow> ram \<Rightarrow> ram" where
  "files_publish a entries m =
     fold (\<lambda>(i, e). ram_write (a + of_nat (4 * i)) (le_bytes 4 (TableEntry_raw e))) (enumerate 0 entries) m"

definition PreparedFilesUpdate_at ::
  "'s stable \<Rightarrow> SlotIndex \<Rightarrow> TableEntry list \<Rightarrow> 's \<Rightarrow> ram \<Rightarrow>
   ('s PreparedFilesUpdate, 's \<times> FilesUpdateError) result \<times> ram" where
  "PreparedFilesUpdate_at sb offset entries store m =
    (if entries = [] then (Err (store, FilesUpdate_Empty), m)
     else let needed = 4 * of_nat (length entries); got = stable_len sb store
     in if got < needed then (Err (store, FilesUpdate_StoreTooSmall needed got), m)
     else let base = stable_mut_ptr sb store
     in if base mod 4 \<noteq> 0 then (Err (store, FilesUpdate_StoreMisaligned 4), m)
     else (Ok \<lparr>pfu_store = store, pfu_entries = entries, pfu_offset = offset, pfu_addr = base\<rparr>,
           files_publish base entries m))"

definition PreparedFilesUpdate_published :: "'s PreparedFilesUpdate \<Rightarrow> ram \<Rightarrow> i32 list" where
  "PreparedFilesUpdate_published p m =
     map (\<lambda>i. of_le (ram_read m (pfu_addr p + of_nat (4 * i)) 4)) [0..<length (pfu_entries p)]"

definition FilesUpdated_update :: "'s FilesUpdated \<Rightarrow> Update" where
  "FilesUpdated_update d = Update_from_raw (dfu_result d) (of_nat (length (dfu_entries d)))"

definition FilesUpdated_into_parts :: "'s FilesUpdated \<Rightarrow> Update \<times> 's" where
  "FilesUpdated_into_parts d = (FilesUpdated_update d, dfu_store d)"

section \<open>What is staged and where\<close>

text \<open>An operation whose value has a layout and whose entry names the staged value.\<close>

locale value_op =
  fixes op :: "('c, 'i, 'v, 'o, 'e) ValueOp"
  assumes op_codec: "codec (vo_bytes op) (vo_of_bytes op) (unat (vo_size op))"
    and op_addr: "sqe_addr (vo_build_sqe op ctx a) = a"
begin

lemma new_spec:
  "case ValuePrepared_new op mmap_stable ctx b m of
      (Ok p, m') \<Rightarrow> vp_store p = b \<and> ValuePrepared_published op p m' = vo_value op ctx \<and> kept_outside b m m' \<and>
        sqe_addr (fst (ValuePrepared_into_pending op p ring i)) = mb_addr b \<and>
        vp_addr p = mb_addr b \<and> unat (vo_size op) \<le> unat (mb_len b) \<and> mb_addr b mod vo_align op = 0
    | (Err (b', e), m') \<Rightarrow> b' = b \<and> m' = m \<and> (mb_len b < vo_size op \<or> mb_addr b mod vo_align op \<noteq> 0)"
proof -
  have len: "length (vo_bytes op v) = unat (vo_size op)" for v by (rule codec.enc_length [OF op_codec])
  have rb: "ValuePrepared_published op \<lparr>vp_store = b, vp_ctx = ctx, vp_addr = mb_addr b\<rparr>
      (ram_write (mb_addr b) (vo_bytes op (vo_value op ctx)) m) = vo_value op ctx"
    by (simp add: ValuePrepared_published_def codec.read_back [OF op_codec])
  show ?thesis
    using kept_outside_write [of "vo_bytes op (vo_value op ctx)" b m] rb
    by (auto simp: ValuePrepared_new_def ValuePrepared_publish_def mmap_stable_def Let_def len op_addr
        ValuePrepared_into_pending_def Sqe_user_data_def word_less_nat_alt)
qed

end

interpretation timeout_value: value_op TimeoutOp
  by unfold_locales (simp_all add: TimeoutOp_def Sqe_timeout_ptr_def timespec.codec_axioms)

interpretation epoll_value: value_op EpollCtlOp
  by unfold_locales
    (simp_all add: EpollCtlOp_def Sqe_epoll_ctl_ptr_def SIZEOF_EpollEvent_def epoll_event.codec_axioms)

lemma length_SockAddrIn [simp]: "length (SockAddrIn_to_bytes a) = 16"
  by (simp add: SockAddrIn_to_bytes_def)

lemma length_FutexWaitv [simp]: "length (FutexWaitv_bytes w) = 24"
  by (simp add: FutexWaitv_bytes_def)

lemma staged_addr_spec:
  assumes "\<And>fd x n. sqe_addr (ao_build_sqe op fd x n) = x"
  shows "case StagedPrepared_new op mmap_stable fd a b m of
      (Ok p, m') \<Rightarrow> sp_store p = b \<and> sqe_addr (fst (StagedPrepared_into_pending op p ring i)) = mb_addr b \<and>
        ram_read m' (mb_addr b) 16 = SockAddrIn_to_bytes a \<and> 16 \<le> unat (mb_len b) \<and> kept_outside b m m'
    | (Err (b', e), m') \<Rightarrow> b' = b \<and> m' = m \<and> unat (mb_len b) < 16"
  using kept_outside_write [of "SockAddrIn_to_bytes a" b m] ram_read_write [of "SockAddrIn_to_bytes a" "mb_addr b" m]
  by (auto simp: StagedPrepared_new_def StagedPrepared_publish_def StagedPrepared_into_pending_def assms
      mmap_stable_def ADDR_LEN_def Sqe_user_data_def word_less_nat_alt Let_def)

text \<open>The loop that stages a descriptor array writes it as one block.\<close>

lemma files_publish_each: "files_publish a es m = write_each a (map (\<lambda>e. le_bytes 4 (TableEntry_raw e)) es) m"
  using fold_enumerate_write [where k = 4 and f = "\<lambda>e. le_bytes 4 (TableEntry_raw e)" and n = 0]
  by (simp add: files_publish_def)

lemma files_published:
  assumes "4 * length es < 2 ^ 64"
  shows "map (\<lambda>i. of_le (ram_read (files_publish a es m) (a + of_nat (4 * i)) 4)) [0..<length es] = map TableEntry_raw es"
  using assms write_each_nth [where k = 4 and bs = "map (\<lambda>e. le_bytes 4 (TableEntry_raw e)) es" and a = a and m = m]
  by (intro nth_equalityI) (simp_all add: files_publish_each of_le_bytes)

lemma files_update_spec:
  assumes "length entries < 2 ^ 32"
  shows "case PreparedFilesUpdate_at mmap_stable offset entries b m of
      (Ok p, m') \<Rightarrow> PreparedFilesUpdate_published p m' = map TableEntry_raw entries \<and> kept_outside b m m' \<and>
        sqe_addr (fst (PreparedFilesUpdate_into_pending p ring i)) = mb_addr b \<and>
        4 * unat (sqe_len (fst (PreparedFilesUpdate_into_pending p ring i))) \<le> unat (mb_len b)
    | (Err (b', e), m') \<Rightarrow> b' = b \<and> m' = m"
proof -
  let ?n = "length entries"
  have small: "4 * ?n < 2 ^ 64" using assms by simp
  have n: "unat (4 * of_nat ?n :: u64) = 4 * ?n" "unat (of_nat ?n :: u32) = ?n"
    using assms by (simp_all add: unat_word_ariths unat_of_nat mod_simps take_bit_nat_eq_self)
  let ?bs = "map (\<lambda>e. le_bytes 4 (TableEntry_raw e)) entries"
  have l: "length (concat ?bs) = 4 * ?n" using length_concat_uniform [of ?bs 4] by simp
  have "kept_outside b m (files_publish (mb_addr b) entries m)" if "4 * ?n \<le> unat (mb_len b)"
    using kept_outside_write [of "concat ?bs" b m] that l small
    by (simp add: files_publish_each write_each_block)
  then show ?thesis
    using files_published [OF small, of "mb_addr b" m] n
    by (auto simp: PreparedFilesUpdate_at_def PreparedFilesUpdate_published_def PreparedFilesUpdate_into_pending_def
        PreparedFilesUpdate_slots_def Sqe_files_update_ptr_def Sqe_user_data_def mmap_stable_def word_less_nat_alt
        not_less Let_def)
qed

lemma openat2_spec:
  "case PreparedOpenat2_at sp mmap_stable dir path fl mode rslv b m of
      (Ok p, m') \<Rightarrow> kept_outside b m m' \<and> 24 \<le> unat (mb_len b) \<and>
        published_how p m' = \<lparr>how_flags = ucast (fl OR Openat2Mode_flags mode),
          how_mode = ucast (Openat2Mode_mode mode), how_resolve = rslv\<rparr>
    | (Err (path', b', e), m') \<Rightarrow> path' = path \<and> b' = b \<and> m' = m"
  by (auto simp: PreparedOpenat2_at_def mmap_stable_def publish_how_def published_how_def SIZEOF_OpenHow_def
      word_less_nat_alt not_less open_how.read_back Let_def intro!: kept_outside_write)

lemma unat_events: "unat (ucast (n :: u32) * 12 :: u64) = unat n * 12"
proof -
  have "unat n < 2 ^ 32" by (rule unsigned_less [THEN order_less_le_trans]) simp
  then have "unat n * 12 < 2 ^ 64" by simp
  then show ?thesis by (simp add: unat_word_ariths unsigned_ucast_eq take_bit_nat_eq_self)
qed

lemma events_fit:
  "unat n \<le> unat (owned_clamp_max_events (l div 12)) \<Longrightarrow> unat (n :: u32) * 12 \<le> unat (l :: u64)"
proof -
  assume a: "unat n \<le> unat (owned_clamp_max_events (l div 12))"
  have "unat (owned_clamp_max_events x) \<le> unat x" for x
  proof (cases "x > ucast (- 1 :: u32)")
    case True
    then have "unat (ucast (- 1 :: u32) :: u64) < unat x" by (simp add: word_less_nat_alt)
    then show ?thesis using True
      by (simp add: owned_clamp_max_events_def unsigned_ucast_eq take_bit_nat_eq_self)
  next
    case False
    then show ?thesis by (simp add: owned_clamp_max_events_def unsigned_ucast_eq)
  qed
  then have "unat n \<le> unat (l div 12)" using a le_trans by blast
  then have "unat n \<le> unat l div 12" by (simp add: unat_div)
  then show ?thesis by simp
qed

lemma timeout_spec:
  "case PreparedTimeout_build mmap_stable duration cnt fl b m of
      (Ok p, m') \<Rightarrow> PreparedTimeout_published p m' = duration \<and> kept_outside b m m' \<and> 16 \<le> unat (mb_len b) \<and>
        sqe_addr (fst (PreparedTimeout_into_pending p ring i)) = mb_addr b
    | (Err (b', e), m') \<Rightarrow> b' = b \<and> m' = m"
proof -
  have t: "vo_value TimeoutOp ctx = tc_duration ctx" "unat (vo_size TimeoutOp) = 16" for ctx
    by (simp_all add: TimeoutOp_def)
  show ?thesis
    using timeout_value.new_spec [where ctx = "\<lparr>tc_duration = duration, tc_count = cnt, tc_flags = fl\<rparr>" and b = b and m = m and ring = ring and i = i]
    by (auto simp: PreparedTimeout_build_def PreparedTimeout_published_def PreparedTimeout_into_pending_def t
        split: prod.splits result.splits)
qed

lemma epoll_spec:
  "case PreparedEpollCtl_new mmap_stable epfd fd change b m of
      (Ok p, m') \<Rightarrow> PreparedEpollCtl_published p m' = EpollChange_event change \<and> kept_outside b m m' \<and>
        12 \<le> unat (mb_len b) \<and> sqe_addr (fst (PreparedEpollCtl_into_pending p ring i)) = mb_addr b
    | (Err (b', e), m') \<Rightarrow> b' = b \<and> m' = m"
proof -
  have e: "vo_value EpollCtlOp ctx = EpollChange_event (ec_change ctx)" "unat (vo_size EpollCtlOp) = 12" for ctx
    by (simp_all add: EpollCtlOp_def SIZEOF_EpollEvent_def)
  show ?thesis
    using epoll_value.new_spec [where ctx = "\<lparr>ec_epoll = epfd, ec_target = fd, ec_change = change\<rparr>" and b = b and m = m and ring = ring and i = i]
    by (auto simp: PreparedEpollCtl_new_def PreparedEpollCtl_published_def PreparedEpollCtl_into_pending_def e
        split: prod.splits result.splits)
qed

lemma bind_spec:
  "case PreparedBind_new mmap_stable fd a b m of
      (Ok p, m') \<Rightarrow> ram_read m' (mb_addr b) 16 = SockAddrIn_to_bytes a \<and> kept_outside b m m' \<and>
        16 \<le> unat (mb_len b) \<and> sqe_addr (fst (PreparedBind_into_pending p ring i)) = mb_addr b
    | (Err (b', e), m') \<Rightarrow> b' = b \<and> m' = m \<and> unat (mb_len b) < 16"
  using staged_addr_spec [where op = BindOp and fd = fd and a = a and b = b and m = m and ring = ring and i = i]
  by (auto simp: PreparedBind_new_def PreparedBind_into_pending_def BindOp_def Sqe_bind_ptr_def
      split: prod.splits result.splits)

lemma connect_spec:
  "case PreparedConnect_new mmap_stable fd a b m of
      (Ok p, m') \<Rightarrow> ram_read m' (mb_addr b) 16 = SockAddrIn_to_bytes a \<and> kept_outside b m m' \<and>
        16 \<le> unat (mb_len b) \<and> sqe_addr (fst (PreparedConnect_into_pending p ring i)) = mb_addr b
    | (Err (b', e), m') \<Rightarrow> b' = b \<and> m' = m \<and> unat (mb_len b) < 16"
  using staged_addr_spec [where op = ConnectOp and fd = fd and a = a and b = b and m = m and ring = ring and i = i]
  by (auto simp: PreparedConnect_new_def PreparedConnect_into_pending_def ConnectOp_def Sqe_connect_ptr_def
      split: prod.splits result.splits)

section \<open>Properties\<close>


text \<open>C32. The kernel only ever fills storage the request owns. The destination in the entry of a
  \<open>statx\<close>, a \<open>waitid\<close> or a pipe is the aligned start of a storage large enough for the
  structure, and an \<open>epoll_wait\<close> asks for no more events than fit; storage that is too
  small or misaligned comes back. After completion the references lent are inside the
  storage, provided the kernel reports no more events than it was asked for, and there is
  none after an error.\<close>

theorem destinations_within_store:
  "(case PreparedStatx_at sp mmap_stable dir path fl msk b of
      Err (path', b', e) \<Rightarrow> path' = path \<and> b' = b
    | Ok p \<Rightarrow> slice_within \<lparr>sl_ptr = sqe_off (fst (PreparedStatx_into_pending p ring i)), sl_len = SIZEOF_Statx\<rparr> b \<and>
        mb_addr b mod ALIGN_Statx = 0 \<and>
        (\<forall>r d. PendingStatx_redeem (snd (PreparedStatx_into_pending p ring i)) r = Ok d \<longrightarrow>
           (case StatxCompleted_stat d of None \<Rightarrow> sint (rc_result r) < 0 | Some s \<Rightarrow> slice_within s b))) \<and>
   (case PreparedWaitId_new mmap_stable id_type pid options b of
      Err (b', e) \<Rightarrow> b' = b
    | Ok p \<Rightarrow> slice_within \<lparr>sl_ptr = sqe_off (fst (PreparedWaitId_into_pending p ring i)), sl_len = SIZEOF_WaitidSiginfo\<rparr> b \<and>
        mb_addr b mod ALIGN_WaitidSiginfo = 0 \<and>
        (\<forall>r d s. PendingWaitId_redeem (snd (PreparedWaitId_into_pending p ring i)) r = Ok d \<longrightarrow>
           WaitIdCompleted_info d = Some s \<longrightarrow> slice_within s b \<and> \<not> sint (rc_result r) < 0)) \<and>
   (case PreparedPipe_new mmap_stable fl b of
      Err (b', e) \<Rightarrow> b' = b
    | Ok p \<Rightarrow> slice_within \<lparr>sl_ptr = sqe_addr (fst (PreparedPipe_into_pending p ring i)), sl_len = PIPE_DEST_LEN\<rparr> b \<and>
        mb_addr b mod PIPE_DEST_ALIGN = 0) \<and>
   (case PreparedEpollWait_new mmap_stable epfd b of
      Err (b', e) \<Rightarrow> b' = b
    | Ok p \<Rightarrow> slice_within \<lparr>sl_ptr = sqe_addr (fst (PreparedEpollWait_into_pending p ring i)),
          sl_len = ucast (sqe_len (fst (PreparedEpollWait_into_pending p ring i))) * SIZEOF_EpollEvent\<rparr> b \<and>
        (\<forall>r d. PendingEpollWait_redeem (snd (PreparedEpollWait_into_pending p ring i)) r = Ok d \<longrightarrow>
           sint (rc_result r) < 0 \<or> rc_result r \<le> sqe_len (fst (PreparedEpollWait_into_pending p ring i)) \<longrightarrow>
           EpollWaitCompleted_events d = empty_slice \<or> slice_within (EpollWaitCompleted_events d) b))"
proof (intro conjI)
  show "case PreparedStatx_at sp mmap_stable dir path fl msk b of
      Err (path', b', e) \<Rightarrow> path' = path \<and> b' = b
    | Ok p \<Rightarrow> slice_within \<lparr>sl_ptr = sqe_off (fst (PreparedStatx_into_pending p ring i)), sl_len = SIZEOF_Statx\<rparr> b \<and>
        mb_addr b mod ALIGN_Statx = 0 \<and>
        (\<forall>r d. PendingStatx_redeem (snd (PreparedStatx_into_pending p ring i)) r = Ok d \<longrightarrow>
           (case StatxCompleted_stat d of None \<Rightarrow> sint (rc_result r) < 0 | Some s \<Rightarrow> slice_within s b))"
    by (auto simp: PreparedStatx_at_def PreparedStatx_into_pending_def PendingStatx_redeem_def StatxCompleted_stat_def
        Sqe_statx_ptr_def Sqe_user_data_def mmap_stable_def slice_within_def word_less_nat_alt not_less Let_def
        split: if_splits)
  show "case PreparedWaitId_new mmap_stable id_type pid options b of
      Err (b', e) \<Rightarrow> b' = b
    | Ok p \<Rightarrow> slice_within \<lparr>sl_ptr = sqe_off (fst (PreparedWaitId_into_pending p ring i)), sl_len = SIZEOF_WaitidSiginfo\<rparr> b \<and>
        mb_addr b mod ALIGN_WaitidSiginfo = 0 \<and>
        (\<forall>r d s. PendingWaitId_redeem (snd (PreparedWaitId_into_pending p ring i)) r = Ok d \<longrightarrow>
           WaitIdCompleted_info d = Some s \<longrightarrow> slice_within s b \<and> \<not> sint (rc_result r) < 0)"
    by (auto simp: PreparedWaitId_new_def PreparedWaitId_into_pending_def PendingWaitId_redeem_def
        WaitIdCompleted_info_def Sqe_waitid_def Sqe_user_data_def mmap_stable_def slice_within_def word_less_nat_alt
        not_less Let_def split: if_splits)
  show "case PreparedPipe_new mmap_stable fl b of
      Err (b', e) \<Rightarrow> b' = b
    | Ok p \<Rightarrow> slice_within \<lparr>sl_ptr = sqe_addr (fst (PreparedPipe_into_pending p ring i)), sl_len = PIPE_DEST_LEN\<rparr> b \<and>
        mb_addr b mod PIPE_DEST_ALIGN = 0"
    by (auto simp: PreparedPipe_new_def PreparedPipe_into_pending_def Sqe_pipe_ptr_def Sqe_user_data_def
        mmap_stable_def slice_within_def word_less_nat_alt not_less Let_def)
  show "case PreparedEpollWait_new mmap_stable epfd b of
      Err (b', e) \<Rightarrow> b' = b
    | Ok p \<Rightarrow> slice_within \<lparr>sl_ptr = sqe_addr (fst (PreparedEpollWait_into_pending p ring i)),
          sl_len = ucast (sqe_len (fst (PreparedEpollWait_into_pending p ring i))) * SIZEOF_EpollEvent\<rparr> b \<and>
        (\<forall>r d. PendingEpollWait_redeem (snd (PreparedEpollWait_into_pending p ring i)) r = Ok d \<longrightarrow>
           sint (rc_result r) < 0 \<or> rc_result r \<le> sqe_len (fst (PreparedEpollWait_into_pending p ring i)) \<longrightarrow>
           EpollWaitCompleted_events d = empty_slice \<or> slice_within (EpollWaitCompleted_events d) b)"
    using events_fit [of _ "mb_len b"]
    by (auto simp: PreparedEpollWait_new_def PreparedEpollWait_into_pending_def PendingEpollWait_redeem_def
        EpollWaitCompleted_events_def EpollWaitCompleted_count_def cqe_u32_result_def from_failed_cqe_def
        Sqe_epoll_wait_ptr_def Sqe_user_data_def mmap_stable_def slice_within_def SIZEOF_EpollEvent_def unat_events
        word_le_nat_alt Let_def)
qed

section \<open>Examples\<close>


theorem destinations_within_store_witness:
  "\<exists>p d. PreparedEpollWait_new mmap_stable (RawFd 5) \<lparr>mb_addr = 0x8000, mb_len = 30, mb_mapped = 4096\<rparr> = Ok p \<and>
     PendingEpollWait_redeem (snd (PreparedEpollWait_into_pending p (RingId 1) (RequestId 2)))
       \<lparr>rc_ring = RingId 1, rc_id = RequestId 2, rc_result = 2, rc_flags = 0\<rparr> = Ok d \<and>
     EpollWaitCompleted_events d = \<lparr>sl_ptr = 0x8000, sl_len = 24\<rparr> \<and>
     slice_within (EpollWaitCompleted_events d) \<lparr>mb_addr = 0x8000, mb_len = 30, mb_mapped = 4096\<rparr>"
proof -
  let ?b = "\<lparr>mb_addr = 0x8000, mb_len = 30, mb_mapped = 4096\<rparr>"
  let ?r = "\<lparr>rc_ring = RingId 1, rc_id = RequestId 2, rc_result = 2, rc_flags = 0\<rparr>"
  let ?p = "\<lparr>pew_store = ?b, pew_epfd = RawFd 5, pew_max_events = 2, pew_addr = 0x8000\<rparr>"
  let ?d = "\<lparr>dew_store = ?b, dew_id = RequestId 2, dew_result = 2, dew_addr = 0x8000\<rparr>"
  have mx: "owned_clamp_max_events 2 = 2" by code_simp
  have p: "PreparedEpollWait_new mmap_stable (RawFd 5) ?b = Ok ?p"
    by (simp add: PreparedEpollWait_new_def mmap_stable_def SIZEOF_EpollEvent_def ALIGN_EpollEvent_def mx Let_def)
  have d: "PendingEpollWait_redeem (snd (PreparedEpollWait_into_pending ?p (RingId 1) (RequestId 2))) ?r = Ok ?d"
    by (simp add: PendingEpollWait_redeem_def PendingEpollWait_matches_def PreparedEpollWait_into_pending_def Let_def)
  have e: "EpollWaitCompleted_events ?d = \<lparr>sl_ptr = 0x8000, sl_len = 24\<rparr>"
    by (simp add: EpollWaitCompleted_events_def EpollWaitCompleted_count_def cqe_u32_result_def from_failed_cqe_def
        SIZEOF_EpollEvent_def)
  have le: "rc_result ?r \<le> sqe_len (fst (PreparedEpollWait_into_pending ?p (RingId 1) (RequestId 2)))"
    by (simp add: PreparedEpollWait_into_pending_def Sqe_epoll_wait_ptr_def Sqe_user_data_def Let_def)
  have "EpollWaitCompleted_events ?d = empty_slice \<or> slice_within (EpollWaitCompleted_events ?d) ?b"
    using destinations_within_store [where b = ?b and ring = "RingId 1" and i = "RequestId 2" and epfd = "RawFd 5",
        THEN conjunct2, THEN conjunct2, THEN conjunct2] p d le by auto
  then show ?thesis using p d e by (auto simp: empty_slice_def)
qed

end
