(* ===== verification/Owned_Any.thy ===== *)
theory Owned_Any
  imports Owned_Msg Owned_Staged
begin

text \<open>
  One type for the kinds of request that end in a receipt: what \<open>OwnedSubmitter\<close> accepts in
  its \<open>push\<close> methods, the tickets these return and what redeeming a ticket gives. The store of
  a request is the list of the storages it owns. The union satisfies the ticket contract because
  every kind does.
\<close>

datatype 'b AnyPrepared =
    P_rw "'b Prepared"
  | P_zc "'b PreparedZc"
  | P_cancel PreparedCancel
  | P_msg PreparedMsgRing
  | P_socket PreparedDirectSocket
  | P_install PreparedFixedFdInstall
  | P_open "'b PreparedOpen"
  | P_direct_open "'b PreparedDirectOpen"
  | P_path "'b PreparedPathOp"
  | P_rename "('b, 'b) PreparedRename"
  | P_link "('b, 'b) PreparedLink"
  | P_openat2 "('b, 'b) PreparedOpenat2"
  | P_statx "('b, 'b) PreparedStatx"
  | P_timeout "'b PreparedTimeout"
  | P_epoll "'b PreparedEpollCtl"
  | P_bind "'b PreparedBind"
  | P_connect "'b PreparedConnect"
  | P_waitid "'b PreparedWaitId"
  | P_epoll_wait "'b PreparedEpollWait"
  | P_pipe "'b PreparedPipe"
  | P_futex_wait PreparedFutexWait
  | P_futex_wake PreparedFutexWake
  | P_futex_waitv "'b PreparedFutexWaitv"
  | P_files "'b PreparedFilesUpdate"
  | P_vectored "('b, 'b) PreparedVectored"
  | P_sendmsg "('b, 'b) PreparedSendmsg"
  | P_sendmsg_zc "('b, 'b) PreparedSendmsgZc"
  | P_recvmsg "('b, 'b) PreparedRecvmsg"

datatype 'b AnyTicket =
    T_rw "'b Pending"
  | T_zc "'b PendingZc"
  | T_cancel PendingCancel
  | T_msg PendingMsgRing
  | T_socket PendingDirectSocket
  | T_install PendingFixedFdInstall
  | T_open "'b PendingOpen"
  | T_direct_open "'b PendingDirectOpen"
  | T_path "'b PendingPathOp"
  | T_rename "('b, 'b) PendingRename"
  | T_link "('b, 'b) PendingLink"
  | T_openat2 "('b, 'b) PendingOpenat2"
  | T_statx "('b, 'b) PendingStatx"
  | T_timeout "'b PendingTimeout"
  | T_epoll "'b PendingEpollCtl"
  | T_bind "'b PendingBind"
  | T_connect "'b PendingConnect"
  | T_waitid "'b PendingWaitId"
  | T_epoll_wait "'b PendingEpollWait"
  | T_pipe "'b PendingPipe"
  | T_futex_wait PendingFutexWait
  | T_futex_wake PendingFutexWake
  | T_futex_waitv "'b PendingFutexWaitv"
  | T_files "'b PendingFilesUpdate"
  | T_vectored "('b, 'b) PendingVectored"
  | T_sendmsg "('b, 'b) PendingSendmsg"
  | T_sendmsg_zc "('b, 'b) PendingSendmsgZc"
  | T_recvmsg "('b, 'b) PendingRecvmsg"

datatype 'b AnyDone =
    D_rw "'b Completed"
  | D_zc "'b ZcCompleted"
  | D_cancel CancelDone
  | D_msg MsgRingDone
  | D_socket DirectSocketCreated
  | D_install FixedFdInstalled
  | D_open "'b Opened"
  | D_direct_open "'b DirectOpened"
  | D_path "'b PathOpCompleted"
  | D_rename "('b, 'b) RenameCompleted"
  | D_link "('b, 'b) LinkCompleted"
  | D_openat2 "('b, 'b) Opened2"
  | D_statx "('b, 'b) StatxCompleted"
  | D_timeout "'b TimeoutCompleted"
  | D_epoll "'b EpollCtlDone"
  | D_bind "'b BindDone"
  | D_connect "'b ConnectDone"
  | D_waitid "'b WaitIdCompleted"
  | D_epoll_wait "'b EpollWaitCompleted"
  | D_pipe "'b PipeCreated"
  | D_futex_wait FutexWaitDone
  | D_futex_wake FutexWakeDone
  | D_futex_waitv "'b FutexWaitvDone"
  | D_files "'b FilesUpdated"
  | D_vectored "('b, 'b) VectoredCompleted"
  | D_sendmsg "('b, 'b) SendmsgCompleted"
  | D_sendmsg_zc "('b, 'b) SendmsgZcCompleted"
  | D_recvmsg "('b, 'b) RecvmsgCompleted"

fun any_into_pending :: "'b AnyPrepared \<Rightarrow> RingId \<Rightarrow> RequestId \<Rightarrow> IoUringSqe \<times> 'b AnyTicket" where
  "any_into_pending (P_rw p) ring i = map_prod id T_rw (Prepared_into_pending p ring i)"
| "any_into_pending (P_zc p) ring i = map_prod id T_zc (PreparedZc_into_pending p ring i)"
| "any_into_pending (P_cancel p) ring i = map_prod id T_cancel (PreparedCancel_into_pending p ring i)"
| "any_into_pending (P_msg p) ring i = map_prod id T_msg (PreparedMsgRing_into_pending p ring i)"
| "any_into_pending (P_socket p) ring i = map_prod id T_socket (PreparedDirectSocket_into_pending p ring i)"
| "any_into_pending (P_install p) ring i = map_prod id T_install (PreparedFixedFdInstall_into_pending p ring i)"
| "any_into_pending (P_open p) ring i = map_prod id T_open (PreparedOpen_into_pending p ring i)"
| "any_into_pending (P_direct_open p) ring i = map_prod id T_direct_open (PreparedDirectOpen_into_pending p ring i)"
| "any_into_pending (P_path p) ring i = map_prod id T_path (PreparedPathOp_into_pending p ring i)"
| "any_into_pending (P_rename p) ring i = map_prod id T_rename (PreparedRename_into_pending p ring i)"
| "any_into_pending (P_link p) ring i = map_prod id T_link (PreparedLink_into_pending p ring i)"
| "any_into_pending (P_openat2 p) ring i = map_prod id T_openat2 (PreparedOpenat2_into_pending p ring i)"
| "any_into_pending (P_statx p) ring i = map_prod id T_statx (PreparedStatx_into_pending p ring i)"
| "any_into_pending (P_timeout p) ring i = map_prod id T_timeout (PreparedTimeout_into_pending p ring i)"
| "any_into_pending (P_epoll p) ring i = map_prod id T_epoll (PreparedEpollCtl_into_pending p ring i)"
| "any_into_pending (P_bind p) ring i = map_prod id T_bind (PreparedBind_into_pending p ring i)"
| "any_into_pending (P_connect p) ring i = map_prod id T_connect (PreparedConnect_into_pending p ring i)"
| "any_into_pending (P_waitid p) ring i = map_prod id T_waitid (PreparedWaitId_into_pending p ring i)"
| "any_into_pending (P_epoll_wait p) ring i = map_prod id T_epoll_wait (PreparedEpollWait_into_pending p ring i)"
| "any_into_pending (P_pipe p) ring i = map_prod id T_pipe (PreparedPipe_into_pending p ring i)"
| "any_into_pending (P_futex_wait p) ring i = map_prod id T_futex_wait (PreparedFutexWait_into_pending p ring i)"
| "any_into_pending (P_futex_wake p) ring i = map_prod id T_futex_wake (PreparedFutexWake_into_pending p ring i)"
| "any_into_pending (P_futex_waitv p) ring i = map_prod id T_futex_waitv (PreparedFutexWaitv_into_pending p ring i)"
| "any_into_pending (P_files p) ring i = map_prod id T_files (PreparedFilesUpdate_into_pending p ring i)"
| "any_into_pending (P_vectored p) ring i = map_prod id T_vectored (PreparedVectored_into_pending p ring i)"
| "any_into_pending (P_sendmsg p) ring i = map_prod id T_sendmsg (PreparedSendmsg_into_pending p ring i)"
| "any_into_pending (P_sendmsg_zc p) ring i = map_prod id T_sendmsg_zc (PreparedSendmsgZc_into_pending p ring i)"
| "any_into_pending (P_recvmsg p) ring i = map_prod id T_recvmsg (PreparedRecvmsg_into_pending p ring i)"

text \<open>A refused push rebuilds the request from the ticket, or, for a request that owns nothing, returns
  the copy it kept.\<close>

fun any_give_back :: "'b AnyPrepared \<Rightarrow> 'b AnyTicket \<Rightarrow> 'b AnyPrepared" where
  "any_give_back p (T_rw t) = P_rw (Pending_reclaim_unsubmitted t)"
| "any_give_back p (T_zc t) = P_zc (PendingZc_reclaim_unsubmitted t)"
| "any_give_back p (T_cancel t) = p"
| "any_give_back p (T_msg t) = p"
| "any_give_back p (T_socket t) = p"
| "any_give_back p (T_install t) = p"
| "any_give_back p (T_open t) = P_open (PendingOpen_reclaim_unsubmitted t)"
| "any_give_back p (T_direct_open t) = P_direct_open (PendingDirectOpen_reclaim_unsubmitted t)"
| "any_give_back p (T_path t) = P_path (PendingPathOp_reclaim_unsubmitted t)"
| "any_give_back p (T_rename t) = P_rename (PendingRename_reclaim_unsubmitted t)"
| "any_give_back p (T_link t) = P_link (PendingLink_reclaim_unsubmitted t)"
| "any_give_back p (T_openat2 t) = P_openat2 (PendingOpenat2_reclaim_unsubmitted t)"
| "any_give_back p (T_statx t) = P_statx (PendingStatx_reclaim_unsubmitted t)"
| "any_give_back p (T_timeout t) = P_timeout (PendingTimeout_reclaim_unsubmitted t)"
| "any_give_back p (T_epoll t) = P_epoll (PendingEpollCtl_reclaim_unsubmitted t)"
| "any_give_back p (T_bind t) = P_bind (PendingBind_reclaim_unsubmitted t)"
| "any_give_back p (T_connect t) = P_connect (PendingConnect_reclaim_unsubmitted t)"
| "any_give_back p (T_waitid t) = P_waitid (PendingWaitId_reclaim_unsubmitted t)"
| "any_give_back p (T_epoll_wait t) = P_epoll_wait (PendingEpollWait_reclaim_unsubmitted t)"
| "any_give_back p (T_pipe t) = P_pipe (PendingPipe_reclaim_unsubmitted t)"
| "any_give_back p (T_futex_wait t) = p"
| "any_give_back p (T_futex_wake t) = p"
| "any_give_back p (T_futex_waitv t) = P_futex_waitv (PendingFutexWaitv_reclaim_unsubmitted t)"
| "any_give_back p (T_files t) = P_files (PendingFilesUpdate_reclaim_unsubmitted t)"
| "any_give_back p (T_vectored t) = P_vectored (PendingVectored_reclaim_unsubmitted t)"
| "any_give_back p (T_sendmsg t) = P_sendmsg (PendingSendmsg_reclaim_unsubmitted t)"
| "any_give_back p (T_sendmsg_zc t) = P_sendmsg_zc (PendingSendmsgZc_reclaim_unsubmitted t)"
| "any_give_back p (T_recvmsg t) = P_recvmsg (PendingRecvmsg_reclaim_unsubmitted t)"

fun any_redeem :: "'b AnyTicket \<Rightarrow> Receipt \<Rightarrow> ('b AnyDone, 'b AnyTicket \<times> Receipt) result" where
  "any_redeem (T_rw t) r = map_err (map_prod T_rw id) (map_ok D_rw (Pending_redeem t r))"
| "any_redeem (T_zc t) r = map_err (map_prod T_zc id) (map_ok D_zc (PendingZc_redeem t r))"
| "any_redeem (T_cancel t) r = map_err (map_prod T_cancel id) (map_ok D_cancel (PendingCancel_redeem t r))"
| "any_redeem (T_msg t) r = map_err (map_prod T_msg id) (map_ok D_msg (PendingMsgRing_redeem t r))"
| "any_redeem (T_socket t) r = map_err (map_prod T_socket id) (map_ok D_socket (PendingDirectSocket_redeem t r))"
| "any_redeem (T_install t) r = map_err (map_prod T_install id) (map_ok D_install (PendingFixedFdInstall_redeem t r))"
| "any_redeem (T_open t) r = map_err (map_prod T_open id) (map_ok D_open (PendingOpen_redeem t r))"
| "any_redeem (T_direct_open t) r = map_err (map_prod T_direct_open id) (map_ok D_direct_open (PendingDirectOpen_redeem t r))"
| "any_redeem (T_path t) r = map_err (map_prod T_path id) (map_ok D_path (PendingPathOp_redeem t r))"
| "any_redeem (T_rename t) r = map_err (map_prod T_rename id) (map_ok D_rename (PendingRename_redeem t r))"
| "any_redeem (T_link t) r = map_err (map_prod T_link id) (map_ok D_link (PendingLink_redeem t r))"
| "any_redeem (T_openat2 t) r = map_err (map_prod T_openat2 id) (map_ok D_openat2 (PendingOpenat2_redeem t r))"
| "any_redeem (T_statx t) r = map_err (map_prod T_statx id) (map_ok D_statx (PendingStatx_redeem t r))"
| "any_redeem (T_timeout t) r = map_err (map_prod T_timeout id) (map_ok D_timeout (PendingTimeout_redeem t r))"
| "any_redeem (T_epoll t) r = map_err (map_prod T_epoll id) (map_ok D_epoll (PendingEpollCtl_redeem t r))"
| "any_redeem (T_bind t) r = map_err (map_prod T_bind id) (map_ok D_bind (PendingBind_redeem t r))"
| "any_redeem (T_connect t) r = map_err (map_prod T_connect id) (map_ok D_connect (PendingConnect_redeem t r))"
| "any_redeem (T_waitid t) r = map_err (map_prod T_waitid id) (map_ok D_waitid (PendingWaitId_redeem t r))"
| "any_redeem (T_epoll_wait t) r = map_err (map_prod T_epoll_wait id) (map_ok D_epoll_wait (PendingEpollWait_redeem t r))"
| "any_redeem (T_pipe t) r = map_err (map_prod T_pipe id) (map_ok D_pipe (PendingPipe_redeem t r))"
| "any_redeem (T_futex_wait t) r = map_err (map_prod T_futex_wait id) (map_ok D_futex_wait (PendingFutexWait_redeem t r))"
| "any_redeem (T_futex_wake t) r = map_err (map_prod T_futex_wake id) (map_ok D_futex_wake (PendingFutexWake_redeem t r))"
| "any_redeem (T_futex_waitv t) r = map_err (map_prod T_futex_waitv id) (map_ok D_futex_waitv (PendingFutexWaitv_redeem t r))"
| "any_redeem (T_files t) r = map_err (map_prod T_files id) (map_ok D_files (PendingFilesUpdate_redeem t r))"
| "any_redeem (T_vectored t) r = map_err (map_prod T_vectored id) (map_ok D_vectored (PendingVectored_redeem t r))"
| "any_redeem (T_sendmsg t) r = map_err (map_prod T_sendmsg id) (map_ok D_sendmsg (PendingSendmsg_redeem t r))"
| "any_redeem (T_sendmsg_zc t) r = map_err (map_prod T_sendmsg_zc id) (map_ok D_sendmsg_zc (PendingSendmsgZc_redeem t r))"
| "any_redeem (T_recvmsg t) r = map_err (map_prod T_recvmsg id) (map_ok D_recvmsg (PendingRecvmsg_redeem t r))"

fun any_ring :: "'b AnyTicket \<Rightarrow> RingId" where
  "any_ring (T_rw t) = pd_ring t"
| "any_ring (T_zc t) = zc_ring t"
| "any_ring (T_cancel t) = ca_ring t"
| "any_ring (T_msg t) = mr_ring t"
| "any_ring (T_socket t) = so_ring t"
| "any_ring (T_install t) = fi_ring t"
| "any_ring (T_open t) = top_ring t"
| "any_ring (T_direct_open t) = tdo_ring t"
| "any_ring (T_path t) = tp1_ring t"
| "any_ring (T_rename t) = trn_ring t"
| "any_ring (T_link t) = tln_ring t"
| "any_ring (T_openat2 t) = to2_ring t"
| "any_ring (T_statx t) = tsx_ring t"
| "any_ring (T_timeout t) = vt_ring (tti_0 t)"
| "any_ring (T_epoll t) = vt_ring (tep_0 t)"
| "any_ring (T_bind t) = st_ring (tbi_0 t)"
| "any_ring (T_connect t) = st_ring (tcn_0 t)"
| "any_ring (T_waitid t) = twi_ring t"
| "any_ring (T_epoll_wait t) = tew_ring t"
| "any_ring (T_pipe t) = tpi_ring t"
| "any_ring (T_futex_wait t) = tfw_ring t"
| "any_ring (T_futex_wake t) = tfk_ring t"
| "any_ring (T_futex_waitv t) = tfv_ring t"
| "any_ring (T_files t) = tfu_ring t"
| "any_ring (T_vectored t) = tvc_ring t"
| "any_ring (T_sendmsg t) = tsm_ring t"
| "any_ring (T_sendmsg_zc t) = tmz_ring t"
| "any_ring (T_recvmsg t) = trm_ring t"

fun any_id :: "'b AnyTicket \<Rightarrow> RequestId" where
  "any_id (T_rw t) = pd_id t"
| "any_id (T_zc t) = zc_id t"
| "any_id (T_cancel t) = ca_id t"
| "any_id (T_msg t) = mr_id t"
| "any_id (T_socket t) = so_id t"
| "any_id (T_install t) = fi_id t"
| "any_id (T_open t) = top_id t"
| "any_id (T_direct_open t) = tdo_id t"
| "any_id (T_path t) = tp1_id t"
| "any_id (T_rename t) = trn_id t"
| "any_id (T_link t) = tln_id t"
| "any_id (T_openat2 t) = to2_id t"
| "any_id (T_statx t) = tsx_id t"
| "any_id (T_timeout t) = vt_id (tti_0 t)"
| "any_id (T_epoll t) = vt_id (tep_0 t)"
| "any_id (T_bind t) = st_id (tbi_0 t)"
| "any_id (T_connect t) = st_id (tcn_0 t)"
| "any_id (T_waitid t) = twi_id t"
| "any_id (T_epoll_wait t) = tew_id t"
| "any_id (T_pipe t) = tpi_id t"
| "any_id (T_futex_wait t) = tfw_id t"
| "any_id (T_futex_wake t) = tfk_id t"
| "any_id (T_futex_waitv t) = tfv_id t"
| "any_id (T_files t) = tfu_id t"
| "any_id (T_vectored t) = tvc_id t"
| "any_id (T_sendmsg t) = tsm_id t"
| "any_id (T_sendmsg_zc t) = tmz_id t"
| "any_id (T_recvmsg t) = trm_id t"

fun prepared_store :: "'b AnyPrepared \<Rightarrow> 'b list" where
  "prepared_store (P_rw p) = [pp_buf p]"
| "prepared_store (P_zc p) = [pz_buf p]"
| "prepared_store (P_cancel p) = []"
| "prepared_store (P_msg p) = []"
| "prepared_store (P_socket p) = []"
| "prepared_store (P_install p) = []"
| "prepared_store (P_open p) = [op_storage (pop_path p)]"
| "prepared_store (P_direct_open p) = [op_storage (pdo_path p)]"
| "prepared_store (P_path p) = [op_storage (pp1_path p)]"
| "prepared_store (P_rename p) = [op_storage (prn_from p), op_storage (prn_to p)]"
| "prepared_store (P_link p) = [op_storage (pln_old p), op_storage (pln_new p)]"
| "prepared_store (P_openat2 p) = [op_storage (po2_path p), po2_how_store p]"
| "prepared_store (P_statx p) = [op_storage (psx_path p), psx_dest p]"
| "prepared_store (P_timeout p) = [vp_store (pti_0 p)]"
| "prepared_store (P_epoll p) = [vp_store (pep_0 p)]"
| "prepared_store (P_bind p) = [sp_store (pbi_0 p)]"
| "prepared_store (P_connect p) = [sp_store (pcn_0 p)]"
| "prepared_store (P_waitid p) = (case pwi_dest p of None \<Rightarrow> [] | Some x \<Rightarrow> [x])"
| "prepared_store (P_epoll_wait p) = [pew_store p]"
| "prepared_store (P_pipe p) = [ppi_dest p]"
| "prepared_store (P_futex_wait p) = []"
| "prepared_store (P_futex_wake p) = []"
| "prepared_store (P_futex_waitv p) = [pfv_array p]"
| "prepared_store (P_files p) = [pfu_store p]"
| "prepared_store (P_vectored p) = pv_bufs p @ [pv_vecs p]"
| "prepared_store (P_sendmsg p) = psm_bufs p @ [mr_store (psm_region p)]"
| "prepared_store (P_sendmsg_zc p) = pmz_bufs p @ [mr_store (pmz_region p)]"
| "prepared_store (P_recvmsg p) = prx_bufs p @ [mr_store (prx_region p)]"

fun ticket_store :: "'b AnyTicket \<Rightarrow> 'b list" where
  "ticket_store (T_rw t) = [pd_buf t]"
| "ticket_store (T_zc t) = [zc_buf t]"
| "ticket_store (T_cancel t) = []"
| "ticket_store (T_msg t) = []"
| "ticket_store (T_socket t) = []"
| "ticket_store (T_install t) = []"
| "ticket_store (T_open t) = [op_storage (top_path t)]"
| "ticket_store (T_direct_open t) = [op_storage (tdo_path t)]"
| "ticket_store (T_path t) = [op_storage (tp1_path t)]"
| "ticket_store (T_rename t) = [op_storage (trn_from t), op_storage (trn_to t)]"
| "ticket_store (T_link t) = [op_storage (tln_old t), op_storage (tln_new t)]"
| "ticket_store (T_openat2 t) = [op_storage (to2_path t), to2_how_store t]"
| "ticket_store (T_statx t) = [op_storage (tsx_path t), tsx_dest t]"
| "ticket_store (T_timeout t) = [vt_store (tti_0 t)]"
| "ticket_store (T_epoll t) = [vt_store (tep_0 t)]"
| "ticket_store (T_bind t) = [st_store (tbi_0 t)]"
| "ticket_store (T_connect t) = [st_store (tcn_0 t)]"
| "ticket_store (T_waitid t) = (case twi_dest t of None \<Rightarrow> [] | Some x \<Rightarrow> [x])"
| "ticket_store (T_epoll_wait t) = [tew_store t]"
| "ticket_store (T_pipe t) = [tpi_dest t]"
| "ticket_store (T_futex_wait t) = []"
| "ticket_store (T_futex_wake t) = []"
| "ticket_store (T_futex_waitv t) = [tfv_array t]"
| "ticket_store (T_files t) = [tfu_store t]"
| "ticket_store (T_vectored t) = tvc_bufs t @ [tvc_vecs t]"
| "ticket_store (T_sendmsg t) = tsm_bufs t @ [tsm_store t]"
| "ticket_store (T_sendmsg_zc t) = tmz_bufs t @ [tmz_store t]"
| "ticket_store (T_recvmsg t) = trm_bufs t @ [trm_store t]"

fun done_store :: "'b AnyDone \<Rightarrow> 'b list" where
  "done_store (D_rw d) = [cp_buf d]"
| "done_store (D_zc d) = [zd_buf d]"
| "done_store (D_cancel d) = []"
| "done_store (D_msg d) = []"
| "done_store (D_socket d) = []"
| "done_store (D_install d) = []"
| "done_store (D_open d) = [op_storage (dop_path d)]"
| "done_store (D_direct_open d) = [op_storage (ddo_path d)]"
| "done_store (D_path d) = [op_storage (dp1_path d)]"
| "done_store (D_rename d) = [op_storage (drn_from d), op_storage (drn_to d)]"
| "done_store (D_link d) = [op_storage (dln_old d), op_storage (dln_new d)]"
| "done_store (D_openat2 d) = [op_storage (do2_path d), do2_how_store d]"
| "done_store (D_statx d) = [op_storage (dsx_path d), dsx_dest d]"
| "done_store (D_timeout d) = [vd_store (dti_0 d)]"
| "done_store (D_epoll d) = [vd_store (dep_0 d)]"
| "done_store (D_bind d) = [sd_store (dbi_0 d)]"
| "done_store (D_connect d) = [sd_store (dcn_0 d)]"
| "done_store (D_waitid d) = (case dwi_dest d of None \<Rightarrow> [] | Some x \<Rightarrow> [x])"
| "done_store (D_epoll_wait d) = [dew_store d]"
| "done_store (D_pipe d) = [dpi_dest d]"
| "done_store (D_futex_wait d) = []"
| "done_store (D_futex_wake d) = []"
| "done_store (D_futex_waitv d) = [dfv_array d]"
| "done_store (D_files d) = [dfu_store d]"
| "done_store (D_vectored d) = dvc_bufs d @ [dvc_vecs d]"
| "done_store (D_sendmsg d) = dsm_bufs d @ [mr_store (dsm_region d)]"
| "done_store (D_sendmsg_zc d) = dmz_bufs d @ [mr_store (dmz_region d)]"
| "done_store (D_recvmsg d) = drm_bufs d @ [mr_store (drm_region d)]"

text \<open>Only the zero-copy kinds announce their result before they end.\<close>

fun any_record_sent ::
  "'b AnyTicket \<Rightarrow> PartialReceipt \<Rightarrow> ('b AnyTicket, 'b AnyTicket \<times> PartialReceipt) result" where
  "any_record_sent (T_zc t) n = map_err (map_prod T_zc id) (map_ok T_zc (record_sent t n))"
| "any_record_sent (T_sendmsg_zc t) n =
     map_err (map_prod T_sendmsg_zc id) (map_ok T_sendmsg_zc (PendingSendmsgZc_record_sent t n))"
| "any_record_sent t n = Err (t, n)"

abbreviation any_push where "any_push \<equiv> owned_push any_into_pending any_give_back"

lemmas any_stamped =
  rw.stamped zc.stamped cancel.stamped msg_ring.stamped direct_socket.stamped
  fixed_fd_install.stamped open_req.stamped direct_open.stamped path_op.stamped rename_req.stamped
  link_req.stamped openat2.stamped statx.stamped timeout_req.stamped epoll_ctl_req.stamped
  bind_req.stamped connect_req.stamped waitid_req.stamped epoll_wait_req.stamped pipe_req.stamped
  futex_wait_req.stamped futex_wake_req.stamped futex_waitv_req.stamped files_update_req.stamped vectored_req.stamped
  sendmsg_req.stamped sendmsg_zc_req.stamped recvmsg_req.stamped

lemmas any_given_back =
  rw.given_back zc.given_back open_req.given_back direct_open.given_back path_op.given_back rename_req.given_back link_req.given_back openat2.given_back statx.given_back timeout_req.given_back epoll_ctl_req.given_back bind_req.given_back connect_req.given_back waitid_req.given_back epoll_wait_req.given_back pipe_req.given_back futex_waitv_req.given_back files_update_req.given_back vectored_req.given_back sendmsg_req.given_back sendmsg_zc_req.given_back recvmsg_req.given_back

lemmas any_own =
  rw.redeem_own zc.redeem_own cancel.redeem_own msg_ring.redeem_own direct_socket.redeem_own
  fixed_fd_install.redeem_own open_req.redeem_own direct_open.redeem_own path_op.redeem_own rename_req.redeem_own
  link_req.redeem_own openat2.redeem_own statx.redeem_own timeout_req.redeem_own epoll_ctl_req.redeem_own
  bind_req.redeem_own connect_req.redeem_own waitid_req.redeem_own epoll_wait_req.redeem_own pipe_req.redeem_own
  futex_wait_req.redeem_own futex_wake_req.redeem_own futex_waitv_req.redeem_own files_update_req.redeem_own vectored_req.redeem_own
  sendmsg_req.redeem_own sendmsg_zc_req.redeem_own recvmsg_req.redeem_own

lemmas any_other =
  rw.redeem_other zc.redeem_other cancel.redeem_other msg_ring.redeem_other direct_socket.redeem_other
  fixed_fd_install.redeem_other open_req.redeem_other direct_open.redeem_other path_op.redeem_other rename_req.redeem_other
  link_req.redeem_other openat2.redeem_other statx.redeem_other timeout_req.redeem_other epoll_ctl_req.redeem_other
  bind_req.redeem_other connect_req.redeem_other waitid_req.redeem_other epoll_wait_req.redeem_other pipe_req.redeem_other
  futex_wait_req.redeem_other futex_wake_req.redeem_other futex_waitv_req.redeem_other files_update_req.redeem_other vectored_req.redeem_other
  sendmsg_req.redeem_other sendmsg_zc_req.redeem_other recvmsg_req.redeem_other

interpretation any: ticket any_into_pending any_give_back any_ring any_id
  prepared_store ticket_store any_redeem done_store
proof
  fix p :: "'b AnyPrepared" and ring i sqe t
  assume ip: "any_into_pending p ring i = (sqe, t)"
  show "sqe_user_data sqe = id_raw i \<and> any_ring t = ring \<and> any_id t = i \<and> ticket_store t = prepared_store p"
    using ip by (cases p) (auto simp: map_prod_def split: prod.splits dest!: any_stamped)
  show "any_give_back p t = p"
    using ip by (cases p) (auto simp: map_prod_def split: prod.splits dest: any_given_back)
next
  fix r :: Receipt and t :: "'b AnyTicket"
  assume "rc_ring r = any_ring t" "rc_id r = any_id t"
  then show "\<exists>d. any_redeem t r = Ok d \<and> done_store d = ticket_store t"
    by (cases t) (auto dest!: any_own)
next
  fix r :: Receipt and t :: "'b AnyTicket"
  assume "\<not> (rc_ring r = any_ring t \<and> rc_id r = any_id t)"
  then show "any_redeem t r = Err (t, r)"
    by (cases t) (simp_all add: any_other)
qed

section \<open>Requests that complete many times\<close>

datatype AnyPreparedStream =
    PS_recv PreparedMultishot
  | PS_read PreparedReadMultishot
  | PS_accept PreparedAccept
  | PS_direct PreparedDirectAccept

datatype AnyStream =
    S_recv MultishotRecv
  | S_read MultishotRead
  | S_accept MultishotAccept
  | S_direct DirectAccept

datatype AnyDelivery = V_data Delivery | V_accept Incoming | V_direct DirectIncoming

fun stream_into_pending :: "AnyPreparedStream \<Rightarrow> RingId \<Rightarrow> RequestId \<Rightarrow> IoUringSqe \<times> AnyStream" where
  "stream_into_pending (PS_recv p) ring i = map_prod id S_recv (PreparedMultishot_into_pending p ring i)"
| "stream_into_pending (PS_read p) ring i = map_prod id S_read (PreparedReadMultishot_into_pending p ring i)"
| "stream_into_pending (PS_accept p) ring i = map_prod id S_accept (PreparedAccept_into_pending p ring i)"
| "stream_into_pending (PS_direct p) ring i = map_prod id S_direct (PreparedDirectAccept_into_pending p ring i)"

fun stream_record :: "AnyStream \<Rightarrow> Event \<Rightarrow> (AnyDelivery, Event) result" where
  "stream_record (S_recv t) e = map_ok V_data (MultishotRecv_record t e)"
| "stream_record (S_read t) e = map_ok V_data (MultishotRead_record t e)"
| "stream_record (S_accept t) e = map_ok V_accept (MultishotAccept_record t e)"
| "stream_record (S_direct t) e = map_ok V_direct (DirectAccept_record t e)"

fun stream_ring :: "AnyStream \<Rightarrow> RingId" where
  "stream_ring (S_recv t) = ms_ring t"
| "stream_ring (S_read t) = mo_ring t"
| "stream_ring (S_accept t) = ac_ring t"
| "stream_ring (S_direct t) = da_ring t"

fun stream_id :: "AnyStream \<Rightarrow> RequestId" where
  "stream_id (S_recv t) = ms_id t"
| "stream_id (S_read t) = mo_id t"
| "stream_id (S_accept t) = ac_id t"
| "stream_id (S_direct t) = da_id t"

fun delivery_armed :: "AnyDelivery \<Rightarrow> bool" where
  "delivery_armed (V_data d) = is_armed (Delivery_armed d)"
| "delivery_armed (V_accept d) = is_armed (Incoming_armed d)"
| "delivery_armed (V_direct d) = is_armed (DirectIncoming_armed d)"

abbreviation stream_push where "stream_push \<equiv> owned_push stream_into_pending (\<lambda>p _. p)"

lemmas stream_stamped =
  recv_stream.stamped read_stream.stamped accept_stream.stamped direct_accept_stream.stamped

lemmas stream_other =
  recv_stream.record_other read_stream.record_other accept_stream.record_other direct_accept_stream.record_other

interpretation stream: armed_request stream_into_pending "\<lambda>p _. p" stream_ring stream_id
  "\<lambda>_. ()" "\<lambda>_. ()" stream_record delivery_armed
proof
  fix p ring i sqe t
  assume "stream_into_pending p ring i = (sqe, t)"
  then show "sqe_user_data sqe = id_raw i \<and> stream_ring t = ring \<and> stream_id t = i \<and> () = ()"
    by (cases p) (auto simp: map_prod_def split: prod.splits dest!: stream_stamped)
next
  fix e t
  assume "Event_ring e = stream_ring t" "Event_id e = stream_id t"
  then show "\<exists>d. stream_record t e = Ok d \<and> delivery_armed d = (\<not> Event_is_terminal e)"
    using recv_stream.record_own read_stream.record_own accept_stream.record_own direct_accept_stream.record_own
    by (cases t) fastforce+
next
  fix e t
  assume "\<not> (Event_ring e = stream_ring t \<and> Event_id e = stream_id t)"
  then show "stream_record t e = Err e" by (cases t) (simp_all add: stream_other)
qed simp

lemma any_record_sent_keeps:
  "any_record_sent t n = Ok t' \<Longrightarrow> any_ring t' = any_ring t \<and> any_id t' = any_id t \<and> ticket_store t' = ticket_store t"
  by (cases t) (auto simp: record_sent_def PendingSendmsgZc_record_sent_def split: if_splits)

end
