(* ===== verification/Owned_System.thy ===== *)
theory Owned_System
  imports Owned_Any
begin

text \<open>
  An application on an owned ring: it pushes requests of every kind and arms streams,
  submits, reaps events, records notices, redeems and drops tickets, in any order, while
  the kernel takes entries and posts completions. The safety of the layer is that a
  redeemed ticket's storage is no longer in the kernel's hands, and that a stream which
  reports its end has no entry left.
\<close>

section \<open>What the kernel does with owned entries\<close>

text \<open>
  \<open>emits F xs F'\<close>: with the entries \<open>F\<close> in flight the kernel posts the completions \<open>xs\<close>, each for
  an entry in flight; an entry whose completion lacks the \<open>MORE\<close> flag leaves flight.
\<close>

inductive emits :: "IoUringSqe list \<Rightarrow> Completion list \<Rightarrow> IoUringSqe list \<Rightarrow> bool" where
  em_none: "emits F [] F"
| em_more: "e \<in> set F \<Longrightarrow> user_data x = sqe_user_data e \<Longrightarrow> \<not> terminal x \<Longrightarrow> emits F xs F' \<Longrightarrow>
     emits F (x # xs) F'"
| em_last: "e \<in> set F \<Longrightarrow> user_data x = sqe_user_data e \<Longrightarrow> terminal x \<Longrightarrow> emits (remove1 e F) xs F' \<Longrightarrow>
     emits F (x # xs) F'"

definition kernel_acts :: "u32 \<Rightarrow> u32 \<Rightarrow> IoUringSqe list \<Rightarrow> shm \<Rightarrow> IoUringSqe list \<Rightarrow> shm \<Rightarrow> bool" where
  "kernel_acts smask cmask F m F' m' \<longleftrightarrow>
     kernel_takes m m' \<and> kernel_posts cmask m m' \<and>
     emits (F @ taken smask m m') (posted cmask m m') F'"

text \<open>Every \<open>io_uring_enter\<close> does no more than that; \<open>fl\<close> reads the entries in flight off the
  kernel's state.\<close>

definition kernel_honest ::
  "u32 \<Rightarrow> u32 \<Rightarrow> ('k \<Rightarrow> IoUringSqe list) \<Rightarrow> 'k enter_fn \<Rightarrow> bool" where
  "kernel_honest smask cmask fl enter \<longleftrightarrow>
     (\<forall>fd n c f k m. unat (m_cq_tail m - m_cq_head m) \<le> unat (cmask + 1) \<longrightarrow>
        (case enter fd n c f (k, m) of (ret, k', m') \<Rightarrow>
           kernel_acts smask cmask (fl k) m (fl k') m'))"

lemma emits_mset:
  "emits F xs F' \<Longrightarrow> image_mset sqe_user_data (mset F) =
     image_mset sqe_user_data (mset F') + image_mset user_data (mset (filter terminal xs))"
proof (induction rule: emits.induct)
  case (em_last e F x xs F')
  then have "image_mset sqe_user_data (mset F) =
      add_mset (sqe_user_data e) (image_mset sqe_user_data (mset (remove1 e F)))"
    by (metis image_mset_add_mset insert_DiffM mset_remove1 set_mset_mset)
  then show ?case using em_last by simp
qed simp_all

lemma kernel_acts_window:
  assumes "sub_inv (s, m)" "com_inv (c, m)" "kernel_acts (s_sq_mask s) (c_cq_mask c) F m F' m'"
  shows "sub_inv (s, m')" "com_inv (c, m')"
    and "mset (map sqe_user_data (sub_queued (s, m) @ F) @ map user_data (filter terminal (com_pending (c, m)))) =
         mset (map sqe_user_data (sub_queued (s, m') @ F') @ map user_data (filter terminal (com_pending (c, m'))))"
proof -
  have t: "kernel_takes m m'" and p: "kernel_posts (c_cq_mask c) m m'"
    and e: "emits (F @ taken (s_sq_mask s) m m') (posted (c_cq_mask c) m m') F'"
    using assms(3) by (auto simp: kernel_acts_def)
  have sq: "sq_wf (s_sq_mask s) (s_sq_tail_local s) m" and cq: "cq_wf (c_cq_mask c) (c_cq_head_local c) m"
    using assms(1,2) by (auto simp: sub_inv_def com_inv_def)
  show "sub_inv (s, m')" using kernel_takes_sq(1) [OF sq t] by (simp add: sub_inv_def)
  show "com_inv (c, m')" using kernel_posts_cq(1) [OF cq p] by (simp add: com_inv_def)
  have w: "sub_queued (s, m) = taken (s_sq_mask s) m m' @ sub_queued (s, m')"
    "com_pending (c, m') = com_pending (c, m) @ posted (c_cq_mask c) m m'"
    using taken_window [OF sq t] posted_window [OF cq p] by (simp_all add: sub_queued_def com_pending_def)
  show "mset (map sqe_user_data (sub_queued (s, m) @ F) @ map user_data (filter terminal (com_pending (c, m)))) =
      mset (map sqe_user_data (sub_queued (s, m') @ F') @ map user_data (filter terminal (com_pending (c, m'))))"
    using emits_mset [OF e] by (simp add: w add.commute)
qed

section \<open>The application\<close>

record ('k, 'b) owned_sys =
  y_sub :: OwnedSubmitter
  y_com :: OwnedCompleter
  y_k :: 'k
  y_mem :: shm
  y_tickets :: "'b AnyTicket list"
  y_streams :: "AnyStream list"
  y_receipts :: "Receipt list"
  y_notices :: "PartialReceipt list"

text \<open>
  A push is a step only while the id counter has not wrapped around, that is for the
  first \<open>2 ^ 64 - 1\<close> requests of a ring. Completions reach the queue only for entries the
  ring was given: the raw halves are not used, and no other ring sends messages here.
\<close>

inductive owned_step ::
  "'k enter_fn \<Rightarrow> ('k \<Rightarrow> IoUringSqe list) \<Rightarrow> ('k, 'b) owned_sys \<Rightarrow> ('k, 'b) owned_sys \<Rightarrow> bool"
  for enter fl where
  os_push: "ow_ids (y_sub s) \<noteq> 0 \<Longrightarrow> any_push p (y_sub s) (y_mem s) = (Ok t, ow, m) \<Longrightarrow>
     owned_step enter fl s (s\<lparr>y_sub := ow, y_mem := m, y_tickets := t # y_tickets s\<rparr>)"
| os_push_full: "ow_ids (y_sub s) \<noteq> 0 \<Longrightarrow> any_push (p :: 'b AnyPrepared) (y_sub s) (y_mem s) = (Err pe, ow, m) \<Longrightarrow>
     owned_step enter fl s (s\<lparr>y_sub := ow, y_mem := m\<rparr>)"
| os_arm: "ow_ids (y_sub s) \<noteq> 0 \<Longrightarrow> stream_push q (y_sub s) (y_mem s) = (Ok a, ow, m) \<Longrightarrow>
     owned_step enter fl s (s\<lparr>y_sub := ow, y_mem := m, y_streams := a # y_streams s\<rparr>)"
| os_arm_full: "ow_ids (y_sub s) \<noteq> 0 \<Longrightarrow> stream_push q (y_sub s) (y_mem s) = (Err qe, ow, m) \<Longrightarrow>
     owned_step enter fl s (s\<lparr>y_sub := ow, y_mem := m\<rparr>)"
| os_submit: "OwnedSubmitter_submit enter (y_sub s) (y_k s, y_mem s) = (r, ow, k, m) \<Longrightarrow>
     owned_step enter fl s (s\<lparr>y_sub := ow, y_k := k, y_mem := m\<rparr>)"
| os_submit_wait: "OwnedSubmitter_submit_and_wait enter n (y_sub s) (y_k s, y_mem s) = (r, ow, k, m) \<Longrightarrow>
     owned_step enter fl s (s\<lparr>y_sub := ow, y_k := k, y_mem := m\<rparr>)"
| os_wait: "OwnedCompleter_wait enter n (y_com s) (y_k s, y_mem s) = (u, k, m) \<Longrightarrow>
     owned_step enter fl s (s\<lparr>y_k := k, y_mem := m\<rparr>)"
| os_sync: "owned_step enter fl s (s\<lparr>y_mem := OwnedCompleter_sync (y_com s) (y_mem s)\<rparr>)"
| os_kernel: "kernel_acts (s_sq_mask (ow_inner (y_sub s))) (c_cq_mask (oc_inner (y_com s)))
       (fl (y_k s)) (y_mem s) (fl k) m \<Longrightarrow>
     owned_step enter fl s (s\<lparr>y_k := k, y_mem := m\<rparr>)"
| os_reap: "reap_event (y_com s) (y_mem s) = Some (Complete r, oc) \<Longrightarrow>
     owned_step enter fl s (s\<lparr>y_com := oc, y_receipts := r # y_receipts s\<rparr>)"
| os_reap_partial: "reap_event (y_com s) (y_mem s) = Some (Partial n, oc) \<Longrightarrow>
     owned_step enter fl s (s\<lparr>y_com := oc, y_notices := n # y_notices s\<rparr>)"
| os_record: "y_tickets s = ts @ t # ts' \<Longrightarrow> n \<in> set (y_notices s) \<Longrightarrow> any_record_sent t n = Ok t' \<Longrightarrow>
     owned_step enter fl s (s\<lparr>y_tickets := ts @ t' # ts', y_notices := remove1 n (y_notices s)\<rparr>)"
| os_deliver: "a \<in> set (y_streams s) \<Longrightarrow> n \<in> set (y_notices s) \<Longrightarrow> stream_record a (Partial n) = Ok d \<Longrightarrow>
     owned_step enter fl s (s\<lparr>y_notices := remove1 n (y_notices s)\<rparr>)"
| os_finish: "a \<in> set (y_streams s) \<Longrightarrow> r \<in> set (y_receipts s) \<Longrightarrow> stream_record a (Complete r) = Ok d \<Longrightarrow>
     owned_step enter fl s (s\<lparr>y_receipts := remove1 r (y_receipts s)\<rparr>)"
| os_redeem: "t \<in> set (y_tickets s) \<Longrightarrow> r \<in> set (y_receipts s) \<Longrightarrow> any_redeem t r = Ok d \<Longrightarrow>
     owned_step enter fl s (s\<lparr>y_tickets := remove1 t (y_tickets s), y_receipts := remove1 r (y_receipts s)\<rparr>)"
| os_drop_ticket: "owned_step enter fl s (s\<lparr>y_tickets := remove1 t (y_tickets s)\<rparr>)"
| os_drop_stream: "owned_step enter fl s (s\<lparr>y_streams := remove1 a (y_streams s)\<rparr>)"
| os_drop_notice: "owned_step enter fl s (s\<lparr>y_notices := remove1 n (y_notices s)\<rparr>)"
| os_drop_receipt: "owned_step enter fl s (s\<lparr>y_receipts := remove1 r (y_receipts s)\<rparr>)"

inductive owned_reach ::
  "'k enter_fn \<Rightarrow> ('k \<Rightarrow> IoUringSqe list) \<Rightarrow> ('k, 'b) owned_sys \<Rightarrow> ('k, 'b) owned_sys \<Rightarrow> bool"
  for enter fl where
  or_start: "owned_reach enter fl s s"
| or_step: "owned_reach enter fl s s' \<Longrightarrow> owned_step enter fl s' s'' \<Longrightarrow> owned_reach enter fl s s''"

text \<open>
  Every id the ring has minted and not finished with is in one place: its entry is queued
  or in flight, or its last completion is pending, or its receipt is held.
\<close>

definition minted :: "u64 \<Rightarrow> u64 \<Rightarrow> bool" where
  "minted n i \<longleftrightarrow> i \<noteq> 0 \<and> (n = 0 \<or> i < n)"

definition live_ids :: "('k \<Rightarrow> IoUringSqe list) \<Rightarrow> ('k, 'b) owned_sys \<Rightarrow> u64 list" where
  "live_ids fl s =
     (map sqe_user_data (sub_queued (ow_inner (y_sub s), y_mem s) @ fl (y_k s)) @
      map user_data (filter terminal (owned_pending (y_com s) (y_mem s)))) @
     map (id_raw \<circ> rc_id) (y_receipts s)"

definition owned_inv :: "('k \<Rightarrow> IoUringSqe list) \<Rightarrow> ('k, 'b) owned_sys \<Rightarrow> bool" where
  "owned_inv fl s \<longleftrightarrow>
     sub_inv (ow_inner (y_sub s), y_mem s) \<and> com_inv (oc_inner (y_com s), y_mem s) \<and>
     ow_ring (y_sub s) = oc_ring (y_com s) \<and>
     (\<forall>r\<in>set (y_receipts s). rc_ring r = oc_ring (y_com s)) \<and>
     (\<forall>t\<in>set (y_tickets s). any_ring t = ow_ring (y_sub s) \<and> minted (ow_ids (y_sub s)) (id_raw (any_id t))) \<and>
     (\<forall>a\<in>set (y_streams s). stream_ring a = ow_ring (y_sub s) \<and> minted (ow_ids (y_sub s)) (id_raw (stream_id a))) \<and>
     distinct (map any_id (y_tickets s) @ map stream_id (y_streams s)) \<and>
     distinct (live_ids fl s) \<and> (\<forall>i\<in>set (live_ids fl s). minted (ow_ids (y_sub s)) i)"

lemma minted_step: "n \<noteq> 0 \<Longrightarrow> minted (n + 1) i \<longleftrightarrow> i = n \<or> minted n i"
proof -
  assume n: "n \<noteq> 0"
  show ?thesis
  proof (cases "n + 1 = 0")
    case True
    then have "n = - 1" by (simp add: add_eq_0_iff2)
    then show ?thesis using n using word_order.not_eq_extremum [of i] by (auto simp: minted_def)
  next
    case False
    then have "unat (n + 1) = Suc (unat n)" using unatSuc [of n] by (simp add: add.commute)
    then have "i < n + 1 \<longleftrightarrow> i = n \<or> i < n" by (auto simp: word_less_nat_alt word_unat_eq_iff)
    then show ?thesis using n False by (auto simp: minted_def)
  qed
qed

lemma not_minted [simp]: "n \<noteq> 0 \<Longrightarrow> \<not> minted n n"
  by (simp add: minted_def)

lemma owned_inv_kernel:
  assumes inv: "owned_inv fl s" and ids: "mset (live_ids fl s') = mset (live_ids fl s)"
    and sub: "sub_inv (ow_inner (y_sub s'), y_mem s')" and com: "com_inv (oc_inner (y_com s'), y_mem s')"
    and fr: "ow_ring (y_sub s') = ow_ring (y_sub s)" "ow_ids (y_sub s') = ow_ids (y_sub s)"
      "oc_ring (y_com s') = oc_ring (y_com s)" "y_tickets s' = y_tickets s" "y_streams s' = y_streams s"
      "\<forall>r\<in>set (y_receipts s'). rc_ring r = oc_ring (y_com s)"
  shows "owned_inv fl s'"
  using inv sub com fr mset_eq_imp_distinct_iff [OF ids] mset_eq_setD [OF ids]
  by (simp add: owned_inv_def)

text \<open>Submitting, waiting and the kernel's own moves.\<close>

lemma acts_keeps:
  assumes inv: "owned_inv fl s"
    and acts: "kernel_acts (s_sq_mask (ow_inner (y_sub s))) (c_cq_mask (oc_inner (y_com s)))
       (fl (y_k s)) (y_mem s) (fl k) m"
  shows "owned_inv fl (s\<lparr>y_k := k, y_mem := m\<rparr>)"
proof -
  have "sub_inv (ow_inner (y_sub s), y_mem s)" "com_inv (oc_inner (y_com s), y_mem s)"
    using inv by (auto simp: owned_inv_def)
  note w = kernel_acts_window [OF this acts]
  show ?thesis
    by (rule owned_inv_kernel [OF inv]) (use w inv in \<open>simp_all add: live_ids_def owned_inv_def\<close>)
qed

lemma flush_keeps:
  "owned_inv fl s \<Longrightarrow> owned_inv fl (s\<lparr>y_mem := Submitter_flush_sq_tail (ow_inner (y_sub s)) (y_mem s)\<rparr>)"
  by (rule owned_inv_kernel, assumption)
    (simp_all add: live_ids_def owned_inv_def sub_inv_def sub_queued_def com_inv_def com_pending_def sq_wf_flush)

lemma sync_keeps:
  "owned_inv fl s \<Longrightarrow> owned_inv fl (s\<lparr>y_mem := Completer_sync_cq (oc_inner (y_com s)) (y_mem s)\<rparr>)"
  by (rule owned_inv_kernel, assumption)
    (simp_all add: live_ids_def owned_inv_def sub_inv_def sub_queued_def com_inv_def com_pending_def cq_wf_release)

lemma submitted_keeps:
  "owned_inv fl s \<Longrightarrow>
   owned_inv fl (s\<lparr>y_sub := (y_sub s)\<lparr>ow_inner := (ow_inner (y_sub s))\<lparr>s_sq_submitted := n\<rparr>\<rparr>\<rparr>)"
  by (rule owned_inv_kernel, assumption) (simp_all add: live_ids_def owned_inv_def sub_inv_def sub_queued_def)

lemma enter_keeps:
  assumes "owned_inv fl s" "kernel_honest (s_sq_mask (ow_inner (y_sub s))) (c_cq_mask (oc_inner (y_com s))) fl enter"
    and "io_uring_enter enter fd n c f (y_k s, y_mem s) = (r, k, m)"
  shows "owned_inv fl (s\<lparr>y_k := k, y_mem := m\<rparr>)"
proof -
  have "unat (m_cq_tail (y_mem s) - m_cq_head (y_mem s)) \<le> unat (c_cq_mask (oc_inner (y_com s)) + 1)"
    using assms(1) by (simp add: owned_inv_def com_inv_def cq_wf_def)
  moreover obtain ret where "enter fd n c f (y_k s, y_mem s) = (ret, k, m)"
    using assms(3) by (auto simp: io_uring_enter_def split: prod.splits)
  ultimately have "kernel_acts (s_sq_mask (ow_inner (y_sub s))) (c_cq_mask (oc_inner (y_com s)))
      (fl (y_k s)) (y_mem s) (fl k) m"
    using assms(2) unfolding kernel_honest_def by (metis (no_types, lifting) case_prod_conv)
  then show ?thesis by (rule acts_keeps [OF assms(1)])
qed

text \<open>A push of any request that carries its id.\<close>

context stamped_request
begin

lemma push_inv:
  assumes inv: "owned_inv fl s" and n: "ow_ids (y_sub s) \<noteq> 0"
    and push: "owned_push into_pending give_back p (y_sub s) (y_mem s) = (res, ow, m)"
  shows "owned_inv fl (s\<lparr>y_sub := ow, y_mem := m\<rparr>)"
    and "s_sq_mask (ow_inner ow) = s_sq_mask (ow_inner (y_sub s))"
    and "res = Ok t \<Longrightarrow> t_ring t = ow_ring ow \<and> minted (ow_ids ow) (id_raw (t_id t)) \<and>
      t_id t \<notin> any_id ` set (y_tickets s) \<and> t_id t \<notin> stream_id ` set (y_streams s)"
proof -
  have sub: "sub_inv (ow_inner (y_sub s), y_mem s)" using inv by (simp add: owned_inv_def)
  have "owned_inv fl (s\<lparr>y_sub := ow, y_mem := m\<rparr>) \<and> s_sq_mask (ow_inner ow) = s_sq_mask (ow_inner (y_sub s)) \<and>
    (\<forall>t. res = Ok t \<longrightarrow> t_ring t = ow_ring ow \<and> minted (ow_ids ow) (id_raw (t_id t)) \<and>
      t_id t \<notin> any_id ` set (y_tickets s) \<and> t_id t \<notin> stream_id ` set (y_streams s))"
  proof (cases rule: push_cases [OF sub, of p])
    case (1 t sqe s' m')
    then have eq: "res = Ok t" "ow = (y_sub s)\<lparr>ow_inner := s', ow_ids := ow_ids (y_sub s) + 1\<rparr>" "m = m'"
      using push by auto
    note fr = Submitter_push_frame [OF 1(2)]
    have com: "com_inv (oc_inner (y_com s), m') = com_inv (oc_inner (y_com s), y_mem s)"
      "owned_pending (y_com s) m' = owned_pending (y_com s) (y_mem s)"
      using fr by (simp_all add: com_inv_def cq_wf_def com_pending_def cq_window_def)
    have ids: "mset (live_ids fl (s\<lparr>y_sub := ow, y_mem := m\<rparr>)) = mset (ow_ids (y_sub s) # live_ids fl s)"
      using 1(4,5) com(2) by (simp add: live_ids_def eq)
    have "\<not> minted (ow_ids (y_sub s)) (id_raw (t_id t))" using n 1(7) by simp
    moreover have "\<forall>t\<in>set (y_tickets s). minted (ow_ids (y_sub s)) (id_raw (any_id t))"
      "\<forall>a\<in>set (y_streams s). minted (ow_ids (y_sub s)) (id_raw (stream_id a))"
      using inv by (simp_all add: owned_inv_def)
    ultimately have "t_id t \<notin> any_id ` set (y_tickets s)" "t_id t \<notin> stream_id ` set (y_streams s)"
      by (metis imageE)+
    moreover have "ow_ids (y_sub s) \<notin> set (live_ids fl s)" using inv n by (auto simp: owned_inv_def)
    moreover have "s_sq_mask (ow_inner ow) = s_sq_mask (ow_inner (y_sub s))" using fr eq by simp
    moreover have "t_ring t = ow_ring ow" "minted (ow_ids ow) (id_raw (t_id t))"
      using 1 eq minted_step [OF n] by simp_all
    ultimately show ?thesis
      using inv 1(3) com minted_step [OF n] mset_eq_imp_distinct_iff [OF ids] mset_eq_setD [OF ids] eq
      by (simp add: owned_inv_def)
  next
    case 2
    then have "ow = (y_sub s)\<lparr>ow_ids := ow_ids (y_sub s) + 1\<rparr>" "m = y_mem s" "\<exists>e. res = Err e"
      using push by auto
    then show ?thesis using inv minted_step [OF n] by (auto simp: owned_inv_def live_ids_def)
  qed
  then show "owned_inv fl (s\<lparr>y_sub := ow, y_mem := m\<rparr>)"
    "s_sq_mask (ow_inner ow) = s_sq_mask (ow_inner (y_sub s))"
    "res = Ok t \<Longrightarrow> t_ring t = ow_ring ow \<and> minted (ow_ids ow) (id_raw (t_id t)) \<and>
      t_id t \<notin> any_id ` set (y_tickets s) \<and> t_id t \<notin> stream_id ` set (y_streams s)"
    by blast+
qed

end

lemma push_keeps:
  assumes "owned_inv fl s" "ow_ids (y_sub s) \<noteq> 0" "any_push p (y_sub s) (y_mem s) = (Ok t, ow, m)"
  shows "owned_inv fl (s\<lparr>y_sub := ow, y_mem := m, y_tickets := t # y_tickets s\<rparr>)"
  using any.push_inv(1) [OF assms] any.push_inv(3) [OF assms refl] by (simp add: owned_inv_def live_ids_def)

lemma arm_keeps:
  assumes "owned_inv fl s" "ow_ids (y_sub s) \<noteq> 0" "stream_push q (y_sub s) (y_mem s) = (Ok a, ow, m)"
  shows "owned_inv fl (s\<lparr>y_sub := ow, y_mem := m, y_streams := a # y_streams s\<rparr>)"
  using stream.push_inv(1) [OF assms] stream.push_inv(3) [OF assms refl]
  by (auto simp: owned_inv_def live_ids_def)

lemma reap_keeps:
  assumes inv: "owned_inv fl s" and ev: "reap_event (y_com s) (y_mem s) = Some (e, oc)"
  shows "owned_inv fl (s\<lparr>y_com := oc,
    y_receipts := (case e of Complete r \<Rightarrow> r # y_receipts s | Partial _ \<Rightarrow> y_receipts s), y_notices := ns\<rparr>)"
proof -
  have com: "com_inv (oc_inner (y_com s), y_mem s)" using inv by (simp add: owned_inv_def)
  show ?thesis
  proof (cases rule: reap_event_cases [OF com])
    case 1
    then show ?thesis using ev by simp
  next
    case (2 x e' oc')
    then have eq: "e' = e" "oc' = oc" using ev by auto
    let ?rs = "case e of Complete r \<Rightarrow> r # y_receipts s | Partial _ \<Rightarrow> y_receipts s"
    let ?s' = "s\<lparr>y_com := oc, y_receipts := ?rs, y_notices := ns\<rparr>"
    have f: "sub_inv (ow_inner (y_sub s), y_mem s)" "\<forall>r\<in>set (y_receipts s). rc_ring r = oc_ring (y_com s)"
      using inv by (simp_all add: owned_inv_def)
    have rs: "?rs = (if terminal x then receipt_of (oc_ring (y_com s)) x # y_receipts s else y_receipts s)"
      using 2(7,8) eq(1) by (cases "terminal x") auto
    have ids: "mset (live_ids fl ?s') = mset (live_ids fl s)"
      using 2(2) eq(2) by (simp add: live_ids_def rs receipt_of_def)
    show ?thesis
      by (rule owned_inv_kernel [OF inv ids]) (use f 2(3,4) eq(2) in \<open>simp_all add: rs receipt_of_def\<close>)
  qed
qed

lemma submit_effect:
  assumes "OwnedSubmitter_submit enter ow (k, m) = (r, ow', k', m') \<or>
    OwnedSubmitter_submit_and_wait enter n ow (k, m) = (r, ow', k', m')"
  shows "\<exists>x. ow' = ow\<lparr>ow_inner := (ow_inner ow)\<lparr>s_sq_submitted := x\<rparr>\<rparr>"
    and "(k', m') = (k, Submitter_flush_sq_tail (ow_inner ow) m) \<or>
      (\<exists>fd n c f res. io_uring_enter enter fd n c f (k, Submitter_flush_sq_tail (ow_inner ow) m) = (res, k', m'))"
proof -
  have same: "\<exists>x. ow = ow\<lparr>ow_inner := (ow_inner ow)\<lparr>s_sq_submitted := x\<rparr>\<rparr>"
    by (rule exI [of _ "s_sq_submitted (ow_inner ow)"]) simp
  show "\<exists>x. ow' = ow\<lparr>ow_inner := (ow_inner ow)\<lparr>s_sq_submitted := x\<rparr>\<rparr>"
    using assms same
    by (auto simp: OwnedSubmitter_submit_def OwnedSubmitter_submit_and_wait_def Submitter_submit_def
        Submitter_submit_and_wait_def Let_def simp del: flush_defs split: prod.splits result.splits if_splits)
  show "(k', m') = (k, Submitter_flush_sq_tail (ow_inner ow) m) \<or>
      (\<exists>fd n c f res. io_uring_enter enter fd n c f (k, Submitter_flush_sq_tail (ow_inner ow) m) = (res, k', m'))"
    using assms
    by (auto simp: OwnedSubmitter_submit_def OwnedSubmitter_submit_and_wait_def Submitter_submit_def
        Submitter_submit_and_wait_def Let_def simp del: flush_defs split: prod.splits result.splits if_splits)
qed

lemma submit_keeps:
  assumes inv: "owned_inv fl s"
    and ho: "kernel_honest (s_sq_mask (ow_inner (y_sub s))) (c_cq_mask (oc_inner (y_com s))) fl enter"
    and sub: "OwnedSubmitter_submit enter (y_sub s) (y_k s, y_mem s) = (r, ow, k, m) \<or>
      OwnedSubmitter_submit_and_wait enter n (y_sub s) (y_k s, y_mem s) = (r, ow, k, m)"
  shows "owned_inv fl (s\<lparr>y_sub := ow, y_k := k, y_mem := m\<rparr>) \<and>
    s_sq_mask (ow_inner ow) = s_sq_mask (ow_inner (y_sub s))"
proof -
  obtain x where ow: "ow = (y_sub s)\<lparr>ow_inner := (ow_inner (y_sub s))\<lparr>s_sq_submitted := x\<rparr>\<rparr>"
    using submit_effect(1) [OF sub] by blast
  let ?m1 = "Submitter_flush_sq_tail (ow_inner (y_sub s)) (y_mem s)"
  have f: "owned_inv fl (s\<lparr>y_mem := ?m1\<rparr>)" by (rule flush_keeps [OF inv])
  have "owned_inv fl (s\<lparr>y_k := k, y_mem := m\<rparr>)"
    using submit_effect(2) [OF sub]
  proof
    assume "(k, m) = (y_k s, ?m1)"
    then show ?thesis using f by simp
  next
    assume "\<exists>fd n c f res. io_uring_enter enter fd n c f (y_k s, ?m1) = (res, k, m)"
    then show ?thesis using enter_keeps [OF f, of enter] ho by auto
  qed
  from submitted_keeps [OF this, of x] have sk: "owned_inv fl (s\<lparr>y_k := k, y_mem := m, y_sub := ow\<rparr>)"
    by (simp add: ow)
  have eq: "s\<lparr>y_k := k, y_mem := m, y_sub := ow\<rparr> = s\<lparr>y_sub := ow, y_k := k, y_mem := m\<rparr>" by simp
  show ?thesis using sk unfolding eq by (simp add: ow)
qed

lemma wait_keeps:
  assumes inv: "owned_inv fl s"
    and ho: "kernel_honest (s_sq_mask (ow_inner (y_sub s))) (c_cq_mask (oc_inner (y_com s))) fl enter"
    and w: "OwnedCompleter_wait enter n (y_com s) (y_k s, y_mem s) = (u, k, m)"
  shows "owned_inv fl (s\<lparr>y_k := k, y_mem := m\<rparr>)"
proof -
  let ?m1 = "Completer_sync_cq (oc_inner (y_com s)) (y_mem s)"
  have "\<exists>res. io_uring_enter enter (c_fd (oc_inner (y_com s))) 0 n ENTER_GETEVENTS (y_k s, ?m1) = (res, k, m)"
    using w by (auto simp: OwnedCompleter_wait_def Completer_wait_def Let_def simp del: flush_defs
        split: prod.splits result.splits)
  then show ?thesis using enter_keeps [OF sync_keeps [OF inv], of enter] ho by auto
qed

lemma owned_inv_sub: "owned_inv fl s \<Longrightarrow> sub_inv (ow_inner (y_sub s), y_mem s)"
  by (simp add: owned_inv_def)

lemma distinct_append_subset:
  "distinct (xs @ ys) \<Longrightarrow> distinct zs \<Longrightarrow> set zs \<subseteq> set ys \<Longrightarrow> distinct (xs @ zs)"
  by auto

lemma remove1_map_subset:
  "distinct (map f xs) \<Longrightarrow> distinct (map f (remove1 x xs)) \<and> set (map f (remove1 x xs)) \<subseteq> set (map f xs)"
  using distinct_remove1_map [of f xs x] by (cases "x \<in> set xs") (auto simp: remove1_idem)

lemma drop_ticket_keeps:
  assumes "owned_inv fl s"
  shows "owned_inv fl (s\<lparr>y_tickets := remove1 t (y_tickets s)\<rparr>)"
proof -
  have d: "distinct (map stream_id (y_streams s) @ map any_id (y_tickets s))"
    using assms by (auto simp: owned_inv_def)
  then have "distinct (map stream_id (y_streams s) @ map any_id (remove1 t (y_tickets s)))"
    using remove1_map_subset [of any_id "y_tickets s" t] by (intro distinct_append_subset [OF d]) simp_all
  then have "distinct (map any_id (remove1 t (y_tickets s)) @ map stream_id (y_streams s))" by auto
  moreover have "\<forall>x\<in>set (remove1 t (y_tickets s)). any_ring x = ow_ring (y_sub s) \<and> minted (ow_ids (y_sub s)) (id_raw (any_id x))"
    using assms set_remove1_subset unfolding owned_inv_def by fast
  ultimately show ?thesis using assms unfolding owned_inv_def live_ids_def by simp
qed

lemma drop_stream_keeps:
  assumes "owned_inv fl s"
  shows "owned_inv fl (s\<lparr>y_streams := remove1 a (y_streams s)\<rparr>)"
proof -
  have d: "distinct (map any_id (y_tickets s) @ map stream_id (y_streams s))"
    using assms by (simp add: owned_inv_def)
  then have "distinct (map any_id (y_tickets s) @ map stream_id (remove1 a (y_streams s)))"
    using remove1_map_subset [of stream_id "y_streams s" a] by (intro distinct_append_subset [OF d]) simp_all
  moreover have "\<forall>x\<in>set (remove1 a (y_streams s)). stream_ring x = ow_ring (y_sub s) \<and> minted (ow_ids (y_sub s)) (id_raw (stream_id x))"
    using assms set_remove1_subset unfolding owned_inv_def by fast
  ultimately show ?thesis using assms unfolding owned_inv_def live_ids_def by simp
qed

lemma notices_keep: "owned_inv fl s \<Longrightarrow> owned_inv fl (s\<lparr>y_notices := ns\<rparr>)"
  by (simp add: owned_inv_def live_ids_def)

lemma drop_receipt_keeps:
  assumes "owned_inv fl s"
  shows "owned_inv fl (s\<lparr>y_receipts := remove1 r (y_receipts s)\<rparr>)"
proof -
  let ?s = "s\<lparr>y_receipts := remove1 r (y_receipts s)\<rparr>"
  let ?f = "id_raw \<circ> rc_id"
  obtain xs where xs: "live_ids fl s = xs @ map ?f (y_receipts s)"
    "live_ids fl ?s = xs @ map ?f (remove1 r (y_receipts s))" by (simp add: live_ids_def)
  have d: "distinct (live_ids fl s)" using assms by (simp add: owned_inv_def)
  then have sub: "distinct (map ?f (remove1 r (y_receipts s)))"
    "set (map ?f (remove1 r (y_receipts s))) \<subseteq> set (map ?f (y_receipts s))"
    using remove1_map_subset [of ?f "y_receipts s" r] unfolding xs by (simp_all del: map_map)
  have "distinct (live_ids fl ?s)" using d sub unfolding xs by (rule distinct_append_subset)
  moreover have "\<forall>i\<in>set (live_ids fl ?s). minted (ow_ids (y_sub s)) i"
    using assms sub(2) unfolding owned_inv_def xs set_append by blast
  moreover have "\<forall>x\<in>set (remove1 r (y_receipts s)). rc_ring x = oc_ring (y_com s)"
    using assms set_remove1_subset unfolding owned_inv_def by fastforce
  ultimately show ?thesis using assms unfolding owned_inv_def by simp
qed

lemma record_keeps:
  assumes "owned_inv fl s" "y_tickets s = ts @ t # ts'" "any_record_sent t n = Ok t'"
  shows "owned_inv fl (s\<lparr>y_tickets := ts @ t' # ts', y_notices := ns\<rparr>)"
  using assms(1,2) any_record_sent_keeps [OF assms(3)] by (simp add: owned_inv_def live_ids_def)

abbreviation sys_masks :: "('k, 'b) owned_sys \<Rightarrow> u32 \<times> u32" where
  "sys_masks s \<equiv> (s_sq_mask (ow_inner (y_sub s)), c_cq_mask (oc_inner (y_com s)))"

lemma reap_mask:
  "reap_event oc m = Some (e, oc') \<Longrightarrow> c_cq_mask (oc_inner oc') = c_cq_mask (oc_inner oc)"
  by (auto simp: reap_event_def Let_def Completer_complete_Some split: option.splits if_splits)

lemma owned_step_inv:
  assumes "owned_step enter fl s s'" "owned_inv fl s"
    and "kernel_honest (s_sq_mask (ow_inner (y_sub s))) (c_cq_mask (oc_inner (y_com s))) fl enter"
  shows "owned_inv fl s' \<and> sys_masks s' = sys_masks s"
  using assms
proof (induction rule: owned_step.induct)
  case (os_push s p t ow m)
  then show ?case using push_keeps [OF os_push(3,1,2)] any.push_inv(2) [OF os_push(3,1,2)] by simp
next
  case (os_push_full s p pe ow m)
  then show ?case using any.push_inv(1,2) [OF os_push_full(3,1,2)] by simp
next
  case (os_arm s q a ow m)
  then show ?case using arm_keeps [OF os_arm(3,1,2)] stream.push_inv(2) [OF os_arm(3,1,2)] by simp
next
  case (os_arm_full s q qe ow m)
  then show ?case using stream.push_inv(1,2) [OF os_arm_full(3,1,2)] by simp
next
  case (os_submit s r ow k m)
  then show ?case using submit_keeps [OF os_submit(2,3) disjI1 [OF os_submit(1)]] by simp
next
  case (os_submit_wait n s r ow k m)
  then show ?case using submit_keeps [OF os_submit_wait(2,3) disjI2 [OF os_submit_wait(1)]] by simp
next
  case (os_wait n s u k m)
  then show ?case using wait_keeps [OF os_wait(2,3)] by simp
next
  case (os_sync s)
  then show ?case using sync_keeps by (simp add: OwnedCompleter_sync_def del: flush_defs)
next
  case (os_kernel s k m)
  then show ?case using acts_keeps by simp
next
  case (os_reap s r oc)
  then show ?case using reap_keeps [OF os_reap(2,1), of "y_notices s"] reap_mask [OF os_reap(1)] by simp
next
  case (os_reap_partial s n oc)
  then show ?case using reap_keeps [OF os_reap_partial(2,1), of "n # y_notices s"] reap_mask [OF os_reap_partial(1)] by simp
next
  case (os_record s ts t ts' n t')
  then show ?case using record_keeps [OF os_record(4,1,3)] by simp
next
  case (os_deliver a s n d)
  then show ?case using notices_keep by simp
next
  case (os_finish a s r d)
  then show ?case using drop_receipt_keeps by simp
next
  case (os_redeem t s r d)
  then show ?case using drop_receipt_keeps [OF drop_ticket_keeps [OF os_redeem(4)], of r t] by simp
next
  case (os_drop_ticket s t)
  then show ?case using drop_ticket_keeps by simp
next
  case (os_drop_stream s a)
  then show ?case using drop_stream_keeps by simp
next
  case (os_drop_notice s n)
  then show ?case using notices_keep by simp
next
  case (os_drop_receipt s r)
  then show ?case using drop_receipt_keeps by simp
qed

lemma owned_reach_inv:
  assumes "owned_reach enter fl s s'" "owned_inv fl s"
    and "kernel_honest (s_sq_mask (ow_inner (y_sub s))) (c_cq_mask (oc_inner (y_com s))) fl enter"
  shows "owned_inv fl s' \<and> sys_masks s' = sys_masks s"
  using assms
proof (induction rule: owned_reach.induct)
  case (or_step s s' s'')
  then show ?case using owned_step_inv [OF or_step(2)] by simp
qed simp

lemma split_owned_inv:
  assumes split: "split_owned r n w = (Ok (ow, oc), n', w')" and inv: "ring_inv (r, m)"
    and empty: "ring_queued (r, m) = []" "ring_pending (r, m) = []" "fl k = []"
  shows "owned_inv fl \<lparr>y_sub = ow, y_com = oc, y_k = k, y_mem = m, y_tickets = [], y_streams = [], y_receipts = [], y_notices = []\<rparr>"
    and "s_sq_mask (ow_inner ow) = r_sq_mask r" "c_cq_mask (oc_inner oc) = r_cq_mask r"
proof -
  have h: "ow_inner ow = submitter_half r" "oc_inner oc = completer_half r" "ow_ring ow = oc_ring oc"
    using split by (auto simp: split_owned_def RingId_next_def IoUring_split_def split: if_splits)
  then show "s_sq_mask (ow_inner ow) = r_sq_mask r" "c_cq_mask (oc_inner oc) = r_cq_mask r"
    by (simp_all add: submitter_half_def completer_half_def)
  show "owned_inv fl \<lparr>y_sub = ow, y_com = oc, y_k = k, y_mem = m, y_tickets = [], y_streams = [], y_receipts = [], y_notices = []\<rparr>"
    using h inv empty by (simp add: owned_inv_def live_ids_def)
qed

lemma receipt_not_in_use:
  assumes "owned_inv fl s" "rc \<in> set (y_receipts s)"
  shows "id_raw (rc_id rc) \<notin> sqe_user_data ` set (sub_queued (ow_inner (y_sub s), y_mem s) @ fl (y_k s))"
proof -
  have "id_raw (rc_id rc) \<in> set (map (id_raw \<circ> rc_id) (y_receipts s))"
    using assms(2) by (auto simp: image_iff intro!: bexI [of _ rc])
  moreover have "set (map sqe_user_data (sub_queued (ow_inner (y_sub s), y_mem s) @ fl (y_k s))) \<inter>
      set (map (id_raw \<circ> rc_id) (y_receipts s)) = {}"
    using assms(1) unfolding owned_inv_def live_ids_def distinct_append set_append
    by (simp only: Int_Un_distrib2 Un_empty)
  ultimately show ?thesis by (metis IntI emptyE set_map)
qed

section \<open>Properties\<close>

text \<open>C6. Storage is never handed back while the kernel may use it. Split an idle ring into owned
  halves and let the application push requests of any kind, arm streams, submit, wait, reap,
  record notices, redeem and drop, in any order and with the kernel taking entries and posting
  completions at any time. Whenever a receipt the application holds unlocks one of its tickets,
  no entry of that request is queued or in flight, what comes back is the storage the ticket was
  given, and no stream takes the receipt. Whenever the receipt belongs to a stream, the stream
  reports that it is no longer armed, and no entry of it is queued or in flight.\<close>

theorem redeemed_storage_not_in_use:
  assumes "split_owned r n w = (Ok (ow, oc), n', w')" "ring_inv (r, m)"
    and "ring_queued (r, m) = []" "ring_pending (r, m) = []" "fl k = []"
    and "kernel_honest (r_sq_mask r) (r_cq_mask r) fl enter"
    and "owned_reach enter fl \<lparr>y_sub = ow, y_com = oc, y_k = k, y_mem = m, y_tickets = [],
           y_streams = [], y_receipts = [], y_notices = []\<rparr> s"
    and "rc \<in> set (y_receipts s)"
  shows "(\<forall>t d. t \<in> set (y_tickets s) \<longrightarrow> any_redeem t rc = Ok d \<longrightarrow>
      done_store d = ticket_store t \<and>
      id_raw (any_id t) \<notin> sqe_user_data ` set (sub_queued (ow_inner (y_sub s), y_mem s) @ fl (y_k s)) \<and>
      (\<forall>a. a \<in> set (y_streams s) \<longrightarrow> stream_record a (Complete rc) = Err (Complete rc))) \<and>
    (\<forall>a d. a \<in> set (y_streams s) \<longrightarrow> stream_record a (Complete rc) = Ok d \<longrightarrow>
      \<not> delivery_armed d \<and>
      id_raw (stream_id a) \<notin> sqe_user_data ` set (sub_queued (ow_inner (y_sub s), y_mem s) @ fl (y_k s)))"
proof -
  note start = split_owned_inv [where fl = fl and k = k, OF assms(1-5)]
  have inv: "owned_inv fl s" using owned_reach_inv [OF assms(7) start(1)] start(2,3) assms(6) by simp
  then have gone: "id_raw (rc_id rc) \<notin> sqe_user_data ` set (sub_queued (ow_inner (y_sub s), y_mem s) @ fl (y_k s))"
    using receipt_not_in_use assms(8) by blast
  have other: "any_id t \<noteq> stream_id a" if "t \<in> set (y_tickets s)" "a \<in> set (y_streams s)" for t a
    using inv that by (auto simp: owned_inv_def)
  have "stream_record a (Complete rc) = Err (Complete rc)"
    if "t \<in> set (y_tickets s)" "any_redeem t rc = Ok d" "a \<in> set (y_streams s)" for t d a
    using stream.record_other [of "Complete rc" a] any.redeem_Ok [OF that(2)] other [OF that(1,3)] by simp
  moreover have "\<not> delivery_armed d \<and> id_raw (stream_id a) = id_raw (rc_id rc)"
    if "stream_record a (Complete rc) = Ok d" for a d
    using stream.record_own [of "Complete rc" a] stream.record_iff [of a "Complete rc"] that by auto
  ultimately show ?thesis using gone any.redeem_Ok by (metis (no_types, lifting))
qed

text \<open>C7. A push is all or nothing. If the submission queue has room, pushing a request queues
  exactly one entry, which carries a fresh id, and returns a ticket with that id, the
  ring's identity and the request's storage; if it is full, the request comes back as it
  was and neither the queue nor the shared memory has changed.\<close>

theorem owned_push_all_or_nothing:
  assumes "sub_inv (ow_inner ow, m)"
  shows "case any_push p ow m of
      (Ok t, ow', m') \<Rightarrow>
        (\<exists>sqe. sub_queued (ow_inner ow', m') = sub_queued (ow_inner ow, m) @ [sqe] \<and>
           sqe_user_data sqe = ow_ids ow) \<and>
        sub_inv (ow_inner ow', m') \<and> ow_ids ow' = ow_ids ow + 1 \<and> ow_ring ow' = ow_ring ow \<and>
        any_id t = RequestId (ow_ids ow) \<and> any_ring t = ow_ring ow \<and> ticket_store t = prepared_store p
    | (Err (p', e), ow', m') \<Rightarrow>
        p' = p \<and> e = Submit QueueFull \<and> ow_inner ow' = ow_inner ow \<and> m' = m \<and>
        OwnedSubmitter_space_left ow m = 0"
proof (cases rule: any.push_cases [OF assms, of p])
  case (1 t sqe s m')
  then show ?thesis by auto
next
  case 2
  have "unat (s_sq_tail_local (ow_inner ow) - m_sq_head m) = unat (s_sq_mask (ow_inner ow) + 1)"
    using 2(2) by (simp add: sub_queued_def)
  then have "OwnedSubmitter_space_left ow m = 0"
    by (simp add: OwnedSubmitter_space_left_def Submitter_sq_space_left_def Submitter_sq_capacity_def
        word_unat_eq_iff)
  then show ?thesis using 2 by simp
qed


section \<open>Examples\<close>

text \<open>An idle two-slot ring whose indices are about to wrap around, a system call that does
  nothing by itself, and one cancellation that the kernel completes.\<close>

definition ex_quiet_ring :: IoUring where
  "ex_quiet_ring = ex_ring\<lparr>r_sq_tail_local := 0xFFFFFFFF, r_cq_head_local := 0\<rparr>"

definition ex_sleepy :: "IoUringSqe list enter_fn" where
  "ex_sleepy fd n c f w = (0, fst w, snd w)"

lemma ex_sleepy_honest: "kernel_honest sm cm (\<lambda>k. k) ex_sleepy"
  by (auto simp: kernel_honest_def ex_sleepy_def kernel_acts_def kernel_takes_def kernel_posts_def
      taken_def posted_def intro: em_none)

lemma ex_quiet_inv: "ring_inv (ex_quiet_ring, ex_shm)" "ring_queued (ex_quiet_ring, ex_shm) = []"
  "ring_pending (ex_quiet_ring, ex_shm) = []"
  by (auto simp: ring_inv_def sq_wf_def cq_wf_def ex_quiet_ring_def ex_ring_def ex_shm_def
      ring_queued_def ring_pending_def sq_window_def cq_window_def intro!: exI [of _ 1] pow2_mask_1)

definition ex_request :: "unit AnyPrepared" where
  "ex_request = P_cancel (PreparedCancel_any 0)"

definition ex_start :: "(IoUringSqe list, unit) owned_sys" where
  "ex_start = \<lparr>y_sub = \<lparr>ow_inner = submitter_half ex_quiet_ring, ow_ring = RingId 5, ow_ids = 1\<rparr>,
     y_com = \<lparr>oc_inner = completer_half ex_quiet_ring, oc_ring = RingId 5\<rparr>, y_k = [], y_mem = ex_shm,
     y_tickets = [], y_streams = [], y_receipts = [], y_notices = []\<rparr>"

definition ex_ticket :: "unit AnyTicket" where
  "ex_ticket = T_cancel \<lparr>ca_ring = RingId 5, ca_id = RequestId 1, ca_target = Any\<rparr>"

definition ex_entry :: IoUringSqe where
  "ex_entry = Sqe_user_data 1 (Sqe_cancel_any 0)"

definition ex_receipt :: Receipt where
  "ex_receipt = \<lparr>rc_ring = RingId 5, rc_id = RequestId 1, rc_result = 0, rc_flags = 0\<rparr>"

definition ex_mem1 :: shm where "ex_mem1 = ex_shm\<lparr>m_sqes := [ex_sqe 8, ex_entry]\<rparr>"
definition ex_mem2 :: shm where "ex_mem2 = ex_mem1\<lparr>m_sq_tail := 0\<rparr>"
definition ex_mem3 :: shm where
  "ex_mem3 = ex_mem2\<lparr>m_sq_head := 0, m_cqes := [ex_cqe 1 0, ex_cqe 5 3], m_cq_tail := 1\<rparr>"

definition ex_pushed :: Submitter where
  "ex_pushed = (submitter_half ex_quiet_ring)\<lparr>s_sq_tail_local := 0\<rparr>"

definition ex_sub :: OwnedSubmitter where
  "ex_sub = \<lparr>ow_inner = ex_pushed, ow_ring = RingId 5, ow_ids = 2\<rparr>"

definition ex_com :: OwnedCompleter where
  "ex_com = \<lparr>oc_inner = (completer_half ex_quiet_ring)\<lparr>c_cq_head_local := 1\<rparr>, oc_ring = RingId 5\<rparr>"

definition ex_end :: "(IoUringSqe list, unit) owned_sys" where
  "ex_end = \<lparr>y_sub = ex_sub, y_com = ex_com, y_k = [], y_mem = ex_mem3, y_tickets = [ex_ticket],
     y_streams = [], y_receipts = [ex_receipt], y_notices = []\<rparr>"

lemma ex_push: "any_push ex_request (y_sub ex_start) (y_mem ex_start) = (Ok ex_ticket, ex_sub, ex_mem1)"
  by code_simp

lemma ex_submit: "OwnedSubmitter_submit ex_sleepy ex_sub ([], ex_mem1) = (Ok 0, ex_sub, [], ex_mem2)"
  by code_simp

lemma ex_acts: "kernel_acts 1 1 [] ex_mem2 [] ex_mem3"
proof -
  have t: "taken 1 ex_mem2 ex_mem3 = [ex_entry]" by code_simp
  have p: "posted 1 ex_mem2 ex_mem3 = [cqe_completion (ex_cqe 1 0)]" by code_simp
  have "emits [ex_entry] [cqe_completion (ex_cqe 1 0)] (remove1 ex_entry [ex_entry])"
    by (rule em_last [of ex_entry, OF _ _ _ em_none])
      (simp_all add: cqe_completion_def ex_cqe_def ex_entry_def Sqe_user_data_def terminal_def
        contains_def CQE_MORE_def)
  moreover have "kernel_takes ex_mem2 ex_mem3" by code_simp
  moreover have "kernel_posts 1 ex_mem2 ex_mem3" by code_simp
  ultimately show ?thesis by (simp add: kernel_acts_def t p)
qed

lemma ex_reap:
  "reap_event \<lparr>oc_inner = completer_half ex_quiet_ring, oc_ring = RingId 5\<rparr> ex_mem3 = Some (Complete ex_receipt, ex_com)"
  by code_simp

lemma ex_run: "owned_reach ex_sleepy (\<lambda>k. k) ex_start ex_end"
proof -
  let ?step = "owned_step ex_sleepy (\<lambda>k. k)"
  let ?s1 = "ex_start\<lparr>y_sub := ex_sub, y_mem := ex_mem1, y_tickets := [ex_ticket]\<rparr>"
  let ?s2 = "?s1\<lparr>y_sub := ex_sub, y_k := [], y_mem := ex_mem2\<rparr>"
  let ?s3 = "?s2\<lparr>y_k := [], y_mem := ex_mem3\<rparr>"
  have f: "y_tickets ex_start = []" "y_receipts ex_start = []" "ow_ids (y_sub ex_start) \<noteq> 0"
    "c_cq_mask (oc_inner (y_com ex_start)) = 1" "s_sq_mask (ow_inner ex_sub) = 1"
    "y_com ex_start = \<lparr>oc_inner = completer_half ex_quiet_ring, oc_ring = RingId 5\<rparr>"
    by (simp_all add: ex_start_def completer_half_def ex_quiet_ring_def ex_ring_def ex_sub_def
        ex_pushed_def submitter_half_def)
  have a: "?step ex_start ?s1" using os_push [OF f(3) ex_push] f by simp
  have b: "?step ?s1 ?s2" using os_submit [of ex_sleepy ?s1] ex_submit by (simp add: ex_start_def)
  have c: "?step ?s2 ?s3" using os_kernel [of ?s2 "\<lambda>k. k" "[]" ex_mem3] ex_acts f by simp
  have d: "?step ?s3 (?s3\<lparr>y_com := ex_com, y_receipts := ex_receipt # y_receipts ?s3\<rparr>)"
    by (rule os_reap) (use ex_reap f(6) in simp)
  have e: "?s3\<lparr>y_com := ex_com, y_receipts := ex_receipt # y_receipts ?s3\<rparr> = ex_end"
    by (simp add: ex_end_def ex_start_def)
  show ?thesis using or_step [OF or_step [OF or_step [OF or_step [OF or_start a] b] c] d] unfolding e .
qed

theorem redeemed_storage_not_in_use_witness:
  "split_owned ex_quiet_ring 5 ex_world =
     (Ok (y_sub ex_start, y_com ex_start), 5 + 1, retain (r_resources ex_quiet_ring) ex_world) \<and>
   owned_reach ex_sleepy (\<lambda>k. k) ex_start ex_end \<and>
   (\<exists>d. any_redeem ex_ticket ex_receipt = Ok d \<and> done_store d = ticket_store ex_ticket)"
proof -
  have s: "split_owned ex_quiet_ring 5 ex_world = (Ok (y_sub ex_start, y_com ex_start), 5 + 1,
      retain (r_resources ex_quiet_ring) ex_world)"
    by (simp add: split_owned_def RingId_next_def IoUring_split_def ex_start_def RequestIdSource_new_def
        setup_flags_forbid_split_def ex_quiet_ring_def ex_ring_def contains_def setup_flag_defs)
  have d: "any_redeem ex_ticket ex_receipt = Ok (D_cancel \<lparr>cd_target = Any, cd_id = RequestId 1, cd_result = 0\<rparr>)"
    by code_simp
  have st: "ex_start = \<lparr>y_sub = y_sub ex_start, y_com = y_com ex_start, y_k = [], y_mem = ex_shm,
      y_tickets = [], y_streams = [], y_receipts = [], y_notices = []\<rparr>" by (simp add: ex_start_def)
  have in_end: "ex_ticket \<in> set (y_tickets ex_end)" "ex_receipt \<in> set (y_receipts ex_end)"
    by (simp_all add: ex_end_def)
  have run: "owned_reach ex_sleepy (\<lambda>k. k) \<lparr>y_sub = y_sub ex_start, y_com = y_com ex_start, y_k = [],
      y_mem = ex_shm, y_tickets = [], y_streams = [], y_receipts = [], y_notices = []\<rparr> ex_end"
    by (subst st [symmetric]) (rule ex_run)
  have "done_store (D_cancel \<lparr>cd_target = Any, cd_id = RequestId 1, cd_result = 0\<rparr>) = ticket_store ex_ticket"
    using redeemed_storage_not_in_use [OF s ex_quiet_inv refl ex_sleepy_honest run in_end(2)] in_end(1) d by blast
  then show ?thesis using s d ex_run by blast
qed

theorem owned_push_all_or_nothing_witness:
  "\<exists>t ow' m'. any_push ex_request (y_sub ex_start) ex_shm = (Ok t, ow', m') \<and> sub_inv (ow_inner ow', m')"
proof -
  have f: "y_mem ex_start = ex_shm" "ow_inner (y_sub ex_start) = submitter_half ex_quiet_ring"
    by (simp_all add: ex_start_def)
  have "sub_inv (ow_inner (y_sub ex_start), ex_shm)"
    using half_projections(3) [OF ex_quiet_inv(1)] unfolding f .
  note all = owned_push_all_or_nothing [OF this, of ex_request, unfolded ex_push [unfolded f] prod.case result.case]
  show ?thesis using all ex_push [unfolded f] by blast
qed


end
