(* ===== verification/Register.thy ===== *)
theory Register
  imports Owned_Requests Layouts
begin

text \<open>
  Registration of resources on a ring (\<open>src/ring/register.rs\<close>, \<open>src/ring/rsrc_tags.rs\<close>), the
  probe of the supported operations (\<open>src/ring/probe.rs\<close>) and the structures these calls pass
  (\<open>src/types/buffers.rs\<close>, \<open>napi.rs\<close>, \<open>cancel.rs\<close>). The kernel is the parameter \<open>reg\<close>: it is
  handed a descriptor, an operation, an address, a count and the memory, and returns a value
  and the memory it left. A local that is passed by address lies at the parameter \<open>sp\<close>; a
  borrowed slice is an address and a length whose contents are in memory.
\<close>

section \<open>The system call\<close>

record 'k host =
  h_k :: 'k
  h_ram :: ram

type_synonym 'k regcall = "RawFd \<Rightarrow> u32 \<Rightarrow> usize \<Rightarrow> u32 \<Rightarrow> 'k host \<Rightarrow> isize \<times> 'k host"

definition io_uring_register ::
  "'k regcall \<Rightarrow> RawFd \<Rightarrow> u32 \<Rightarrow> usize \<Rightarrow> u32 \<Rightarrow> 'k host \<Rightarrow> (usize, Errno) result \<times> 'k host" where
  "io_uring_register reg fd opcode arg nr_args w =
     (case reg fd opcode arg nr_args w of (ret, w) \<Rightarrow> (check ret, w))"

definition register_raw ::
  "'k regcall \<Rightarrow> IoUring \<Rightarrow> u32 \<Rightarrow> usize \<Rightarrow> u32 \<Rightarrow> 'k host \<Rightarrow> (usize, Errno) result \<times> 'k host" where
  "register_raw reg r opcode arg nr_args w = io_uring_register reg (r_fd r) opcode arg nr_args w"

text \<open>\<open>?\<close> on the call, then \<open>Ok(v)\<close> with \<open>v\<close> read off the memory the kernel left.\<close>

definition try_call ::
  "(usize, Errno) result \<times> 'k host \<Rightarrow> ('k host \<Rightarrow> 'a) \<Rightarrow> ('a, Error) result \<times> 'k host" where
  "try_call c v = (case c of (Err e, w) \<Rightarrow> (Err (Error_from_Errno e), w) | (Ok _, w) \<Rightarrow> (Ok (v w), w))"

definition put_local :: "u64 \<Rightarrow> u8 list \<Rightarrow> ('k, 'z) host_scheme \<Rightarrow> ('k, 'z) host_scheme" where
  "put_local sp bs w = w\<lparr>h_ram := ram_write sp bs (h_ram w)\<rparr>"

definition get_local :: "(u8 list \<Rightarrow> 'v) \<Rightarrow> nat \<Rightarrow> u64 \<Rightarrow> ('k, 'z) host_scheme \<Rightarrow> 'v" where
  "get_local dec n sp w = dec (ram_read (h_ram w) sp n)"

section \<open>Structures\<close>

record IoUringFilesUpdate =
  fu_offset :: u32
  fu_resv :: u32
  fu_fds :: u64

definition FilesUpdate_bytes :: "IoUringFilesUpdate \<Rightarrow> u8 list" where
  "FilesUpdate_bytes v = le_bytes 4 (fu_offset v) @ le_bytes 4 (fu_resv v) @ le_bytes 8 (fu_fds v)"

definition FilesUpdate_of_bytes :: "u8 list \<Rightarrow> IoUringFilesUpdate" where
  "FilesUpdate_of_bytes bs =
     \<lparr>fu_offset = of_le (take 4 bs), fu_resv = of_le (take 4 (drop 4 bs)), fu_fds = of_le (take 8 (drop 8 bs))\<rparr>"

interpretation files_update: codec FilesUpdate_bytes FilesUpdate_of_bytes 16
  by unfold_locales (simp_all add: FilesUpdate_bytes_def FilesUpdate_of_bytes_def of_le_bytes)

record IoUringFileIndexRange =
  fr_off :: u32
  fr_len :: u32
  fr_resv :: u64

definition FileIndexRange_bytes :: "IoUringFileIndexRange \<Rightarrow> u8 list" where
  "FileIndexRange_bytes v = le_bytes 4 (fr_off v) @ le_bytes 4 (fr_len v) @ le_bytes 8 (fr_resv v)"

definition FileIndexRange_of_bytes :: "u8 list \<Rightarrow> IoUringFileIndexRange" where
  "FileIndexRange_of_bytes bs =
     \<lparr>fr_off = of_le (take 4 bs), fr_len = of_le (take 4 (drop 4 bs)), fr_resv = of_le (take 8 (drop 8 bs))\<rparr>"

interpretation file_range: codec FileIndexRange_bytes FileIndexRange_of_bytes 16
  by unfold_locales (simp_all add: FileIndexRange_bytes_def FileIndexRange_of_bytes_def of_le_bytes)

record IoUringRsrcUpdate =
  ru_offset :: u32
  ru_resv :: u32
  ru_data :: u64

definition RsrcUpdate_bytes :: "IoUringRsrcUpdate \<Rightarrow> u8 list" where
  "RsrcUpdate_bytes v = le_bytes 4 (ru_offset v) @ le_bytes 4 (ru_resv v) @ le_bytes 8 (ru_data v)"

definition RsrcUpdate_of_bytes :: "u8 list \<Rightarrow> IoUringRsrcUpdate" where
  "RsrcUpdate_of_bytes bs =
     \<lparr>ru_offset = of_le (take 4 bs), ru_resv = of_le (take 4 (drop 4 bs)), ru_data = of_le (take 8 (drop 8 bs))\<rparr>"

interpretation rsrc_update: codec RsrcUpdate_bytes RsrcUpdate_of_bytes 16
  by unfold_locales (simp_all add: RsrcUpdate_bytes_def RsrcUpdate_of_bytes_def of_le_bytes)

record IoUringRsrcRegister =
  rr_nr :: u32
  rr_flags :: u32
  rr_resv2 :: u64
  rr_data :: u64
  rr_tags :: u64

definition SIZEOF_RsrcRegister :: usize where "SIZEOF_RsrcRegister = 32"

definition RsrcRegister_bytes :: "IoUringRsrcRegister \<Rightarrow> u8 list" where
  "RsrcRegister_bytes v =
     le_bytes 4 (rr_nr v) @ le_bytes 4 (rr_flags v) @ le_bytes 8 (rr_resv2 v) @ le_bytes 8 (rr_data v) @
     le_bytes 8 (rr_tags v)"

definition RsrcRegister_of_bytes :: "u8 list \<Rightarrow> IoUringRsrcRegister" where
  "RsrcRegister_of_bytes bs =
     \<lparr>rr_nr = of_le (take 4 bs), rr_flags = of_le (take 4 (drop 4 bs)), rr_resv2 = of_le (take 8 (drop 8 bs)),
      rr_data = of_le (take 8 (drop 16 bs)), rr_tags = of_le (take 8 (drop 24 bs))\<rparr>"

interpretation rsrc_register: codec RsrcRegister_bytes RsrcRegister_of_bytes 32
  by unfold_locales (simp_all add: RsrcRegister_bytes_def RsrcRegister_of_bytes_def of_le_bytes)

record IoUringRsrcUpdate2 =
  r2_offset :: u32
  r2_resv :: u32
  r2_data :: u64
  r2_tags :: u64
  r2_nr :: u32
  r2_resv2 :: u32

definition SIZEOF_RsrcUpdate2 :: usize where "SIZEOF_RsrcUpdate2 = 32"

definition RsrcUpdate2_bytes :: "IoUringRsrcUpdate2 \<Rightarrow> u8 list" where
  "RsrcUpdate2_bytes v =
     le_bytes 4 (r2_offset v) @ le_bytes 4 (r2_resv v) @ le_bytes 8 (r2_data v) @ le_bytes 8 (r2_tags v) @
     le_bytes 4 (r2_nr v) @ le_bytes 4 (r2_resv2 v)"

definition RsrcUpdate2_of_bytes :: "u8 list \<Rightarrow> IoUringRsrcUpdate2" where
  "RsrcUpdate2_of_bytes bs =
     \<lparr>r2_offset = of_le (take 4 bs), r2_resv = of_le (take 4 (drop 4 bs)), r2_data = of_le (take 8 (drop 8 bs)),
      r2_tags = of_le (take 8 (drop 16 bs)), r2_nr = of_le (take 4 (drop 24 bs)),
      r2_resv2 = of_le (take 4 (drop 28 bs))\<rparr>"

interpretation rsrc_update2: codec RsrcUpdate2_bytes RsrcUpdate2_of_bytes 32
  by unfold_locales (simp_all add: RsrcUpdate2_bytes_def RsrcUpdate2_of_bytes_def of_le_bytes)

definition CLONE_SRC_REGISTERED :: u32 where "CLONE_SRC_REGISTERED = 1"
definition CLONE_DST_REPLACE :: u32 where "CLONE_DST_REPLACE = 2"

text \<open>The padding of three words is one list.\<close>

record IoUringCloneBuffers =
  cb_src_fd :: u32
  cb_flags :: u32
  cb_src_off :: u32
  cb_dst_off :: u32
  cb_nr :: u32
  cb_pad :: "u32 \<times> u32 \<times> u32"

definition CloneBuffers_bytes :: "IoUringCloneBuffers \<Rightarrow> u8 list" where
  "CloneBuffers_bytes v =
     le_bytes 4 (cb_src_fd v) @ le_bytes 4 (cb_flags v) @ le_bytes 4 (cb_src_off v) @ le_bytes 4 (cb_dst_off v) @
     le_bytes 4 (cb_nr v) @ (case cb_pad v of (p, q, s) \<Rightarrow> le_bytes 4 p @ le_bytes 4 q @ le_bytes 4 s)"

definition CloneBuffers_of_bytes :: "u8 list \<Rightarrow> IoUringCloneBuffers" where
  "CloneBuffers_of_bytes bs =
     \<lparr>cb_src_fd = of_le (take 4 bs), cb_flags = of_le (take 4 (drop 4 bs)), cb_src_off = of_le (take 4 (drop 8 bs)),
      cb_dst_off = of_le (take 4 (drop 12 bs)), cb_nr = of_le (take 4 (drop 16 bs)),
      cb_pad = (of_le (take 4 (drop 20 bs)), of_le (take 4 (drop 24 bs)), of_le (take 4 (drop 28 bs)))\<rparr>"

interpretation clone_buffers: codec CloneBuffers_bytes CloneBuffers_of_bytes 32
  by unfold_locales (simp_all add: CloneBuffers_bytes_def CloneBuffers_of_bytes_def of_le_bytes split: prod.split)

subsection \<open>Busy polling (\<open>napi.rs\<close>)\<close>

datatype NapiTrackingStrategy = Strategy_Dynamic | Strategy_Static

fun strategy_u32 :: "NapiTrackingStrategy \<Rightarrow> u32" where
  "strategy_u32 Strategy_Dynamic = 0"
| "strategy_u32 Strategy_Static = 1"

datatype NapiTrackingMode = Mode_Dynamic | Mode_Static | Mode_Inactive

definition NapiTrackingMode_from_raw :: "u32 \<Rightarrow> NapiTrackingMode" where
  "NapiTrackingMode_from_raw raw = (if raw = 0 then Mode_Dynamic else if raw = 1 then Mode_Static else Mode_Inactive)"

datatype NapiOp = NapiRegister | StaticAddId | StaticDelId

fun napi_op_u8 :: "NapiOp \<Rightarrow> u8" where
  "napi_op_u8 NapiRegister = 0"
| "napi_op_u8 StaticAddId = 1"
| "napi_op_u8 StaticDelId = 2"

record RawNapi =
  rn_busy_poll_to :: u32
  rn_prefer_busy_poll :: u8
  rn_opcode :: u8
  rn_pad :: "u8 \<times> u8"
  rn_op_param :: u32
  rn_resv :: u32

definition RawNapi_default :: RawNapi where
  "RawNapi_default =
     \<lparr>rn_busy_poll_to = 0, rn_prefer_busy_poll = 0, rn_opcode = 0, rn_pad = (0, 0), rn_op_param = 0, rn_resv = 0\<rparr>"

definition RawNapi_register :: "u32 \<Rightarrow> bool \<Rightarrow> NapiTrackingStrategy \<Rightarrow> RawNapi" where
  "RawNapi_register busy_poll_timeout_usec prefer_busy_poll tracking =
     \<lparr>rn_busy_poll_to = busy_poll_timeout_usec, rn_prefer_busy_poll = (if prefer_busy_poll then 1 else 0),
      rn_opcode = napi_op_u8 NapiRegister, rn_pad = (0, 0), rn_op_param = strategy_u32 tracking, rn_resv = 0\<rparr>"

definition RawNapi_static_id :: "NapiOp \<Rightarrow> u32 \<Rightarrow> RawNapi" where
  "RawNapi_static_id op napi_id =
     \<lparr>rn_busy_poll_to = 0, rn_prefer_busy_poll = 0, rn_opcode = napi_op_u8 op, rn_pad = (0, 0),
      rn_op_param = napi_id, rn_resv = 0\<rparr>"

record NapiSettings =
  ns_busy_poll_timeout_usec :: u32
  ns_prefer_busy_poll :: bool
  ns_tracking :: NapiTrackingMode

definition NapiSettings_from_raw :: "RawNapi \<Rightarrow> NapiSettings" where
  "NapiSettings_from_raw raw =
     \<lparr>ns_busy_poll_timeout_usec = rn_busy_poll_to raw, ns_prefer_busy_poll = (rn_prefer_busy_poll raw \<noteq> 0),
      ns_tracking = NapiTrackingMode_from_raw (rn_op_param raw)\<rparr>"

definition RawNapi_bytes :: "RawNapi \<Rightarrow> u8 list" where
  "RawNapi_bytes v =
     le_bytes 4 (rn_busy_poll_to v) @ [rn_prefer_busy_poll v, rn_opcode v] @ (case rn_pad v of (p, q) \<Rightarrow> [p, q]) @
     le_bytes 4 (rn_op_param v) @ le_bytes 4 (rn_resv v)"

definition RawNapi_of_bytes :: "u8 list \<Rightarrow> RawNapi" where
  "RawNapi_of_bytes bs =
     \<lparr>rn_busy_poll_to = of_le (take 4 bs), rn_prefer_busy_poll = bs ! 4, rn_opcode = bs ! 5, rn_pad = (bs ! 6, bs ! 7),
      rn_op_param = of_le (take 4 (drop 8 bs)), rn_resv = of_le (take 4 (drop 12 bs))\<rparr>"

interpretation raw_napi: codec RawNapi_bytes RawNapi_of_bytes 16
  by unfold_locales
    (simp_all add: RawNapi_bytes_def RawNapi_of_bytes_def of_le_bytes nth_append split: prod.split)

subsection \<open>Synchronous cancellation (\<open>cancel.rs\<close>)\<close>

record RawTimeout =
  rt_sec :: i64
  rt_nsec :: i64

definition RawTimeout_NONE :: RawTimeout where "RawTimeout_NONE = \<lparr>rt_sec = - 1, rt_nsec = - 1\<rparr>"

definition RawTimeout_from :: "Timespec \<Rightarrow> RawTimeout" where
  "RawTimeout_from ts = \<lparr>rt_sec = tv_sec ts, rt_nsec = tv_nsec ts\<rparr>"

datatype SyncCancelKey = Key_UserData u64 | Key_Fd RawFd | Key_Any

record SyncCancelReg =
  sc_key :: SyncCancelKey
  sc_flags :: u32
  sc_opcode :: "Opcode option"
  sc_timeout :: "Timespec option"

definition SyncCancelReg_user_data :: "u64 \<Rightarrow> u32 \<Rightarrow> SyncCancelReg" where
  "SyncCancelReg_user_data target flags =
     \<lparr>sc_key = Key_UserData target, sc_flags = flags, sc_opcode = None, sc_timeout = None\<rparr>"

definition SyncCancelReg_fd :: "RawFd \<Rightarrow> u32 \<Rightarrow> SyncCancelReg" where
  "SyncCancelReg_fd target flags = \<lparr>sc_key = Key_Fd target, sc_flags = flags, sc_opcode = None, sc_timeout = None\<rparr>"

definition SyncCancelReg_any :: "u32 \<Rightarrow> SyncCancelReg" where
  "SyncCancelReg_any flags = \<lparr>sc_key = Key_Any, sc_flags = flags, sc_opcode = None, sc_timeout = None\<rparr>"

definition SyncCancelReg_matching_opcode :: "Opcode \<Rightarrow> SyncCancelReg \<Rightarrow> SyncCancelReg" where
  "SyncCancelReg_matching_opcode opcode c = c\<lparr>sc_opcode := Some opcode\<rparr>"

definition SyncCancelReg_timeout :: "Timespec \<Rightarrow> SyncCancelReg \<Rightarrow> SyncCancelReg" where
  "SyncCancelReg_timeout ts c = c\<lparr>sc_timeout := Some ts\<rparr>"

record RawSyncCancelReg =
  rs_addr :: u64
  rs_fd :: i32
  rs_flags :: u32
  rs_timeout :: RawTimeout
  rs_opcode :: u8
  rs_pad :: "u8 list"
  rs_pad2 :: "u64 list"

definition SyncCancelReg_as_raw :: "SyncCancelReg \<Rightarrow> RawSyncCancelReg" where
  "SyncCancelReg_as_raw c =
    (let flags = sc_flags c;
         (addr, fd, flags) =
           (case sc_key c of
              Key_UserData target \<Rightarrow> (target, 0, flags)
            | Key_Fd target \<Rightarrow> (0, as_i32 target, flags OR CANCEL_FD)
            | Key_Any \<Rightarrow> (0, 0, flags OR CANCEL_ANY));
         (opcode, flags) =
           (case sc_opcode c of None \<Rightarrow> (0, flags) | Some op \<Rightarrow> (opcode_u8 op, flags OR CANCEL_OP))
     in \<lparr>rs_addr = addr, rs_fd = fd, rs_flags = flags,
         rs_timeout = (case sc_timeout c of None \<Rightarrow> RawTimeout_NONE | Some ts \<Rightarrow> RawTimeout_from ts),
         rs_opcode = opcode, rs_pad = replicate 7 0, rs_pad2 = replicate 3 0\<rparr>)"

definition RawSyncCancelReg_bytes :: "RawSyncCancelReg \<Rightarrow> u8 list" where
  "RawSyncCancelReg_bytes v =
     le_bytes 8 (rs_addr v) @ le_bytes 4 (rs_fd v) @ le_bytes 4 (rs_flags v) @ le_bytes 8 (rt_sec (rs_timeout v)) @
     le_bytes 8 (rt_nsec (rs_timeout v)) @ [rs_opcode v] @ rs_pad v @ concat (map (le_bytes 8) (rs_pad2 v))"

definition RawSyncCancelReg_of_bytes :: "u8 list \<Rightarrow> RawSyncCancelReg" where
  "RawSyncCancelReg_of_bytes bs =
     \<lparr>rs_addr = of_le (take 8 bs), rs_fd = of_le (take 4 (drop 8 bs)), rs_flags = of_le (take 4 (drop 12 bs)),
      rs_timeout = \<lparr>rt_sec = of_le (take 8 (drop 16 bs)), rt_nsec = of_le (take 8 (drop 24 bs))\<rparr>,
      rs_opcode = bs ! 32, rs_pad = take 7 (drop 33 bs),
      rs_pad2 = map (\<lambda>i. of_le (take 8 (drop (40 + 8 * i) bs))) [0..<3]\<rparr>"

section \<open>Operations (\<open>register.rs\<close>)\<close>

definition register_buffers :: "'k regcall \<Rightarrow> IoUring \<Rightarrow> slice \<Rightarrow> 'k host \<Rightarrow> (unit, Error) result \<times> 'k host" where
  "register_buffers reg r bufs w =
     try_call (register_raw reg r (register_op_u32 RegisterBuffers) (sl_ptr bufs) (ucast (sl_len bufs)) w) (\<lambda>_. ())"

definition unregister_buffers :: "'k regcall \<Rightarrow> IoUring \<Rightarrow> 'k host \<Rightarrow> (unit, Error) result \<times> 'k host" where
  "unregister_buffers reg r w = try_call (register_raw reg r (register_op_u32 UnregisterBuffers) 0 0 w) (\<lambda>_. ())"

definition register_files :: "'k regcall \<Rightarrow> IoUring \<Rightarrow> slice \<Rightarrow> 'k host \<Rightarrow> (unit, Error) result \<times> 'k host" where
  "register_files reg r fds w =
     try_call (register_raw reg r (register_op_u32 RegisterFiles) (sl_ptr fds) (ucast (sl_len fds)) w) (\<lambda>_. ())"

definition unregister_files :: "'k regcall \<Rightarrow> IoUring \<Rightarrow> 'k host \<Rightarrow> (unit, Error) result \<times> 'k host" where
  "unregister_files reg r w = try_call (register_raw reg r (register_op_u32 UnregisterFiles) 0 0 w) (\<lambda>_. ())"

definition update_registered_files ::
  "'k regcall \<Rightarrow> u64 \<Rightarrow> IoUring \<Rightarrow> slice \<Rightarrow> u32 \<Rightarrow> 'k host \<Rightarrow> (unit, Error) result \<times> 'k host" where
  "update_registered_files reg sp r fds offset w =
    (let w = put_local sp (FilesUpdate_bytes \<lparr>fu_offset = offset, fu_resv = 0, fu_fds = sl_ptr fds\<rparr>) w
     in try_call (register_raw reg r (register_op_u32 RegisterFilesUpdate) sp (ucast (sl_len fds)) w) (\<lambda>_. ()))"

definition register_file_alloc_range ::
  "'k regcall \<Rightarrow> u64 \<Rightarrow> IoUring \<Rightarrow> u32 \<Rightarrow> u32 \<Rightarrow> 'k host \<Rightarrow> (unit, Error) result \<times> 'k host" where
  "register_file_alloc_range reg sp r off l w =
    (let w = put_local sp (FileIndexRange_bytes \<lparr>fr_off = off, fr_len = l, fr_resv = 0\<rparr>) w
     in try_call (register_raw reg r (register_op_u32 RegisterFileAllocRange) sp 0 w) (\<lambda>_. ()))"

definition register_eventfd ::
  "'k regcall \<Rightarrow> u64 \<Rightarrow> IoUring \<Rightarrow> RawFd \<Rightarrow> 'k host \<Rightarrow> (unit, Error) result \<times> 'k host" where
  "register_eventfd reg sp r efd w =
    (let raw = as_i32 efd; w = put_local sp (le_bytes 4 raw) w
     in try_call (register_raw reg r (register_op_u32 RegisterEventFd) sp 1 w) (\<lambda>_. ()))"

definition register_eventfd_async ::
  "'k regcall \<Rightarrow> u64 \<Rightarrow> IoUring \<Rightarrow> RawFd \<Rightarrow> 'k host \<Rightarrow> (unit, Error) result \<times> 'k host" where
  "register_eventfd_async reg sp r efd w =
    (let raw = as_i32 efd; w = put_local sp (le_bytes 4 raw) w
     in try_call (register_raw reg r (register_op_u32 RegisterEventFdAsync) sp 1 w) (\<lambda>_. ()))"

definition unregister_eventfd :: "'k regcall \<Rightarrow> IoUring \<Rightarrow> 'k host \<Rightarrow> (unit, Error) result \<times> 'k host" where
  "unregister_eventfd reg r w = try_call (register_raw reg r (register_op_u32 UnregisterEventFd) 0 0 w) (\<lambda>_. ())"

definition register_iowq_affinity :: "'k regcall \<Rightarrow> IoUring \<Rightarrow> slice \<Rightarrow> 'k host \<Rightarrow> (unit, Error) result \<times> 'k host" where
  "register_iowq_affinity reg r cpus w =
     try_call (register_raw reg r (register_op_u32 RegisterIowqAff) (sl_ptr cpus) (ucast (sl_len cpus)) w) (\<lambda>_. ())"

definition unregister_iowq_affinity :: "'k regcall \<Rightarrow> IoUring \<Rightarrow> 'k host \<Rightarrow> (unit, Error) result \<times> 'k host" where
  "unregister_iowq_affinity reg r w = try_call (register_raw reg r (register_op_u32 UnregisterIowqAff) 0 0 w) (\<lambda>_. ())"

definition set_iowq_max_workers ::
  "'k regcall \<Rightarrow> u64 \<Rightarrow> IoUring \<Rightarrow> u32 \<Rightarrow> u32 \<Rightarrow> 'k host \<Rightarrow> (unit, Error) result \<times> 'k host" where
  "set_iowq_max_workers reg sp r max_bounded max_unbounded w =
    (let w = put_local sp (le_bytes 4 max_bounded @ le_bytes 4 max_unbounded) w
     in try_call (register_raw reg r (register_op_u32 RegisterIowqMaxWorkers) sp 2 w) (\<lambda>_. ()))"

text \<open>The kernel writes the slot it chose into \<open>offset\<close>.\<close>

definition register_ring_fd ::
  "'k regcall \<Rightarrow> u64 \<Rightarrow> IoUring \<Rightarrow> 'k host \<Rightarrow> (u32, Error) result \<times> 'k host" where
  "register_ring_fd reg sp r w =
    (let w = put_local sp (RsrcUpdate_bytes \<lparr>ru_offset = - 1, ru_resv = 0, ru_data = as_usize (r_fd r)\<rparr>) w
     in try_call (register_raw reg r (register_op_u32 RegisterRingFds) sp 1 w)
          (\<lambda>w. ru_offset (get_local RsrcUpdate_of_bytes 16 sp w)))"

definition unregister_ring_fd ::
  "'k regcall \<Rightarrow> u64 \<Rightarrow> IoUring \<Rightarrow> u32 \<Rightarrow> 'k host \<Rightarrow> (unit, Error) result \<times> 'k host" where
  "unregister_ring_fd reg sp r offset w =
    (let w = put_local sp (RsrcUpdate_bytes \<lparr>ru_offset = offset, ru_resv = 0, ru_data = 0\<rparr>) w
     in try_call (register_raw reg r (register_op_u32 UnregisterRingFds) sp 1 w) (\<lambda>_. ()))"

definition enable_rings :: "'k regcall \<Rightarrow> IoUring \<Rightarrow> 'k host \<Rightarrow> (unit, Error) result \<times> 'k host" where
  "enable_rings reg r w = try_call (register_raw reg r (register_op_u32 RegisterEnableRings) 0 0 w) (\<lambda>_. ())"

definition sync_cancel ::
  "'k regcall \<Rightarrow> u64 \<Rightarrow> IoUring \<Rightarrow> SyncCancelReg \<Rightarrow> 'k host \<Rightarrow> (CancelOutcome, Error) result \<times> 'k host" where
  "sync_cancel reg sp r c w =
    (let raw = SyncCancelReg_as_raw c; w = put_local sp (RawSyncCancelReg_bytes raw) w
     in case register_raw reg r (register_op_u32 RegisterSyncCancel) sp 1 w of
          (Ok n, w) \<Rightarrow> (Ok (Applied (ucast n)), w)
        | (Err errno, w) \<Rightarrow> (Ok (CancelOutcome_from_raw (- errno_raw errno)), w))"

definition register_napi ::
  "'k regcall \<Rightarrow> u64 \<Rightarrow> IoUring \<Rightarrow> u32 \<Rightarrow> bool \<Rightarrow> NapiTrackingStrategy \<Rightarrow> 'k host \<Rightarrow>
   (NapiSettings, Error) result \<times> 'k host" where
  "register_napi reg sp r busy_poll_timeout_usec prefer_busy_poll tracking w =
    (let raw = RawNapi_register busy_poll_timeout_usec prefer_busy_poll tracking;
         w = put_local sp (RawNapi_bytes raw) w
     in try_call (register_raw reg r (register_op_u32 RegisterNapi) sp 1 w)
          (\<lambda>w. NapiSettings_from_raw (get_local RawNapi_of_bytes 16 sp w)))"

definition unregister_napi ::
  "'k regcall \<Rightarrow> u64 \<Rightarrow> IoUring \<Rightarrow> 'k host \<Rightarrow> (NapiSettings, Error) result \<times> 'k host" where
  "unregister_napi reg sp r w =
    (let w = put_local sp (RawNapi_bytes RawNapi_default) w
     in try_call (register_raw reg r (register_op_u32 UnregisterNapi) sp 1 w)
          (\<lambda>w. NapiSettings_from_raw (get_local RawNapi_of_bytes 16 sp w)))"

definition napi_add_static_id ::
  "'k regcall \<Rightarrow> u64 \<Rightarrow> IoUring \<Rightarrow> u32 \<Rightarrow> 'k host \<Rightarrow> (unit, Error) result \<times> 'k host" where
  "napi_add_static_id reg sp r napi_id w =
    (let w = put_local sp (RawNapi_bytes (RawNapi_static_id StaticAddId napi_id)) w
     in try_call (register_raw reg r (register_op_u32 RegisterNapi) sp 1 w) (\<lambda>_. ()))"

definition napi_remove_static_id ::
  "'k regcall \<Rightarrow> u64 \<Rightarrow> IoUring \<Rightarrow> u32 \<Rightarrow> 'k host \<Rightarrow> (unit, Error) result \<times> 'k host" where
  "napi_remove_static_id reg sp r napi_id w =
    (let w = put_local sp (RawNapi_bytes (RawNapi_static_id StaticDelId napi_id)) w
     in try_call (register_raw reg r (register_op_u32 RegisterNapi) sp 1 w) (\<lambda>_. ()))"

definition clone_registered_buffers_raw ::
  "'k regcall \<Rightarrow> u64 \<Rightarrow> IoUring \<Rightarrow> RawFd \<Rightarrow> u32 \<Rightarrow> u32 \<Rightarrow> u32 \<Rightarrow> u32 \<Rightarrow> 'k host \<Rightarrow>
   (unit, Error) result \<times> 'k host" where
  "clone_registered_buffers_raw reg sp r src flags src_off dst_off nr w =
    (let arg = \<lparr>cb_src_fd = as_i32 src, cb_flags = flags, cb_src_off = src_off, cb_dst_off = dst_off, cb_nr = nr,
                cb_pad = (0, 0, 0)\<rparr>;
         w = put_local sp (CloneBuffers_bytes arg) w
     in try_call (register_raw reg r (register_op_u32 RegisterCloneBuffers) sp 0 w) (\<lambda>_. ()))"

definition clone_registered_buffers ::
  "'k regcall \<Rightarrow> u64 \<Rightarrow> IoUring \<Rightarrow> RawFd \<Rightarrow> 'k host \<Rightarrow> (unit, Error) result \<times> 'k host" where
  "clone_registered_buffers reg sp r src w = clone_registered_buffers_raw reg sp r src 0 0 0 0 w"

definition clone_registered_buffers_replacing ::
  "'k regcall \<Rightarrow> u64 \<Rightarrow> IoUring \<Rightarrow> RawFd \<Rightarrow> 'k host \<Rightarrow> (unit, Error) result \<times> 'k host" where
  "clone_registered_buffers_replacing reg sp r src w =
     clone_registered_buffers_raw reg sp r src CLONE_DST_REPLACE 0 0 0 w"

section \<open>Tagged resources (\<open>rsrc_tags.rs\<close>)\<close>

text \<open>The length assertions panic, \<open>None\<close> here, before anything is done.\<close>

definition register_files_tagged ::
  "'k regcall \<Rightarrow> u64 \<Rightarrow> IoUring \<Rightarrow> slice \<Rightarrow> slice \<Rightarrow> 'k host \<Rightarrow> ((unit, Error) result \<times> 'k host) option" where
  "register_files_tagged reg sp r fds tags w =
    (if sl_len fds \<noteq> sl_len tags then None
     else let arg = \<lparr>rr_nr = ucast (sl_len fds), rr_flags = 0, rr_resv2 = 0, rr_data = sl_ptr fds, rr_tags = sl_ptr tags\<rparr>;
              w = put_local sp (RsrcRegister_bytes arg) w
          in Some (try_call (register_raw reg r (register_op_u32 RegisterFiles2) sp (ucast SIZEOF_RsrcRegister) w) (\<lambda>_. ())))"

definition update_registered_files_tagged ::
  "'k regcall \<Rightarrow> u64 \<Rightarrow> IoUring \<Rightarrow> slice \<Rightarrow> slice \<Rightarrow> u32 \<Rightarrow> 'k host \<Rightarrow> ((unit, Error) result \<times> 'k host) option" where
  "update_registered_files_tagged reg sp r fds tags offset w =
    (if sl_len fds \<noteq> sl_len tags then None
     else let arg = \<lparr>r2_offset = offset, r2_resv = 0, r2_data = sl_ptr fds, r2_tags = sl_ptr tags,
                     r2_nr = ucast (sl_len fds), r2_resv2 = 0\<rparr>;
              w = put_local sp (RsrcUpdate2_bytes arg) w
          in Some (try_call (register_raw reg r (register_op_u32 RegisterFilesUpdate2) sp (ucast SIZEOF_RsrcUpdate2) w) (\<lambda>_. ())))"

definition register_buffers_tagged ::
  "'k regcall \<Rightarrow> u64 \<Rightarrow> IoUring \<Rightarrow> slice \<Rightarrow> slice \<Rightarrow> 'k host \<Rightarrow> ((unit, Error) result \<times> 'k host) option" where
  "register_buffers_tagged reg sp r bufs tags w =
    (if sl_len bufs \<noteq> sl_len tags then None
     else let arg = \<lparr>rr_nr = ucast (sl_len bufs), rr_flags = 0, rr_resv2 = 0, rr_data = sl_ptr bufs, rr_tags = sl_ptr tags\<rparr>;
              w = put_local sp (RsrcRegister_bytes arg) w
          in Some (try_call (register_raw reg r (register_op_u32 RegisterBuffers2) sp (ucast SIZEOF_RsrcRegister) w) (\<lambda>_. ())))"

definition update_registered_buffers_tagged ::
  "'k regcall \<Rightarrow> u64 \<Rightarrow> IoUring \<Rightarrow> slice \<Rightarrow> slice \<Rightarrow> u32 \<Rightarrow> 'k host \<Rightarrow> ((unit, Error) result \<times> 'k host) option" where
  "update_registered_buffers_tagged reg sp r bufs tags offset w =
    (if sl_len bufs \<noteq> sl_len tags then None
     else let arg = \<lparr>r2_offset = offset, r2_resv = 0, r2_data = sl_ptr bufs, r2_tags = sl_ptr tags,
                     r2_nr = ucast (sl_len bufs), r2_resv2 = 0\<rparr>;
              w = put_local sp (RsrcUpdate2_bytes arg) w
          in Some (try_call (register_raw reg r (register_op_u32 RegisterBuffersUpdate) sp (ucast SIZEOF_RsrcUpdate2) w) (\<lambda>_. ())))"

section \<open>Probing (\<open>probe.rs\<close>)\<close>

record ProbeOp =
  po_op :: u8
  po_resv :: u8
  po_flags :: u16
  po_resv2 :: u32

definition ProbeOp_default :: ProbeOp where
  "ProbeOp_default = \<lparr>po_op = 0, po_resv = 0, po_flags = 0, po_resv2 = 0\<rparr>"

definition ProbeOp_bytes :: "ProbeOp \<Rightarrow> u8 list" where
  "ProbeOp_bytes v = [po_op v, po_resv v] @ le_bytes 2 (po_flags v) @ le_bytes 4 (po_resv2 v)"

definition ProbeOp_of_bytes :: "u8 list \<Rightarrow> ProbeOp" where
  "ProbeOp_of_bytes bs =
     \<lparr>po_op = bs ! 0, po_resv = bs ! 1, po_flags = of_le (take 2 (drop 2 bs)), po_resv2 = of_le (take 4 (drop 4 bs))\<rparr>"

interpretation probe_op: codec ProbeOp_bytes ProbeOp_of_bytes 8
  by unfold_locales (simp_all add: ProbeOp_bytes_def ProbeOp_of_bytes_def of_le_bytes)

record ProbeHeader =
  ph_last_op :: u8
  ph_ops_len :: u8
  ph_resv :: u16
  ph_resv2 :: "u32 \<times> u32 \<times> u32"

definition ProbeHeader_default :: ProbeHeader where
  "ProbeHeader_default = \<lparr>ph_last_op = 0, ph_ops_len = 0, ph_resv = 0, ph_resv2 = (0, 0, 0)\<rparr>"

definition ProbeHeader_bytes :: "ProbeHeader \<Rightarrow> u8 list" where
  "ProbeHeader_bytes v =
     [ph_last_op v, ph_ops_len v] @ le_bytes 2 (ph_resv v) @
     (case ph_resv2 v of (p, q, s) \<Rightarrow> le_bytes 4 p @ le_bytes 4 q @ le_bytes 4 s)"

definition ProbeHeader_of_bytes :: "u8 list \<Rightarrow> ProbeHeader" where
  "ProbeHeader_of_bytes bs =
     \<lparr>ph_last_op = bs ! 0, ph_ops_len = bs ! 1, ph_resv = of_le (take 2 (drop 2 bs)),
      ph_resv2 = (of_le (take 4 (drop 4 bs)), of_le (take 4 (drop 8 bs)), of_le (take 4 (drop 12 bs)))\<rparr>"

interpretation probe_header: codec ProbeHeader_bytes ProbeHeader_of_bytes 16
  by unfold_locales (simp_all add: ProbeHeader_bytes_def ProbeHeader_of_bytes_def of_le_bytes split: prod.split)

definition SLOTS :: u32 where "SLOTS = 256"
definition SLOT_COUNT :: usize where "SLOT_COUNT = ucast SLOTS"

record Probe =
  pr_header :: ProbeHeader
  pr_ops :: "ProbeOp list"

definition Probe_SUPPORTED :: u16 where "Probe_SUPPORTED = 1"

definition Probe_bytes :: "Probe \<Rightarrow> u8 list" where
  "Probe_bytes p = ProbeHeader_bytes (pr_header p) @ concat (map ProbeOp_bytes (pr_ops p))"

definition Probe_of_bytes :: "u8 list \<Rightarrow> Probe" where
  "Probe_of_bytes bs =
     \<lparr>pr_header = ProbeHeader_of_bytes (take 16 bs),
      pr_ops = map (\<lambda>i. ProbeOp_of_bytes (take 8 (drop (16 + 8 * i) bs))) [0..<unat SLOT_COUNT]\<rparr>"

definition interrogate :: "'k regcall \<Rightarrow> u64 \<Rightarrow> IoUring \<Rightarrow> 'k host \<Rightarrow> (Probe, Error) result \<times> 'k host" where
  "interrogate reg sp ring w =
    (let probe = \<lparr>pr_header = ProbeHeader_default, pr_ops = replicate (unat SLOT_COUNT) ProbeOp_default\<rparr>;
         w = put_local sp (Probe_bytes probe) w
     in try_call (io_uring_register reg (r_fd ring) (register_op_u32 RegisterProbe) sp SLOTS w)
          (\<lambda>w. get_local Probe_of_bytes (16 + 8 * unat SLOT_COUNT) sp w))"

definition last_op :: "Probe \<Rightarrow> u8" where "last_op p = ph_last_op (pr_header p)"

definition reported :: "Probe \<Rightarrow> usize" where "reported p = ucast (ph_ops_len (pr_header p))"

text \<open>Slicing past the end of the array panics, \<open>None\<close> here.\<close>

definition supports_raw :: "Probe \<Rightarrow> u8 \<Rightarrow> bool option" where
  "supports_raw p raw =
    (if unat (reported p) > length (pr_ops p) then None
     else Some (list_ex (\<lambda>e. po_op e = raw \<and> po_flags e AND Probe_SUPPORTED \<noteq> 0) (take (unat (reported p)) (pr_ops p))))"

definition supports :: "Probe \<Rightarrow> Opcode \<Rightarrow> bool option" where
  "supports p op = supports_raw p (opcode_u8 op)"

definition IoUring_probe :: "'k regcall \<Rightarrow> u64 \<Rightarrow> IoUring \<Rightarrow> 'k host \<Rightarrow> (Probe, Error) result \<times> 'k host" where
  "IoUring_probe reg sp r w = interrogate reg sp r w"

section \<open>What a registration announces\<close>

text \<open>
  The reading of a registration's argument that the source's safety comments promise: an array
  behind a pointer, a structure that leads to arrays, or one structure. A reserved field that
  is not zero makes it unreadable.
\<close>

datatype Registration =
    Files "i32 list" "u64 list option"
  | Buffers "IoVec list" "u64 list option"
  | FilesFrom u32 "i32 list" "u64 list option"
  | BuffersFrom u32 "IoVec list" "u64 list"
  | AllocRange u32 u32
  | Notify i32
  | NotifyAsync i32
  | Affinity "u8 list"
  | MaxWorkers u32 u32
  | EnterRing u32 u64
  | LeaveRing u32
  | Cancel RawSyncCancelReg
  | Napi RawNapi
  | NapiOff RawNapi

definition array_at :: "(u8 list \<Rightarrow> 'v) \<Rightarrow> nat \<Rightarrow> ram \<Rightarrow> u64 \<Rightarrow> nat \<Rightarrow> 'v list" where
  "array_at dec sz m a n = map (\<lambda>i. dec (ram_read m (a + of_nat (sz * i)) sz)) [0..<n]"

abbreviation "i32s \<equiv> array_at of_le 4 :: ram \<Rightarrow> u64 \<Rightarrow> nat \<Rightarrow> i32 list"
abbreviation "u64s \<equiv> array_at of_le 8 :: ram \<Rightarrow> u64 \<Rightarrow> nat \<Rightarrow> u64 list"
abbreviation "IoVecs \<equiv> array_at IoVec_of_bytes 16"

fun announced :: "RegisterOp \<Rightarrow> usize \<Rightarrow> u32 \<Rightarrow> ram \<Rightarrow> Registration option" where
  "announced RegisterBuffers a n m = Some (Buffers (IoVecs m a (unat n)) None)"
| "announced RegisterFiles a n m = Some (Files (i32s m a (unat n)) None)"
| "announced RegisterFilesUpdate a n m =
    (let v = FilesUpdate_of_bytes (ram_read m a 16)
     in if fu_resv v \<noteq> 0 then None else Some (FilesFrom (fu_offset v) (i32s m (fu_fds v) (unat n)) None))"
| "announced RegisterFileAllocRange a n m =
    (let v = FileIndexRange_of_bytes (ram_read m a 16)
     in if fr_resv v \<noteq> 0 \<or> n \<noteq> 0 then None else Some (AllocRange (fr_off v) (fr_len v)))"
| "announced RegisterEventFd a n m = (if n \<noteq> 1 then None else Some (Notify (hd (i32s m a 1))))"
| "announced RegisterEventFdAsync a n m = (if n \<noteq> 1 then None else Some (NotifyAsync (hd (i32s m a 1))))"
| "announced RegisterIowqAff a n m = Some (Affinity (ram_read m a (unat n)))"
| "announced RegisterIowqMaxWorkers a n m =
    (case i32s m a (unat n) of [b, u] \<Rightarrow> Some (MaxWorkers b u) | _ \<Rightarrow> None)"
| "announced RegisterRingFds a n m =
    (let v = RsrcUpdate_of_bytes (ram_read m a 16)
     in if ru_resv v \<noteq> 0 \<or> n \<noteq> 1 then None else Some (EnterRing (ru_offset v) (ru_data v)))"
| "announced UnregisterRingFds a n m =
    (let v = RsrcUpdate_of_bytes (ram_read m a 16)
     in if ru_resv v \<noteq> 0 \<or> ru_data v \<noteq> 0 \<or> n \<noteq> 1 then None else Some (LeaveRing (ru_offset v)))"
| "announced RegisterSyncCancel a n m =
    (let v = RawSyncCancelReg_of_bytes (ram_read m a 64)
     in if list_ex (\<lambda>b. b \<noteq> 0) (rs_pad v) \<or> list_ex (\<lambda>b. b \<noteq> 0) (rs_pad2 v) \<or> n \<noteq> 1 then None
        else Some (Cancel v))"
| "announced RegisterNapi a n m =
    (let v = RawNapi_of_bytes (ram_read m a 16)
     in if rn_pad v \<noteq> (0, 0) \<or> rn_resv v \<noteq> 0 \<or> n \<noteq> 1 then None else Some (Napi v))"
| "announced UnregisterNapi a n m =
    (let v = RawNapi_of_bytes (ram_read m a 16)
     in if rn_pad v \<noteq> (0, 0) \<or> rn_resv v \<noteq> 0 \<or> n \<noteq> 1 then None else Some (NapiOff v))"
| "announced RegisterFiles2 a n m =
    (let v = RsrcRegister_of_bytes (ram_read m a (unat n))
     in if n \<noteq> 32 \<or> rr_flags v \<noteq> 0 \<or> rr_resv2 v \<noteq> 0 then None
        else Some (Files (i32s m (rr_data v) (unat (rr_nr v))) (Some (u64s m (rr_tags v) (unat (rr_nr v))))))"
| "announced RegisterBuffers2 a n m =
    (let v = RsrcRegister_of_bytes (ram_read m a (unat n))
     in if n \<noteq> 32 \<or> rr_flags v \<noteq> 0 \<or> rr_resv2 v \<noteq> 0 then None
        else Some (Buffers (IoVecs m (rr_data v) (unat (rr_nr v))) (Some (u64s m (rr_tags v) (unat (rr_nr v))))))"
| "announced RegisterFilesUpdate2 a n m =
    (let v = RsrcUpdate2_of_bytes (ram_read m a (unat n))
     in if n \<noteq> 32 \<or> r2_resv v \<noteq> 0 \<or> r2_resv2 v \<noteq> 0 then None
        else Some (FilesFrom (r2_offset v) (i32s m (r2_data v) (unat (r2_nr v)))
                    (Some (u64s m (r2_tags v) (unat (r2_nr v))))))"
| "announced RegisterBuffersUpdate a n m =
    (let v = RsrcUpdate2_of_bytes (ram_read m a (unat n))
     in if n \<noteq> 32 \<or> r2_resv v \<noteq> 0 \<or> r2_resv2 v \<noteq> 0 then None
        else Some (BuffersFrom (r2_offset v) (IoVecs m (r2_data v) (unat (r2_nr v)))
                    (u64s m (r2_tags v) (unat (r2_nr v)))))"
| "announced _ a n m = None"

text \<open>
  \<open>out\<close> is the outcome of exactly one call, on memory that differs from the caller's at most
  in the local, whose argument announces \<open>x\<close>.
\<close>

definition announces ::
  "'k regcall \<Rightarrow> u64 \<Rightarrow> IoUring \<Rightarrow> 'k host \<Rightarrow> Registration \<Rightarrow> ('k host \<Rightarrow> 'a) \<Rightarrow> ('a, Error) result \<times> 'k host \<Rightarrow> bool" where
  "announces reg sp r w x v out \<longleftrightarrow>
    (\<exists>op a n m. announced op a n m = Some x \<and> (\<forall>b. 64 \<le> unat (b - sp) \<longrightarrow> m b = h_ram w b) \<and>
       out = try_call (io_uring_register reg (r_fd r) (register_op_u32 op) a n (w\<lparr>h_ram := m\<rparr>)) v)"

text \<open>A borrowed slice: short enough to be counted in 32 bits, and apart from the local.\<close>

definition borrowed :: "u64 \<Rightarrow> nat \<Rightarrow> slice \<Rightarrow> bool" where
  "borrowed sp sz s \<longleftrightarrow>
     unat (sl_len s) < 2 ^ 32 \<and> unat (sl_ptr s) + sz * unat (sl_len s) \<le> 2 ^ 64 \<and> unat sp + 64 \<le> 2 ^ 64 \<and>
     apart (sl_ptr s) (sz * unat (sl_len s)) sp 64"

lemma borrowed_count: "borrowed sp sz s \<Longrightarrow> unat (ucast (sl_len s) :: u32) = unat (sl_len s)"
  by (simp add: borrowed_def unsigned_ucast_eq take_bit_nat_eq_self)

lemma array_at_cong:
  "ram_read m a (sz * n) = ram_read m' a (sz * n) \<Longrightarrow> array_at dec sz m a n = array_at dec sz m' a n"
  unfolding array_at_def
proof (rule map_cong)
  fix i assume eq: "ram_read m a (sz * n) = ram_read m' a (sz * n)" and "i \<in> set [0..<n]"
  then have "i < n" by simp
  have "m (a + of_nat (sz * i) + of_nat j) = m' (a + of_nat (sz * i) + of_nat j)" if "j < sz" for j
  proof -
    have "sz * i + j < sz * n" using \<open>i < n\<close> that
      by (metis Suc_leI add.commute less_le_trans mult_Suc_right mult_le_mono2 nat_add_left_cancel_less)
    then have "ram_read m a (sz * n) ! (sz * i + j) = m (a + of_nat (sz * i + j))"
      "ram_read m' a (sz * n) ! (sz * i + j) = m' (a + of_nat (sz * i + j))" by (simp_all only: nth_ram_read)
    then show ?thesis using eq by (simp add: add.assoc)
  qed
  then have "ram_read m (a + of_nat (sz * i)) sz = ram_read m' (a + of_nat (sz * i)) sz"
    by (intro nth_equalityI) simp_all
  then show "dec (ram_read m (a + of_nat (sz * i)) sz) = dec (ram_read m' (a + of_nat (sz * i)) sz)" by simp
qed simp

lemma array_at_borrowed:
  assumes "borrowed sp sz s" "length bs \<le> 64"
  shows "array_at dec sz (ram_write sp bs m) (sl_ptr s) (unat (sl_len s)) = array_at dec sz m (sl_ptr s) (unat (sl_len s))"
  by (rule array_at_cong, rule ram_read_other) (use assms in \<open>auto simp: borrowed_def apart_def\<close>)

lemma announces_local:
  assumes "announced op sp n (ram_write sp bs (h_ram w)) = Some x" "length bs \<le> 64"
  shows "announces reg sp r w x v (try_call (register_raw reg r (register_op_u32 op) sp n (put_local sp bs w)) v)"
  unfolding announces_def register_raw_def put_local_def
  by (intro exI [of _ op] exI [of _ sp] exI [of _ n] exI [of _ "ram_write sp bs (h_ram w)"])
    (use assms in \<open>simp add: ram_write_def\<close>)

lemma announces_slice:
  assumes "announced op a n (h_ram w) = Some x"
  shows "announces reg sp r w x v (try_call (register_raw reg r (register_op_u32 op) a n w) v)"
  unfolding announces_def register_raw_def
  by (intro exI [of _ op] exI [of _ a] exI [of _ n] exI [of _ "h_ram w"]) (use assms in simp)

lemma raw_sync_cancel_read:
  "RawSyncCancelReg_of_bytes (ram_read (ram_write sp (RawSyncCancelReg_bytes (SyncCancelReg_as_raw c)) m) sp 64) =
   SyncCancelReg_as_raw c"
proof -
  let ?v = "SyncCancelReg_as_raw c"
  have pad: "rs_pad ?v = replicate 7 0" "rs_pad2 ?v = replicate 3 0"
    by (simp_all add: SyncCancelReg_as_raw_def Let_def split: SyncCancelKey.split option.split)
  then have "length (RawSyncCancelReg_bytes ?v) = 64" by (simp add: RawSyncCancelReg_bytes_def eval_nat_numeral)
  then have "ram_read (ram_write sp (RawSyncCancelReg_bytes ?v) m) sp 64 = RawSyncCancelReg_bytes ?v"
    using ram_read_write [of "RawSyncCancelReg_bytes ?v" sp m] by simp
  moreover have "RawSyncCancelReg_of_bytes (RawSyncCancelReg_bytes ?v) = ?v"
    using pad by (simp add: RawSyncCancelReg_of_bytes_def RawSyncCancelReg_bytes_def of_le_bytes eval_nat_numeral nth_append)
  ultimately show ?thesis by simp
qed

lemmas registration_defs =
  register_buffers_def register_files_def update_registered_files_def register_file_alloc_range_def
  register_eventfd_def register_eventfd_async_def register_iowq_affinity_def set_iowq_max_workers_def
  register_ring_fd_def unregister_ring_fd_def register_napi_def unregister_napi_def napi_add_static_id_def
  napi_remove_static_id_def

lemmas structure_reads =
  files_update.read_back file_range.read_back rsrc_update.read_back rsrc_register.read_back
  rsrc_update2.read_back raw_napi.read_back raw_sync_cancel_read

text \<open>The arrays behind one slice, and behind a structure and two slices.\<close>

lemma announce_slices:
  assumes "borrowed sp 4 fds" "borrowed sp 16 bufs" "borrowed sp 1 cpus"
  shows "announces reg sp r w (Files (i32s (h_ram w) (sl_ptr fds) (unat (sl_len fds))) None) (\<lambda>_. ()) (register_files reg r fds w)"
    and "announces reg sp r w (Buffers (IoVecs (h_ram w) (sl_ptr bufs) (unat (sl_len bufs))) None) (\<lambda>_. ())
           (register_buffers reg r bufs w)"
    and "announces reg sp r w (Affinity (ram_read (h_ram w) (sl_ptr cpus) (unat (sl_len cpus)))) (\<lambda>_. ())
           (register_iowq_affinity reg r cpus w)"
    and "announces reg sp r w (FilesFrom off (i32s (h_ram w) (sl_ptr fds) (unat (sl_len fds))) None) (\<lambda>_. ())
           (update_registered_files reg sp r fds off w)"
  using assms unfolding registration_defs Let_def
  by (auto intro!: announces_slice announces_local simp: borrowed_count structure_reads array_at_borrowed
    simp del: register_op_u32.simps)

lemma announce_tagged_files:
  fixes w :: "'k host"
  assumes "borrowed sp 4 fds" "borrowed sp 8 tags" "sl_len fds = sl_len tags"
  defines "es \<equiv> i32s (h_ram w) (sl_ptr fds) (unat (sl_len fds))" and "ts \<equiv> u64s (h_ram w) (sl_ptr tags) (unat (sl_len tags))"
  shows "\<exists>out. register_files_tagged reg sp r fds tags w = Some out \<and> announces reg sp r w (Files es (Some ts)) (\<lambda>_. ()) out"
    and "\<exists>out. update_registered_files_tagged reg sp r fds tags off w = Some out \<and>
      announces reg sp r w (FilesFrom off es (Some ts)) (\<lambda>_. ()) out"
  using assms(1-3) unfolding es_def ts_def
  by (auto intro!: announces_local simp: register_files_tagged_def update_registered_files_tagged_def Let_def
    borrowed_count structure_reads array_at_borrowed [OF assms(1), unfolded assms(3)]
    array_at_borrowed [OF assms(2)] SIZEOF_RsrcRegister_def SIZEOF_RsrcUpdate2_def
    simp del: register_op_u32.simps)

lemma announce_tagged_buffers:
  fixes w :: "'k host"
  assumes "borrowed sp 16 bufs" "borrowed sp 8 tags" "sl_len bufs = sl_len tags"
  defines "es \<equiv> IoVecs (h_ram w) (sl_ptr bufs) (unat (sl_len bufs))" and "ts \<equiv> u64s (h_ram w) (sl_ptr tags) (unat (sl_len tags))"
  shows "\<exists>out. register_buffers_tagged reg sp r bufs tags w = Some out \<and> announces reg sp r w (Buffers es (Some ts)) (\<lambda>_. ()) out"
    and "\<exists>out. update_registered_buffers_tagged reg sp r bufs tags off w = Some out \<and>
      announces reg sp r w (BuffersFrom off es ts) (\<lambda>_. ()) out"
  using assms(1-3) unfolding es_def ts_def
  by (auto intro!: announces_local simp: register_buffers_tagged_def update_registered_buffers_tagged_def Let_def
    borrowed_count structure_reads array_at_borrowed [OF assms(1), unfolded assms(3)]
    array_at_borrowed [OF assms(2)] SIZEOF_RsrcRegister_def SIZEOF_RsrcUpdate2_def
    simp del: register_op_u32.simps)

lemma i32_single: "i32s (ram_write sp (le_bytes 4 x) m) sp (Suc 0) = [x]"
  using ram_read_write [of "le_bytes 4 x" sp m] by (simp add: array_at_def of_le_bytes)

lemma i32_pair:
  "i32s (ram_write sp (le_bytes 4 a @ le_bytes 4 b) m) sp 2 = [a, b]"
  using ram_read_part [of 0 4 "le_bytes 4 a @ le_bytes 4 b" sp m] ram_read_part [of 4 4 "le_bytes 4 a @ le_bytes 4 b" sp m]
  by (simp add: array_at_def upt_rec of_le_bytes)

lemma announce_locals:
  shows "announces reg sp r w (AllocRange off l) (\<lambda>_. ()) (register_file_alloc_range reg sp r off l w)"
    and "announces reg sp r w (Notify (as_i32 efd)) (\<lambda>_. ()) (register_eventfd reg sp r efd w)"
    and "announces reg sp r w (NotifyAsync (as_i32 efd)) (\<lambda>_. ()) (register_eventfd_async reg sp r efd w)"
    and "announces reg sp r w (MaxWorkers b u) (\<lambda>_. ()) (set_iowq_max_workers reg sp r b u w)"
    and "announces reg sp r w (LeaveRing off) (\<lambda>_. ()) (unregister_ring_fd reg sp r off w)"
    and "announces reg sp r w (Napi (RawNapi_static_id StaticAddId nid)) (\<lambda>_. ()) (napi_add_static_id reg sp r nid w)"
    and "announces reg sp r w (Napi (RawNapi_static_id StaticDelId nid)) (\<lambda>_. ()) (napi_remove_static_id reg sp r nid w)"
  unfolding registration_defs Let_def
  by (auto intro!: announces_local simp: structure_reads i32_single i32_pair
      RawNapi_static_id_def simp del: register_op_u32.simps)

lemma announce_replies:
  shows "announces reg sp r w (EnterRing (- 1) (as_usize (r_fd r)))
      (\<lambda>w. ru_offset (RsrcUpdate_of_bytes (ram_read (h_ram w) sp 16))) (register_ring_fd reg sp r w)"
    and "announces reg sp r w (Napi (RawNapi_register t b k))
      (\<lambda>w. NapiSettings_from_raw (RawNapi_of_bytes (ram_read (h_ram w) sp 16))) (register_napi reg sp r t b k w)"
    and "announces reg sp r w (NapiOff RawNapi_default)
      (\<lambda>w. NapiSettings_from_raw (RawNapi_of_bytes (ram_read (h_ram w) sp 16))) (unregister_napi reg sp r w)"
  unfolding registration_defs Let_def get_local_def
  by (auto intro!: announces_local simp: structure_reads RawNapi_register_def RawNapi_default_def
    simp del: register_op_u32.simps)

section \<open>Properties\<close>


text \<open>A kernel that returns a count and writes a byte into the local, and slices beside it.\<close>

definition tame_reg :: "nat regcall" where
  "tame_reg fd op a n w = (ucast n, w\<lparr>h_k := h_k w + 1, h_ram := (h_ram w)(a := 7)\<rparr>)"


lemma ucast_uminus_down: "(ucast (- (x :: u64)) :: u32) = - ucast x"
proof transfer
  fix x :: int
  have "take_bit 32 (take_bit 64 (- take_bit 64 x)) = take_bit 32 (take_bit 64 (- x))" by (simp only: take_bit_minus)
  then show "take_bit LENGTH(32) (take_bit LENGTH(64) (- x)) = take_bit LENGTH(32) (- take_bit LENGTH(64) x)"
    by (simp add: take_bit_take_bit del: take_bit_minus)
qed

lemma sint_ucast_small:
  assumes "0 \<le> sint (x :: u64)" "sint x < 2 ^ 31"
  shows "sint (ucast x :: u32) = sint x"
proof -
  have "(ucast x :: u32) = word_of_int (sint x)" by transfer (simp add: take_bit_signed_take_bit)
  then have "sint (ucast x :: u32) = signed_take_bit 31 (sint x)" by (simp only: sint_sbintrunc') simp
  also have "\<dots> = sint x" by (rule signed_take_bit_int_eq_self) (use assms in simp_all)
  finally show ?thesis .
qed

lemma check_sync_cancel:
  assumes "- 4095 \<le> sint (ret :: isize)" "sint ret < 2 ^ 31"
  shows "(case check ret of Ok n \<Rightarrow> Applied (ucast n) | Err e \<Rightarrow> CancelOutcome_from_raw (- errno_raw e)) =
    CancelOutcome_from_raw (ucast ret)"
proof (cases "sint ret < 0")
  case True
  then show ?thesis using assms(1) by (simp add: check_def MAX_ERRNO_def ucast_uminus_down)
next
  case False
  then have pos: "0 \<le> sint (ucast ret :: i32)" using sint_ucast_small [of ret] assms(2) by simp
  then have "(ucast ret :: i32) \<noteq> - 2" "(ucast ret :: i32) \<noteq> - 114" by (auto)
  then show ?thesis using pos False by (simp add: check_def CancelOutcome_from_raw_def)
qed

text \<open>C38. A synchronous cancellation is always answered with an outcome, never with an error, and the
  outcome is the one a submitted cancellation with the same result would get. The kernel
  reads the key, the flags with the bit of the key and of the opcode added, the timeout, or
  minus one for none, and zero padding.\<close>

theorem sync_cancel_classified:
  assumes "- 4095 \<le> sint ret" "sint ret < 2 ^ 31"
    and "reg (r_fd r) 24 sp 1 (put_local sp (RawSyncCancelReg_bytes (SyncCancelReg_as_raw c)) w) = (ret, w')"
  shows "sync_cancel reg sp r c w = (Ok (CancelOutcome_from_raw (ucast ret)), w') \<and>
    announced RegisterSyncCancel sp 1 (h_ram (put_local sp (RawSyncCancelReg_bytes (SyncCancelReg_as_raw c)) w)) =
      Some (Cancel \<lparr>rs_addr = (case sc_key c of Key_UserData u \<Rightarrow> u | _ \<Rightarrow> 0),
        rs_fd = (case sc_key c of Key_Fd fd \<Rightarrow> as_i32 fd | _ \<Rightarrow> 0),
        rs_flags = sc_flags c OR (case sc_key c of Key_UserData _ \<Rightarrow> 0 | Key_Fd _ \<Rightarrow> 2 | Key_Any \<Rightarrow> 4) OR
          (case sc_opcode c of None \<Rightarrow> 0 | Some _ \<Rightarrow> 32),
        rs_timeout = (case sc_timeout c of None \<Rightarrow> \<lparr>rt_sec = - 1, rt_nsec = - 1\<rparr>
          | Some t \<Rightarrow> \<lparr>rt_sec = tv_sec t, rt_nsec = tv_nsec t\<rparr>),
        rs_opcode = (case sc_opcode c of None \<Rightarrow> 0 | Some op \<Rightarrow> opcode_u8 op),
        rs_pad = replicate 7 0, rs_pad2 = replicate 3 0\<rparr>)"
proof -
  let ?raw = "SyncCancelReg_as_raw c"
  have "sync_cancel reg sp r c w =
      (Ok (case check ret of Ok n \<Rightarrow> Applied (ucast n) | Err e \<Rightarrow> CancelOutcome_from_raw (- errno_raw e)), w')"
    using assms(3) by (simp add: sync_cancel_def register_raw_def io_uring_register_def Let_def split: result.split)
  moreover have "rs_pad ?raw = replicate 7 0" "rs_pad2 ?raw = replicate 3 0"
    by (simp_all add: SyncCancelReg_as_raw_def Let_def split: SyncCancelKey.split option.split)
  then have "announced RegisterSyncCancel sp 1 (h_ram (put_local sp (RawSyncCancelReg_bytes ?raw) w)) = Some (Cancel ?raw)"
    by (simp add: put_local_def raw_sync_cancel_read list_ex_iff)
  ultimately show ?thesis
    using check_sync_cancel [OF assms(1, 2)]
    by (simp add: SyncCancelReg_as_raw_def RawTimeout_NONE_def RawTimeout_from_def cancel_flag_defs or.assoc
      split: SyncCancelKey.split option.split)
qed

text \<open>A kernel that refuses every cancellation as too late.\<close>

definition late_reg :: "nat regcall" where
  "late_reg fd op a n w = (- 114, w\<lparr>h_k := h_k w + 1\<rparr>)"

theorem sync_cancel_classified_witness:
  "fst (sync_cancel late_reg 4096 ex_ring (SyncCancelReg_matching_opcode Op_Read (SyncCancelReg_user_data 9 0))
     \<lparr>h_k = 0, h_ram = \<lambda>_. 0\<rparr>) = Ok AlreadyCompleting"
proof -
  let ?c = "SyncCancelReg_matching_opcode Op_Read (SyncCancelReg_user_data 9 0)"
  let ?w = "put_local 4096 (RawSyncCancelReg_bytes (SyncCancelReg_as_raw ?c)) \<lparr>h_k = 0, h_ram = \<lambda>_. 0\<rparr> :: nat host"
  have "late_reg (r_fd ex_ring) 24 4096 1 ?w = (- 114, ?w\<lparr>h_k := h_k ?w + 1\<rparr>)" by (simp add: late_reg_def)
  from sync_cancel_classified [where reg = late_reg and sp = 4096 and c = ?c, OF _ _ this] show ?thesis by (simp add: CancelOutcome_from_raw_def)
qed

lemma narrowed_key_flags:
  "rs_flags (SyncCancelReg_as_raw (SyncCancelReg_matching_opcode op (SyncCancelReg_user_data u flags))) = flags OR CANCEL_OP"
  by (simp add: SyncCancelReg_as_raw_def SyncCancelReg_matching_opcode_def SyncCancelReg_user_data_def)

section \<open>What a probe answers\<close>

lemma probe_ops_read:
  assumes "i < 256"
  shows "pr_ops (Probe_of_bytes (ram_read m sp 2064)) ! i = ProbeOp_of_bytes (ram_read m (sp + of_nat (16 + 8 * i)) 8)"
proof -
  have "take 8 (drop (16 + 8 * i) (ram_read m sp 2064)) = ram_read m (sp + of_nat (16 + 8 * i)) 8"
    by (rule nth_equalityI) (use assms in \<open>auto simp: add.assoc simp flip: of_nat_add\<close>)
  then show ?thesis using assms by (simp add: Probe_of_bytes_def SLOT_COUNT_def SLOTS_def)
qed

lemma supported_bit: "(of_le (take 2 (drop 2 (ram_read m a 8))) :: u16) AND Probe_SUPPORTED \<noteq> 0 \<longleftrightarrow> bit (m (a + 2)) 0"
proof -
  have "x AND Probe_SUPPORTED \<noteq> 0 \<longleftrightarrow> bit x 0" for x :: u16
    by (simp add: Probe_SUPPORTED_def and_one_eq bit_0 odd_iff_mod_2_eq_one)
  then show ?thesis by (simp add: bit_of_le)
qed

lemma concat_replicate_replicate: "concat (replicate n (replicate k x)) = replicate (n * k) x"
  by (induction n) (simp_all add: replicate_add)

lemma blank_probe:
  "Probe_bytes \<lparr>pr_header = ProbeHeader_default, pr_ops = replicate n ProbeOp_default\<rparr> = replicate (16 + 8 * n) 0"
proof -
  have "ProbeHeader_bytes ProbeHeader_default = replicate 16 0" "ProbeOp_bytes ProbeOp_default = replicate 8 0"
    by code_simp+
  then show ?thesis by (simp add: Probe_bytes_def concat_replicate_replicate replicate_add mult.commute)
qed

text \<open>C39. A probe hands the kernel zeroed slots for every opcode there can be, and afterwards answers
  from the entries the kernel reported and from no other: it never reads past the array, and
  an opcode is supported exactly when a reported entry names it with the supported bit.\<close>

theorem probe_answers_reported:
  assumes "reg (r_fd r) 8 sp 256 (put_local sp (replicate 2064 0) w) = (ret, w')"
  shows "IoUring_probe reg sp r w =
      (case check ret of Err e \<Rightarrow> Err (Syscall e) | Ok _ \<Rightarrow> Ok (Probe_of_bytes (ram_read (h_ram w') sp 2064)), w') \<and>
    (\<forall>p. fst (IoUring_probe reg sp r w) = Ok p \<longrightarrow>
       last_op p = h_ram w' sp \<and> reported p = ucast (h_ram w' (sp + 1)) \<and>
       supports_raw p raw = Some (\<exists>i < unat (h_ram w' (sp + 1)).
         h_ram w' (sp + of_nat (16 + 8 * i)) = raw \<and> bit (h_ram w' (sp + of_nat (16 + 8 * i) + 2)) 0))"
proof -
  let ?m = "h_ram w'" and ?p = "Probe_of_bytes (ram_read (h_ram w') sp 2064)"
  have call: "IoUring_probe reg sp r w =
      (case check ret of Err e \<Rightarrow> Err (Syscall e) | Ok _ \<Rightarrow> Ok ?p, w')"
    using assms by (simp add: blank_probe IoUring_probe_def interrogate_def io_uring_register_def try_call_def get_local_def
      Let_def SLOTS_def SLOT_COUNT_def split: result.split)
  have head: "last_op ?p = ?m sp" "reported ?p = ucast (?m (sp + 1))" "length (pr_ops ?p) = 256"
    by (simp_all add: last_op_def reported_def Probe_of_bytes_def ProbeHeader_of_bytes_def SLOT_COUNT_def SLOTS_def)
  have small: "unat (?m (sp + 1)) < 256"
    by (rule unsigned_less [THEN order_less_le_trans]) simp
  then have n: "unat (ucast (?m (sp + 1)) :: u64) = unat (?m (sp + 1))" "unat (?m (sp + 1)) < 256"
    by (simp_all add: unsigned_ucast_eq take_bit_nat_eq_self)
  have entry: "po_op (pr_ops ?p ! i) = ?m (sp + of_nat (16 + 8 * i)) \<and>
      (po_flags (pr_ops ?p ! i) AND Probe_SUPPORTED \<noteq> 0 \<longleftrightarrow> bit (?m (sp + of_nat (16 + 8 * i) + 2)) 0)" if "i < 256" for i
    unfolding probe_ops_read [OF that] by (simp add: ProbeOp_of_bytes_def supported_bit del: of_nat_add)
  have "supports_raw ?p raw = Some (\<exists>i < unat (?m (sp + 1)).
      ?m (sp + of_nat (16 + 8 * i)) = raw \<and> bit (?m (sp + of_nat (16 + 8 * i) + 2)) 0)"
    using n(2) by (simp add: supports_raw_def head n(1) list_ex_length entry cong: conj_cong del: of_nat_add of_nat_mult)
  then show ?thesis using call head(1, 2) by (auto split: result.split_asm)
qed

text \<open>A kernel that reports one supported opcode, the read, in the first of two entries.\<close>

definition probe_reg :: "nat regcall" where
  "probe_reg fd op a n w =
     (0, w\<lparr>h_ram := ram_write a ([60, 2] @ replicate 14 0 @ [22, 0, 1, 0, 0, 0, 0, 0, 1, 0, 0]) (h_ram w)\<rparr>)"

theorem probe_answers_reported_witness:
  "\<exists>p. fst (IoUring_probe probe_reg 4096 ex_ring \<lparr>h_k = 0, h_ram = \<lambda>_. 0\<rparr>) = Ok p \<and>
     last_op p = 60 \<and> supports p Op_Read = Some True \<and> supports p Op_Readv = Some False"
proof -
  let ?w0 = "put_local 4096 (replicate 2064 0) \<lparr>h_k = 0, h_ram = \<lambda>_. 0\<rparr> :: nat host"
  let ?w' = "?w0\<lparr>h_ram := ram_write 4096 ([60, 2] @ replicate 14 0 @ [22, 0, 1, 0, 0, 0, 0, 0, 1, 0, 0]) (h_ram ?w0)\<rparr>"
  have "probe_reg (r_fd ex_ring) 8 4096 256 ?w0 = (0, ?w')" by (simp add: probe_reg_def)
  note answers = probe_answers_reported [where reg = probe_reg, OF this]
  let ?L = "[60, 2] @ replicate 14 0 @ [22, 0, 1, 0, 0, 0, 0, 0, 1, 0, 0]"
  have "ram_write 4096 ?L m 4096 = 60" "ram_write 4096 ?L m (4096 + 1) = 2"
    "ram_write 4096 ?L m (4096 + of_nat (16 + 8 * 0)) = 22" "ram_write 4096 ?L m (4096 + of_nat (16 + 8 * 0) + 2) = 1"
    "ram_write 4096 ?L m (4096 + of_nat (16 + 8 * 1)) = 1" "ram_write 4096 ?L m (4096 + of_nat (16 + 8 * 1) + 2) = 0" for m
    by code_simp+
  moreover have "h_ram ?w' = ram_write 4096 ?L (h_ram ?w0)" by simp
  ultimately have bytes: "h_ram ?w' 4096 = 60" "h_ram ?w' (4096 + 1) = 2"
    "h_ram ?w' (4096 + of_nat (16 + 8 * 0)) = 22" "h_ram ?w' (4096 + of_nat (16 + 8 * 0) + 2) = 1"
    "h_ram ?w' (4096 + of_nat (16 + 8 * 1)) = 1" "h_ram ?w' (4096 + of_nat (16 + 8 * 1) + 2) = 0"
    by (simp_all only:)
  have two: "(\<exists>i < unat (2 :: u8). P i) \<longleftrightarrow> P 0 \<or> P 1" for P by (auto simp: less_2_cases_iff)
  show ?thesis
    using answers [of 22] answers [of 1] unfolding bytes two by (auto simp: supports_def bytes)
qed

end
