(* ===== verification/Handles.thy ===== *)
theory Handles
  imports Register Descriptors
begin

text \<open>
  Values that own a descriptor (\<open>src/net.rs\<close>, \<open>src/fs.rs\<close>, \<open>src/eventfd.rs\<close>, \<open>src/inotify.rs\<close>)
  over the system calls of \<open>src/syscall/mod.rs\<close>, with the numbers of x86_64. The trampoline
  into the kernel is the parameter \<open>sys\<close>. The fields \<open>p_fds\<close> and \<open>p_bad\<close> of the state are a
  ledger: the descriptors that were opened and not closed, and whether one was closed that
  was not open. The locale \<open>descriptor_owner\<close> is the contract of an owning value.
\<close>

section \<open>System calls\<close>

record 'k proc = "'k host" +
  p_fds :: "RawFd list"
  p_bad :: bool

type_synonym 'k sys = "usize \<Rightarrow> usize list \<Rightarrow> 'k \<times> ram \<Rightarrow> isize \<times> 'k \<times> ram"

definition SYS_READ :: usize where "SYS_READ = 0"
definition SYS_WRITE :: usize where "SYS_WRITE = 1"
definition SYS_CLOSE :: usize where "SYS_CLOSE = 3"
definition SYS_SOCKET :: usize where "SYS_SOCKET = 41"
definition SYS_CONNECT :: usize where "SYS_CONNECT = 42"
definition SYS_ACCEPT4 :: usize where "SYS_ACCEPT4 = 288"
definition SYS_SENDTO :: usize where "SYS_SENDTO = 44"
definition SYS_RECVFROM :: usize where "SYS_RECVFROM = 45"
definition SYS_SHUTDOWN :: usize where "SYS_SHUTDOWN = 48"
definition SYS_BIND :: usize where "SYS_BIND = 49"
definition SYS_LISTEN :: usize where "SYS_LISTEN = 50"
definition SYS_GETSOCKNAME :: usize where "SYS_GETSOCKNAME = 51"
definition SYS_SETSOCKOPT :: usize where "SYS_SETSOCKOPT = 54"
definition SYS_GETSOCKOPT :: usize where "SYS_GETSOCKOPT = 55"
definition SYS_PIPE2 :: usize where "SYS_PIPE2 = 293"
definition SYS_EVENTFD2 :: usize where "SYS_EVENTFD2 = 290"
definition SYS_INOTIFY_INIT1 :: usize where "SYS_INOTIFY_INIT1 = 294"
definition SYS_INOTIFY_ADD_WATCH :: usize where "SYS_INOTIFY_ADD_WATCH = 254"
definition SYS_INOTIFY_RM_WATCH :: usize where "SYS_INOTIFY_RM_WATCH = 255"

definition raw_call :: "'k sys \<Rightarrow> usize \<Rightarrow> usize list \<Rightarrow> 'k proc \<Rightarrow> isize \<times> 'k proc" where
  "raw_call sys nr args w =
     (case sys nr args (h_k w, h_ram w) of (ret, k, m) \<Rightarrow> (ret, w\<lparr>h_k := k, h_ram := m\<rparr>))"

text \<open>\<open>check\<close> of the return, alone, with its value discarded, or as a descriptor that is now open.\<close>

definition checked :: "isize \<times> 'k proc \<Rightarrow> (usize, Errno) result \<times> 'k proc" where
  "checked c = (case c of (ret, w) \<Rightarrow> (check ret, w))"

definition checked_unit :: "isize \<times> 'k proc \<Rightarrow> (unit, Errno) result \<times> 'k proc" where
  "checked_unit c = (case c of (ret, w) \<Rightarrow> (map_ok (\<lambda>_. ()) (check ret), w))"

definition checked_fd :: "isize \<times> 'k proc \<Rightarrow> (RawFd, Errno) result \<times> 'k proc" where
  "checked_fd c =
    (case c of (ret, w) \<Rightarrow>
      (case check ret of Err e \<Rightarrow> (Err e, w) | Ok v \<Rightarrow> (Ok (RawFd v), w\<lparr>p_fds := RawFd v # p_fds w\<rparr>)))"

definition syscall_socket ::
  "'k sys \<Rightarrow> i32 \<Rightarrow> i32 \<Rightarrow> i32 \<Rightarrow> 'k proc \<Rightarrow> (RawFd, Errno) result \<times> 'k proc" where
  "syscall_socket sys domain sock_type protocol w = checked_fd (raw_call sys SYS_SOCKET [scast domain, scast sock_type, scast protocol] w)"

definition syscall_connect ::
  "'k sys \<Rightarrow> RawFd \<Rightarrow> u64 \<Rightarrow> u32 \<Rightarrow> 'k proc \<Rightarrow> (unit, Errno) result \<times> 'k proc" where
  "syscall_connect sys fd address addrlen w = checked_unit (raw_call sys SYS_CONNECT [as_usize fd, address, ucast addrlen] w)"

definition syscall_accept4 ::
  "'k sys \<Rightarrow> RawFd \<Rightarrow> u64 \<Rightarrow> u64 \<Rightarrow> i32 \<Rightarrow> 'k proc \<Rightarrow> (RawFd, Errno) result \<times> 'k proc" where
  "syscall_accept4 sys fd address addrlen flags w = checked_fd (raw_call sys SYS_ACCEPT4 [as_usize fd, address, addrlen, scast flags] w)"

definition syscall_bind ::
  "'k sys \<Rightarrow> RawFd \<Rightarrow> u64 \<Rightarrow> u32 \<Rightarrow> 'k proc \<Rightarrow> (unit, Errno) result \<times> 'k proc" where
  "syscall_bind sys fd address addrlen w = checked_unit (raw_call sys SYS_BIND [as_usize fd, address, ucast addrlen] w)"

definition syscall_listen ::
  "'k sys \<Rightarrow> RawFd \<Rightarrow> i32 \<Rightarrow> 'k proc \<Rightarrow> (unit, Errno) result \<times> 'k proc" where
  "syscall_listen sys fd backlog w = checked_unit (raw_call sys SYS_LISTEN [as_usize fd, scast backlog] w)"

definition syscall_getsockname ::
  "'k sys \<Rightarrow> RawFd \<Rightarrow> u64 \<Rightarrow> u64 \<Rightarrow> 'k proc \<Rightarrow> (unit, Errno) result \<times> 'k proc" where
  "syscall_getsockname sys fd address addrlen w = checked_unit (raw_call sys SYS_GETSOCKNAME [as_usize fd, address, addrlen] w)"

definition syscall_setsockopt ::
  "'k sys \<Rightarrow> RawFd \<Rightarrow> i32 \<Rightarrow> i32 \<Rightarrow> u64 \<Rightarrow> u32 \<Rightarrow> 'k proc \<Rightarrow> (unit, Errno) result \<times> 'k proc" where
  "syscall_setsockopt sys fd level optname optv optl w = checked_unit (raw_call sys SYS_SETSOCKOPT [as_usize fd, scast level, scast optname, optv, ucast optl] w)"

definition syscall_getsockopt ::
  "'k sys \<Rightarrow> RawFd \<Rightarrow> i32 \<Rightarrow> i32 \<Rightarrow> u64 \<Rightarrow> u64 \<Rightarrow> 'k proc \<Rightarrow> (unit, Errno) result \<times> 'k proc" where
  "syscall_getsockopt sys fd level optname optv optl w = checked_unit (raw_call sys SYS_GETSOCKOPT [as_usize fd, scast level, scast optname, optv, optl] w)"

definition syscall_sendto ::
  "'k sys \<Rightarrow> RawFd \<Rightarrow> u64 \<Rightarrow> usize \<Rightarrow> u32 \<Rightarrow> 'k proc \<Rightarrow> (usize, Errno) result \<times> 'k proc" where
  "syscall_sendto sys fd buf l flags w = checked (raw_call sys SYS_SENDTO [as_usize fd, buf, l, ucast flags, 0, 0] w)"

definition syscall_recvfrom ::
  "'k sys \<Rightarrow> RawFd \<Rightarrow> u64 \<Rightarrow> usize \<Rightarrow> u32 \<Rightarrow> 'k proc \<Rightarrow> (usize, Errno) result \<times> 'k proc" where
  "syscall_recvfrom sys fd buf l flags w = checked (raw_call sys SYS_RECVFROM [as_usize fd, buf, l, ucast flags, 0, 0] w)"

definition syscall_shutdown ::
  "'k sys \<Rightarrow> RawFd \<Rightarrow> u32 \<Rightarrow> 'k proc \<Rightarrow> (unit, Errno) result \<times> 'k proc" where
  "syscall_shutdown sys fd how w = checked_unit (raw_call sys SYS_SHUTDOWN [as_usize fd, ucast how] w)"

definition syscall_read ::
  "'k sys \<Rightarrow> RawFd \<Rightarrow> u64 \<Rightarrow> usize \<Rightarrow> 'k proc \<Rightarrow> (usize, Errno) result \<times> 'k proc" where
  "syscall_read sys fd buf l w = checked (raw_call sys SYS_READ [as_usize fd, buf, l] w)"

definition syscall_write ::
  "'k sys \<Rightarrow> RawFd \<Rightarrow> u64 \<Rightarrow> usize \<Rightarrow> 'k proc \<Rightarrow> (usize, Errno) result \<times> 'k proc" where
  "syscall_write sys fd buf l w = checked (raw_call sys SYS_WRITE [as_usize fd, buf, l] w)"

text \<open>The kernel releases the descriptor even when \<open>close\<close> reports an error.\<close>

definition syscall_close :: "'k sys \<Rightarrow> RawFd \<Rightarrow> 'k proc \<Rightarrow> (unit, Errno) result \<times> 'k proc" where
  "syscall_close sys fd w =
     checked_unit (raw_call sys SYS_CLOSE [as_usize fd]
       (w\<lparr>p_fds := remove1 fd (p_fds w), p_bad := p_bad w \<or> fd \<notin> set (p_fds w)\<rparr>))"

definition syscall_eventfd2 ::
  "'k sys \<Rightarrow> u32 \<Rightarrow> i32 \<Rightarrow> 'k proc \<Rightarrow> (RawFd, Errno) result \<times> 'k proc" where
  "syscall_eventfd2 sys initval flags w = checked_fd (raw_call sys SYS_EVENTFD2 [ucast initval, scast flags] w)"

definition syscall_pipe2 ::
  "'k sys \<Rightarrow> u64 \<Rightarrow> i32 \<Rightarrow> 'k proc \<Rightarrow> (unit, Errno) result \<times> 'k proc" where
  "syscall_pipe2 sys fds flags w = checked_unit (raw_call sys SYS_PIPE2 [fds, scast flags] w)"

definition syscall_inotify_init1 ::
  "'k sys \<Rightarrow> i32 \<Rightarrow> 'k proc \<Rightarrow> (RawFd, Errno) result \<times> 'k proc" where
  "syscall_inotify_init1 sys flags w = checked_fd (raw_call sys SYS_INOTIFY_INIT1 [scast flags] w)"

definition syscall_inotify_add_watch ::
  "'k sys \<Rightarrow> RawFd \<Rightarrow> u64 \<Rightarrow> u32 \<Rightarrow> 'k proc \<Rightarrow> (usize, Errno) result \<times> 'k proc" where
  "syscall_inotify_add_watch sys fd path m w = checked (raw_call sys SYS_INOTIFY_ADD_WATCH [as_usize fd, path, ucast m] w)"

definition syscall_inotify_rm_watch ::
  "'k sys \<Rightarrow> RawFd \<Rightarrow> i32 \<Rightarrow> 'k proc \<Rightarrow> (unit, Errno) result \<times> 'k proc" where
  "syscall_inotify_rm_watch sys fd wd w = checked_unit (raw_call sys SYS_INOTIFY_RM_WATCH [as_usize fd, scast wd] w)"

text \<open>\<open>?\<close> and \<open>map_err(Into::into)\<close> on a call, with the value that follows it.\<close>

definition or_errno :: "('a, Errno) result \<times> 'k proc \<Rightarrow> ('a \<Rightarrow> 'k proc \<Rightarrow> 'b) \<Rightarrow> ('b, Error) result \<times> 'k proc" where
  "or_errno c f = (case c of (Err e, w) \<Rightarrow> (Err (Error_from_Errno e), w) | (Ok v, w) \<Rightarrow> (Ok (f v w), w))"

section \<open>Sockets (\<open>net.rs\<close>)\<close>

definition Socket_new :: "'k sys \<Rightarrow> i32 \<Rightarrow> i32 \<Rightarrow> i32 \<Rightarrow> 'k proc \<Rightarrow> (Socket, Error) result \<times> 'k proc" where
  "Socket_new sys domain sock_type protocol w =
     or_errno (syscall_socket sys domain sock_type protocol w) (\<lambda>fd _. Socket fd)"

definition Socket_with_typed_flags ::
  "'k sys \<Rightarrow> AddressFamily \<Rightarrow> SocketType \<Rightarrow> i32 \<Rightarrow> u32 \<Rightarrow> 'k proc \<Rightarrow> (Socket, Error) result \<times> 'k proc" where
  "Socket_with_typed_flags sys domain sock_type protocol flags w =
     or_errno (syscall_socket sys (AddressFamily_as_raw domain) (SocketType_as_raw sock_type OR flags) protocol w)
       (\<lambda>fd _. Socket fd)"

text \<open>A borrowed address lies in memory at the address passed.\<close>

definition Socket_bind :: "'k sys \<Rightarrow> Socket \<Rightarrow> u64 \<Rightarrow> 'k proc \<Rightarrow> (unit, Error) result \<times> 'k proc" where
  "Socket_bind sys s address w =
     or_errno (syscall_bind sys (Socket_fd s) address (ucast SIZEOF_SockAddrIn) w) (\<lambda>u _. u)"

definition Socket_connect :: "'k sys \<Rightarrow> Socket \<Rightarrow> u64 \<Rightarrow> 'k proc \<Rightarrow> (unit, Error) result \<times> 'k proc" where
  "Socket_connect sys s address w =
     or_errno (syscall_connect sys (Socket_fd s) address (ucast SIZEOF_SockAddrIn) w) (\<lambda>u _. u)"

text \<open>The locals \<open>addr\<close> and \<open>len\<close> lie at \<open>sa\<close> and \<open>sn\<close>.\<close>

definition Socket_accept ::
  "'k sys \<Rightarrow> u64 \<Rightarrow> u64 \<Rightarrow> Socket \<Rightarrow> u32 \<Rightarrow> 'k proc \<Rightarrow> (Socket \<times> SockAddrIn, Error) result \<times> 'k proc" where
  "Socket_accept sys sa sn s flags w =
    (let w = put_local sa (SockAddrIn_bytes SockAddrIn_default) w;
         w = put_local sn (le_bytes 4 (ucast SIZEOF_SockAddrIn :: u32)) w
     in or_errno (syscall_accept4 sys (Socket_fd s) sa sn flags w)
          (\<lambda>fd w. (Socket fd, get_local SockAddrIn_of_bytes 16 sa w)))"

definition Socket_listen :: "'k sys \<Rightarrow> Socket \<Rightarrow> i32 \<Rightarrow> 'k proc \<Rightarrow> (unit, Error) result \<times> 'k proc" where
  "Socket_listen sys s backlog w = or_errno (syscall_listen sys (Socket_fd s) backlog w) (\<lambda>u _. u)"

definition Socket_set_option ::
  "'k sys \<Rightarrow> Socket \<Rightarrow> i32 \<Rightarrow> i32 \<Rightarrow> u64 \<Rightarrow> usize \<Rightarrow> 'k proc \<Rightarrow> (unit, Error) result \<times> 'k proc" where
  "Socket_set_option sys s level optname v size_of_T w =
     or_errno (syscall_setsockopt sys (Socket_fd s) level optname v (ucast size_of_T) w) (\<lambda>u _. u)"

definition Socket_send :: "'k sys \<Rightarrow> Socket \<Rightarrow> slice \<Rightarrow> u32 \<Rightarrow> 'k proc \<Rightarrow> (usize, Error) result \<times> 'k proc" where
  "Socket_send sys s buf flags w =
     or_errno (syscall_sendto sys (Socket_fd s) (sl_ptr buf) (sl_len buf) flags w) (\<lambda>n _. n)"

definition Socket_recv :: "'k sys \<Rightarrow> Socket \<Rightarrow> slice \<Rightarrow> u32 \<Rightarrow> 'k proc \<Rightarrow> (usize, Error) result \<times> 'k proc" where
  "Socket_recv sys s buf flags w =
     or_errno (syscall_recvfrom sys (Socket_fd s) (sl_ptr buf) (sl_len buf) flags w) (\<lambda>n _. n)"

definition Socket_shutdown :: "'k sys \<Rightarrow> Socket \<Rightarrow> ShutdownHow \<Rightarrow> 'k proc \<Rightarrow> (unit, Error) result \<times> 'k proc" where
  "Socket_shutdown sys s how w = or_errno (syscall_shutdown sys (Socket_fd s) (shutdown_how_u32 how) w) (\<lambda>u _. u)"

definition Socket_close :: "'k sys \<Rightarrow> Socket \<Rightarrow> 'k proc \<Rightarrow> (unit, Error) result \<times> 'k proc" where
  "Socket_close sys s w = or_errno (syscall_close sys (Socket_fd s) w) (\<lambda>u _. u)"

definition Socket_local_addr ::
  "'k sys \<Rightarrow> u64 \<Rightarrow> u64 \<Rightarrow> Socket \<Rightarrow> 'k proc \<Rightarrow> (SockAddrIn, Error) result \<times> 'k proc" where
  "Socket_local_addr sys sa sn s w =
    (let w = put_local sa (SockAddrIn_bytes SockAddrIn_default) w;
         w = put_local sn (le_bytes 4 (ucast SIZEOF_SockAddrIn :: u32)) w
     in or_errno (syscall_getsockname sys (Socket_fd s) sa sn w) (\<lambda>_ w. get_local SockAddrIn_of_bytes 16 sa w))"

definition Socket_drop :: "'k sys \<Rightarrow> Socket \<Rightarrow> 'k proc \<Rightarrow> 'k proc" where
  "Socket_drop sys s w = snd (syscall_close sys (Socket_fd s) w)"

section \<open>Files (\<open>fs.rs\<close>)\<close>

definition File_close :: "'k sys \<Rightarrow> File \<Rightarrow> 'k proc \<Rightarrow> (unit, Error) result \<times> 'k proc" where
  "File_close sys f w = or_errno (syscall_close sys (File_fd f) w) (\<lambda>u _. u)"

definition File_drop :: "'k sys \<Rightarrow> File \<Rightarrow> 'k proc \<Rightarrow> 'k proc" where
  "File_drop sys f w = snd (syscall_close sys (File_fd f) w)"

section \<open>Event counters (\<open>eventfd.rs\<close>)\<close>

datatype EventFd = EventFd (EventFd_fd: RawFd)

definition EVENTFD_NONBLOCK :: i32 where "EVENTFD_NONBLOCK = 2048"
definition EVENTFD_CLOEXEC :: i32 where "EVENTFD_CLOEXEC = 524288"
definition EVENTFD_SEMAPHORE :: i32 where "EVENTFD_SEMAPHORE = 1"

definition EventFd_new :: "'k sys \<Rightarrow> u32 \<Rightarrow> 'k proc \<Rightarrow> (EventFd, Error) result \<times> 'k proc" where
  "EventFd_new sys initval w = or_errno (syscall_eventfd2 sys initval EVENTFD_NONBLOCK w) (\<lambda>fd _. EventFd fd)"

definition EventFd_with_flags :: "'k sys \<Rightarrow> u32 \<Rightarrow> i32 \<Rightarrow> 'k proc \<Rightarrow> (EventFd, Error) result \<times> 'k proc" where
  "EventFd_with_flags sys initval flags w = or_errno (syscall_eventfd2 sys initval flags w) (\<lambda>fd _. EventFd fd)"

definition EventFd_into_fd :: "EventFd \<Rightarrow> RawFd" where "EventFd_into_fd e = EventFd_fd e"

definition EventFd_write :: "'k sys \<Rightarrow> u64 \<Rightarrow> EventFd \<Rightarrow> u64 \<Rightarrow> 'k proc \<Rightarrow> (unit, Error) result \<times> 'k proc" where
  "EventFd_write sys sp e v w =
    (let w = put_local sp (le_bytes 8 v) w
     in or_errno (syscall_write sys (EventFd_fd e) sp 8 w) (\<lambda>_ _. ()))"

definition EventFd_read :: "'k sys \<Rightarrow> u64 \<Rightarrow> EventFd \<Rightarrow> 'k proc \<Rightarrow> (u64, Error) result \<times> 'k proc" where
  "EventFd_read sys sp e w =
    (let w = put_local sp (replicate 8 0) w
     in or_errno (syscall_read sys (EventFd_fd e) sp 8 w) (\<lambda>_ w. get_local of_le 8 sp w))"

definition EventFd_close :: "'k sys \<Rightarrow> EventFd \<Rightarrow> 'k proc \<Rightarrow> (unit, Error) result \<times> 'k proc" where
  "EventFd_close sys e w = or_errno (syscall_close sys (EventFd_fd e) w) (\<lambda>u _. u)"

definition EventFd_drop :: "'k sys \<Rightarrow> EventFd \<Rightarrow> 'k proc \<Rightarrow> 'k proc" where
  "EventFd_drop sys e w = snd (syscall_close sys (EventFd_fd e) w)"

section \<open>Watches (\<open>inotify.rs\<close>)\<close>

datatype Inotify = Inotify (Inotify_fd: RawFd)

definition INOTIFY_NONBLOCK :: i32 where "INOTIFY_NONBLOCK = 2048"
definition INOTIFY_CLOEXEC :: i32 where "INOTIFY_CLOEXEC = 524288"

definition Inotify_with_flags :: "'k sys \<Rightarrow> i32 \<Rightarrow> 'k proc \<Rightarrow> (Inotify, Error) result \<times> 'k proc" where
  "Inotify_with_flags sys flags w = or_errno (syscall_inotify_init1 sys flags w) (\<lambda>fd _. Inotify fd)"

definition Inotify_new :: "'k sys \<Rightarrow> 'k proc \<Rightarrow> (Inotify, Error) result \<times> 'k proc" where
  "Inotify_new sys w = Inotify_with_flags sys INOTIFY_NONBLOCK w"

definition Inotify_into_fd :: "Inotify \<Rightarrow> RawFd" where "Inotify_into_fd i = Inotify_fd i"

definition Inotify_add_watch :: "'k sys \<Rightarrow> Inotify \<Rightarrow> u64 \<Rightarrow> u32 \<Rightarrow> 'k proc \<Rightarrow> (i32, Error) result \<times> 'k proc" where
  "Inotify_add_watch sys i path m w =
     or_errno (syscall_inotify_add_watch sys (Inotify_fd i) path m w) (\<lambda>wd _. ucast wd)"

definition Inotify_remove_watch :: "'k sys \<Rightarrow> Inotify \<Rightarrow> i32 \<Rightarrow> 'k proc \<Rightarrow> (unit, Error) result \<times> 'k proc" where
  "Inotify_remove_watch sys i wd w = or_errno (syscall_inotify_rm_watch sys (Inotify_fd i) wd w) (\<lambda>u _. u)"

definition Inotify_drop :: "'k sys \<Rightarrow> Inotify \<Rightarrow> 'k proc \<Rightarrow> 'k proc" where
  "Inotify_drop sys i w = snd (syscall_close sys (Inotify_fd i) w)"

section \<open>The ledger\<close>

lemma raw_call_ledger [simp]:
  "p_fds (snd (raw_call sys nr args w)) = p_fds w" "p_bad (snd (raw_call sys nr args w)) = p_bad w"
  by (simp_all add: raw_call_def split: prod.split)

lemma checked_ledger [simp]:
  "p_fds (snd (checked c)) = p_fds (snd c)" "p_bad (snd (checked c)) = p_bad (snd c)"
  "p_fds (snd (checked_unit c)) = p_fds (snd c)" "p_bad (snd (checked_unit c)) = p_bad (snd c)"
  by (simp_all add: checked_def checked_unit_def split: prod.split)

lemma or_errno_ledger [simp]:
  "p_fds (snd (or_errno c f)) = p_fds (snd c)" "p_bad (snd (or_errno c f)) = p_bad (snd c)"
  by (simp_all add: or_errno_def split: prod.split result.split)

lemma put_local_ledger [simp]: "p_fds (put_local sp bs w) = p_fds w" "p_bad (put_local sp bs w) = p_bad w"
  by (simp_all add: put_local_def)

lemma checked_fd_ledger:
  "p_fds (snd (checked_fd c)) =
     (case fst (checked_fd c) of Ok fd \<Rightarrow> fd # p_fds (snd c) | Err _ \<Rightarrow> p_fds (snd c))"
  "p_bad (snd (checked_fd c)) = p_bad (snd c)"
  by (simp_all add: checked_fd_def split: prod.split result.split)

lemma fst_or_errno: "fst (or_errno c f) = (case fst c of Ok v \<Rightarrow> Ok (f v (snd c)) | Err e \<Rightarrow> Err (Syscall e))"
  by (simp add: or_errno_def split: prod.split result.split)

lemma close_ledger:
  "p_fds (snd (syscall_close sys fd w)) = remove1 fd (p_fds w)"
  "p_bad (snd (syscall_close sys fd w)) \<longleftrightarrow> p_bad w \<or> fd \<notin> set (p_fds w)"
  by (simp_all add: syscall_close_def)

lemmas use_defs =
  Socket_bind_def Socket_connect_def Socket_listen_def Socket_set_option_def Socket_send_def Socket_recv_def
  Socket_shutdown_def Socket_local_addr_def EventFd_write_def EventFd_read_def Inotify_add_watch_def
  Inotify_remove_watch_def syscall_bind_def syscall_connect_def syscall_listen_def syscall_setsockopt_def
  syscall_sendto_def syscall_recvfrom_def syscall_shutdown_def syscall_getsockname_def syscall_write_def
  syscall_read_def syscall_inotify_add_watch_def syscall_inotify_rm_watch_def

lemmas open_defs =
  Socket_new_def Socket_with_typed_flags_def Socket_accept_def EventFd_new_def EventFd_with_flags_def Inotify_new_def
  Inotify_with_flags_def syscall_socket_def syscall_accept4_def syscall_eventfd2_def syscall_inotify_init1_def

section \<open>The contract of an owning value\<close>

locale descriptor_owner =
  fixes own :: "RawFd \<Rightarrow> 'h"
    and fd_of :: "'h \<Rightarrow> RawFd"
    and into_fd :: "'h \<Rightarrow> RawFd"
    and dropped :: "'k sys \<Rightarrow> 'h \<Rightarrow> 'k proc \<Rightarrow> 'k proc"
  assumes fd_own [simp]: "fd_of (own fd) = fd"
    and into_fd_gives [simp]: "into_fd h = fd_of h"
    and dropped_closes: "dropped sys h w = snd (syscall_close sys (fd_of h) w)"
begin

text \<open>Dropping takes one entry off the ledger, and is never a stray close of what is on it.\<close>

lemma dropped_ledger:
  assumes "mset (p_fds w) = add_mset (fd_of h) F" "\<not> p_bad w"
  shows "mset (p_fds (dropped sys h w)) = F" "\<not> p_bad (dropped sys h w)"
proof -
  have "fd_of h \<in> set (p_fds w)" using assms(1) by (simp flip: set_mset_mset)
  then show "\<not> p_bad (dropped sys h w)" using assms(2) by (simp add: dropped_closes close_ledger)
  show "mset (p_fds (dropped sys h w)) = F" using assms(1) by (simp add: dropped_closes close_ledger)
qed

text \<open>A value that is taken apart and put together again owns the same descriptor.\<close>

lemma own_into_fd: "fd_of (own (into_fd h)) = fd_of h"
  by simp

end

interpretation socket_owner: descriptor_owner Socket_from_fd Socket_fd Socket_into_fd Socket_drop
  by unfold_locales (simp_all add: Socket_from_fd_def Socket_into_fd_def Socket_drop_def)

interpretation file_owner: descriptor_owner File_from_fd File_fd File_into_fd File_drop
  by unfold_locales (simp_all add: File_from_fd_def File_into_fd_def File_drop_def)

interpretation event_owner: descriptor_owner EventFd EventFd_fd EventFd_into_fd EventFd_drop
  by unfold_locales (simp_all add: EventFd_into_fd_def EventFd_drop_def)

interpretation watch_owner: descriptor_owner Inotify Inotify_fd Inotify_into_fd Inotify_drop
  by unfold_locales (simp_all add: Inotify_into_fd_def Inotify_drop_def)

section \<open>A program that uses descriptors\<close>

datatype Handle = HSocket Socket | HFile File | HEventFd EventFd | HInotify Inotify

fun handle_fd :: "Handle \<Rightarrow> RawFd" where
  "handle_fd (HSocket s) = Socket_fd s"
| "handle_fd (HFile f) = File_fd f"
| "handle_fd (HEventFd e) = EventFd_fd e"
| "handle_fd (HInotify i) = Inotify_fd i"

fun handle_drop :: "'k sys \<Rightarrow> Handle \<Rightarrow> 'k proc \<Rightarrow> 'k proc" where
  "handle_drop sys (HSocket s) w = Socket_drop sys s w"
| "handle_drop sys (HFile f) w = File_drop sys f w"
| "handle_drop sys (HEventFd e) w = EventFd_drop sys e w"
| "handle_drop sys (HInotify i) w = Inotify_drop sys i w"

fun handle_into_fd :: "Handle \<Rightarrow> RawFd" where
  "handle_into_fd (HSocket s) = Socket_into_fd s"
| "handle_into_fd (HFile f) = File_into_fd f"
| "handle_into_fd (HEventFd e) = EventFd_into_fd e"
| "handle_into_fd (HInotify i) = Inotify_into_fd i"

text \<open>The values a program holds, and the descriptors it took out of one.\<close>

record 'k desk =
  dk_proc :: "'k proc"
  dk_live :: "Handle multiset"
  dk_loose :: "RawFd multiset"

definition gain :: "('h \<Rightarrow> Handle) \<Rightarrow> ('h, Error) result \<times> 'k proc \<Rightarrow> 'k desk \<Rightarrow> 'k desk" where
  "gain H c s =
    (case c of (Ok h, w) \<Rightarrow> s\<lparr>dk_proc := w, dk_live := add_mset (H h) (dk_live s)\<rparr> | (Err _, w) \<Rightarrow> s\<lparr>dk_proc := w\<rparr>)"

definition lose :: "Handle \<Rightarrow> 'k proc \<Rightarrow> 'k desk \<Rightarrow> 'k desk" where
  "lose h w s = s\<lparr>dk_proc := w, dk_live := dk_live s - {#h#}\<rparr>"

definition touch :: "'k proc \<Rightarrow> 'k desk \<Rightarrow> 'k desk" where
  "touch w s = s\<lparr>dk_proc := w\<rparr>"

inductive desk_step :: "'k sys \<Rightarrow> 'k desk \<Rightarrow> 'k desk \<Rightarrow> bool" for sys where
  open_socket: "desk_step sys s (gain HSocket (Socket_new sys d t p (dk_proc s)) s)"
| open_typed: "desk_step sys s (gain HSocket (Socket_with_typed_flags sys fam ty p fl (dk_proc s)) s)"
| accept: "HSocket h \<in># dk_live s \<Longrightarrow> desk_step sys s (gain (\<lambda>(x, _). HSocket x) (Socket_accept sys sa sn h fl (dk_proc s)) s)"
| open_event: "desk_step sys s (gain HEventFd (EventFd_new sys v (dk_proc s)) s)"
| open_event_flags: "desk_step sys s (gain HEventFd (EventFd_with_flags sys v efl (dk_proc s)) s)"
| open_inotify: "desk_step sys s (gain HInotify (Inotify_new sys (dk_proc s)) s)"
| open_inotify_flags: "desk_step sys s (gain HInotify (Inotify_with_flags sys efl (dk_proc s)) s)"
| bind: "HSocket h \<in># dk_live s \<Longrightarrow> desk_step sys s (touch (snd (Socket_bind sys h a (dk_proc s))) s)"
| connect: "HSocket h \<in># dk_live s \<Longrightarrow> desk_step sys s (touch (snd (Socket_connect sys h a (dk_proc s))) s)"
| listen: "HSocket h \<in># dk_live s \<Longrightarrow> desk_step sys s (touch (snd (Socket_listen sys h backlog (dk_proc s))) s)"
| set_option: "HSocket h \<in># dk_live s \<Longrightarrow> desk_step sys s (touch (snd (Socket_set_option sys h lv nm a n (dk_proc s))) s)"
| send: "HSocket h \<in># dk_live s \<Longrightarrow> desk_step sys s (touch (snd (Socket_send sys h buf fl (dk_proc s))) s)"
| recv: "HSocket h \<in># dk_live s \<Longrightarrow> desk_step sys s (touch (snd (Socket_recv sys h buf fl (dk_proc s))) s)"
| shutdown: "HSocket h \<in># dk_live s \<Longrightarrow> desk_step sys s (touch (snd (Socket_shutdown sys h how (dk_proc s))) s)"
| local_addr: "HSocket h \<in># dk_live s \<Longrightarrow> desk_step sys s (touch (snd (Socket_local_addr sys sa sn h (dk_proc s))) s)"
| event_write: "HEventFd e \<in># dk_live s \<Longrightarrow> desk_step sys s (touch (snd (EventFd_write sys sp e x (dk_proc s))) s)"
| event_read: "HEventFd e \<in># dk_live s \<Longrightarrow> desk_step sys s (touch (snd (EventFd_read sys sp e (dk_proc s))) s)"
| add_watch: "HInotify i \<in># dk_live s \<Longrightarrow> desk_step sys s (touch (snd (Inotify_add_watch sys i a fl (dk_proc s))) s)"
| remove_watch: "HInotify i \<in># dk_live s \<Longrightarrow> desk_step sys s (touch (snd (Inotify_remove_watch sys i wd (dk_proc s))) s)"
| close_socket: "HSocket h \<in># dk_live s \<Longrightarrow> desk_step sys s (lose (HSocket h) (snd (Socket_close sys h (dk_proc s))) s)"
| close_file: "HFile f \<in># dk_live s \<Longrightarrow> desk_step sys s (lose (HFile f) (snd (File_close sys f (dk_proc s))) s)"
| close_event: "HEventFd e \<in># dk_live s \<Longrightarrow> desk_step sys s (lose (HEventFd e) (snd (EventFd_close sys e (dk_proc s))) s)"
| drop_handle: "g \<in># dk_live s \<Longrightarrow> desk_step sys s (lose g (handle_drop sys g (dk_proc s)) s)"
| take_apart: "g \<in># dk_live s \<Longrightarrow>
    desk_step sys s (s\<lparr>dk_live := dk_live s - {#g#}, dk_loose := add_mset (handle_into_fd g) (dk_loose s)\<rparr>)"
| adopt_socket: "fd \<in># dk_loose s \<Longrightarrow>
    desk_step sys s (s\<lparr>dk_live := add_mset (HSocket (Socket_from_fd fd)) (dk_live s), dk_loose := dk_loose s - {#fd#}\<rparr>)"
| adopt_file: "fd \<in># dk_loose s \<Longrightarrow>
    desk_step sys s (s\<lparr>dk_live := add_mset (HFile (File_from_fd fd)) (dk_live s), dk_loose := dk_loose s - {#fd#}\<rparr>)"

definition desk_inv :: "'k desk \<Rightarrow> bool" where
  "desk_inv s \<longleftrightarrow>
     mset (p_fds (dk_proc s)) = image_mset handle_fd (dk_live s) + dk_loose s \<and> \<not> p_bad (dk_proc s)"

lemma handle_drop_closes: "handle_drop sys g w = snd (syscall_close sys (handle_fd g) w)"
  by (cases g) (simp_all add: socket_owner.dropped_closes file_owner.dropped_closes event_owner.dropped_closes
    watch_owner.dropped_closes)

lemma touch_inv: "desk_inv s \<Longrightarrow> p_fds w = p_fds (dk_proc s) \<Longrightarrow> p_bad w = p_bad (dk_proc s) \<Longrightarrow> desk_inv (touch w s)"
  by (simp add: desk_inv_def touch_def)

lemma lose_inv:
  assumes "desk_inv s" "g \<in># dk_live s"
  shows "desk_inv (lose g (snd (syscall_close sys (handle_fd g) (dk_proc s))) s)"
proof -
  obtain G where live: "dk_live s = add_mset g G" using assms(2) by (metis insert_DiffM)
  then have "handle_fd g \<in> set (p_fds (dk_proc s))" using assms(1) by (simp add: desk_inv_def flip: set_mset_mset)
  then show ?thesis using assms(1) live by (simp add: desk_inv_def lose_def close_ledger)
qed

lemma snd_or_errno: "snd (or_errno c f) = snd c"
  by (simp add: or_errno_def split: prod.split result.split)

lemma gain_inv:
  assumes "desk_inv s" "c = or_errno (checked_fd r) f" "p_fds (snd r) = p_fds (dk_proc s)" "p_bad (snd r) = p_bad (dk_proc s)"
    and "\<And>fd w. handle_fd (H (f fd w)) = fd"
  shows "desk_inv (gain H c s)"
proof (cases "fst (checked_fd r)")
  case (Ok fd)
  then have "p_fds (snd (checked_fd r)) = fd # p_fds (snd r)" by (simp add: checked_fd_ledger)
  then show ?thesis using assms Ok checked_fd_ledger(2) [of r]
    by (cases "checked_fd r") (simp add: desk_inv_def gain_def or_errno_def)
next
  case (Err e)
  then have "p_fds (snd (checked_fd r)) = p_fds (snd r)" by (simp add: checked_fd_ledger)
  then show ?thesis using assms Err checked_fd_ledger(2) [of r]
    by (cases "checked_fd r") (simp add: desk_inv_def gain_def or_errno_def)
qed

lemma desk_step_inv: "desk_step sys s t \<Longrightarrow> desk_inv s \<Longrightarrow> desk_inv t"
proof (induction rule: desk_step.induct)
  case (take_apart g s)
  then show ?case by (cases g) (auto simp: desk_inv_def dest!: multi_member_split)
next
  case (adopt_socket fd s)
  then show ?case by (auto simp: desk_inv_def dest!: multi_member_split)
next
  case (adopt_file fd s)
  then show ?case by (auto simp: desk_inv_def dest!: multi_member_split)
next
  case (drop_handle g s)
  then show ?case by (simp add: handle_drop_closes lose_inv)
next
  case (close_socket h s)
  then show ?case using lose_inv [of s "HSocket h"] by (simp add: Socket_close_def snd_or_errno)
next
  case (close_file f s)
  then show ?case using lose_inv [of s "HFile f"] by (simp add: File_close_def snd_or_errno)
next
  case (close_event e s)
  then show ?case using lose_inv [of s "HEventFd e"] by (simp add: EventFd_close_def snd_or_errno)
qed (auto intro!: touch_inv gain_inv simp: open_defs use_defs Let_def split: prod.splits)

definition desk_init :: "'k \<Rightarrow> ram \<Rightarrow> 'k desk" where
  "desk_init k m =
     \<lparr>dk_proc = \<lparr>h_k = k, h_ram = m, p_fds = [], p_bad = False\<rparr>, dk_live = {#}, dk_loose = {#}\<rparr>"

lemma desk_reachable_inv: "(desk_step sys)\<^sup>*\<^sup>* (desk_init k m) s \<Longrightarrow> desk_inv s"
proof (induction rule: rtranclp_induct)
  case base
  then show ?case by (simp add: desk_inv_def desk_init_def)
qed (rule desk_step_inv)

section \<open>Event counters count\<close>

text \<open>
  What \<open>eventfd(2)\<close> promises for a counter that is not a semaphore: a write adds the eight
  bytes, a read takes the whole count.
\<close>

definition counts_events :: "'k sys \<Rightarrow> RawFd \<Rightarrow> ('k \<Rightarrow> u64) \<Rightarrow> bool" where
  "counts_events sys fd ctr \<longleftrightarrow>
    (\<forall>k m a. unat (ctr k) + unat (of_le (ram_read m a 8) :: u64) < 2 ^ 64 - 1 \<longrightarrow>
       (\<exists>k'. sys SYS_WRITE [as_usize fd, a, 8] (k, m) = (8, k', m) \<and> ctr k' = ctr k + of_le (ram_read m a 8))) \<and>
    (\<forall>k m a. ctr k \<noteq> 0 \<longrightarrow>
       (\<exists>k'. sys SYS_READ [as_usize fd, a, 8] (k, m) = (8, k', ram_write a (le_bytes 8 (ctr k)) m) \<and> ctr k' = 0))"

text \<open>A kernel whose state is the count.\<close>

definition counter_sys :: "u64 sys" where
  "counter_sys nr args km =
    (case km of (k, m) \<Rightarrow>
      if nr = SYS_WRITE then (8, k + of_le (ram_read m (args ! 1) 8), m)
      else if nr = SYS_READ then (8, 0, ram_write (args ! 1) (le_bytes 8 k) m)
      else (- 22, k, m))"

lemma counter_sys_counts: "counts_events counter_sys fd id"
  by (simp add: counts_events_def counter_sys_def SYS_WRITE_def SYS_READ_def)

lemma ram_read_u64: "of_le (ram_read (ram_write a (le_bytes 8 (v :: u64)) m) a 8) = v"
  using ram_read_write [of "le_bytes 8 v" a m] by (simp add: of_le_bytes)

lemma event_written:
  assumes "counts_events sys (EventFd_fd e) ctr" "unat (ctr (h_k w)) + unat v < 2 ^ 64 - 1"
  obtains w' where "EventFd_write sys sp e v w = (Ok (), w')" "ctr (h_k w') = ctr (h_k w) + v"
proof -
  have "of_le (ram_read (ram_write sp (le_bytes 8 v) (h_ram w)) sp 8) = v" by (rule ram_read_u64)
  then obtain k' where "sys SYS_WRITE [as_usize (EventFd_fd e), sp, 8] (h_k w, ram_write sp (le_bytes 8 v) (h_ram w)) =
      (8, k', ram_write sp (le_bytes 8 v) (h_ram w))" "ctr k' = ctr (h_k w) + v"
    using assms(1) [unfolded counts_events_def, THEN conjunct1, rule_format, of "h_k w" "ram_write sp (le_bytes 8 v) (h_ram w)" sp]
      assms(2) by auto
  then show thesis
    by (intro that [of "w\<lparr>h_k := k', h_ram := ram_write sp (le_bytes 8 v) (h_ram w)\<rparr>"])
      (simp_all add: EventFd_write_def put_local_def syscall_write_def raw_call_def checked_def or_errno_def)
qed

lemma event_read:
  assumes "counts_events sys (EventFd_fd e) ctr" "ctr (h_k w) \<noteq> 0"
  obtains w' where "EventFd_read sys sp e w = (Ok (ctr (h_k w)), w')" "ctr (h_k w') = 0"
proof -
  obtain k' where "sys SYS_READ [as_usize (EventFd_fd e), sp, 8] (h_k w, ram_write sp (replicate 8 0) (h_ram w)) =
      (8, k', ram_write sp (le_bytes 8 (ctr (h_k w))) (ram_write sp (replicate 8 0) (h_ram w)))" "ctr k' = 0"
    using assms(1) [unfolded counts_events_def, THEN conjunct2, rule_format, OF assms(2), of sp] by blast
  then show thesis
    by (intro that [of "w\<lparr>h_k := k', h_ram := ram_write sp (le_bytes 8 (ctr (h_k w))) (ram_write sp (replicate 8 0) (h_ram w))\<rparr>"])
      (simp_all add: EventFd_read_def put_local_def get_local_def syscall_read_def raw_call_def checked_def or_errno_def ram_read_u64)
qed

section \<open>Properties\<close>

text \<open>C40. Whatever a program does with sockets, files, event counters and watches, in any order and
  with any results, the open descriptors are exactly those of the values it holds and those it
  took out of one: none is leaked, none is closed twice, and when nothing is held none is open.\<close>

theorem descriptors_closed_once:
  assumes "(desk_step sys)\<^sup>*\<^sup>* (desk_init k m) s"
  shows "mset (p_fds (dk_proc s)) = image_mset handle_fd (dk_live s) + dk_loose s \<and> \<not> p_bad (dk_proc s) \<and>
    (dk_live s = {#} \<and> dk_loose s = {#} \<longrightarrow> p_fds (dk_proc s) = [])"
  using desk_reachable_inv [OF assms] by (auto simp: desk_inv_def)

text \<open>A kernel that hands out the descriptors 5, 6, and so on, and fails every close.\<close>

definition count_sys :: "nat sys" where
  "count_sys nr args km =
    (case km of (k, m) \<Rightarrow>
      if nr = SYS_CLOSE then (- 5, k, m)
      else if nr = SYS_EVENTFD2 \<or> nr = SYS_INOTIFY_INIT1 then (of_nat (5 + k), k + 1, m)
      else (- 22, k, m))"

theorem descriptors_closed_once_witness:
  "\<exists>s. (desk_step count_sys)\<^sup>*\<^sup>* (desk_init 0 (\<lambda>_. 0)) s \<and> p_fds (dk_proc s) = [RawFd 5] \<and> dk_loose s = {#RawFd 5#} \<and>
     \<not> p_bad (dk_proc s)"
proof -
  let ?ev = "HEventFd (EventFd (RawFd 5))" and ?no = "HInotify (Inotify (RawFd 6))"
  define s0 where "s0 = (desk_init 0 (\<lambda>_. 0) :: nat desk)"
  define s1 where "s1 = gain HEventFd (EventFd_new count_sys 0 (dk_proc s0)) s0"
  define s2 where "s2 = gain HInotify (Inotify_new count_sys (dk_proc s1)) s1"
  define s3 where "s3 = lose ?no (handle_drop count_sys ?no (dk_proc s2)) s2"
  define s4 where "s4 = s3\<lparr>dk_live := dk_live s3 - {#?ev#}, dk_loose := add_mset (handle_into_fd ?ev) (dk_loose s3)\<rparr>"
  note evaluate = gain_def open_defs or_errno_def checked_fd_def raw_call_def count_sys_def
    SYS_EVENTFD2_def SYS_CLOSE_def SYS_INOTIFY_INIT1_def check_def MAX_ERRNO_def
  have 1: "dk_proc s1 = \<lparr>h_k = 1, h_ram = \<lambda>_. 0, p_fds = [RawFd 5], p_bad = False\<rparr>" "dk_live s1 = {#?ev#}" "dk_loose s1 = {#}"
    by (simp_all add: s1_def s0_def desk_init_def evaluate)
  have 2: "dk_live s2 = {#?no, ?ev#}" "dk_loose s2 = {#}" by (simp_all add: s2_def 1 evaluate)
  have 3: "dk_live s3 = {#?ev#}" "dk_loose s3 = {#}" by (simp_all add: s3_def 2 lose_def)
  have steps: "desk_step count_sys s0 s1" "desk_step count_sys s1 s2" "desk_step count_sys s2 s3" "desk_step count_sys s3 s4"
    subgoal unfolding s1_def by (rule desk_step.open_event)
    subgoal unfolding s2_def by (rule desk_step.open_inotify)
    subgoal unfolding s3_def by (rule desk_step.drop_handle) (simp add: 2)
    subgoal unfolding s4_def by (rule desk_step.take_apart) (simp add: 3)
    done
  then have reach: "(desk_step count_sys)\<^sup>*\<^sup>* (desk_init 0 (\<lambda>_. 0)) s4"
    unfolding s0_def by (meson converse_rtranclp_into_rtranclp rtranclp.rtrancl_refl)
  have "dk_live s4 = {#}" "dk_loose s4 = {#RawFd 5#}" by (simp_all add: s4_def 3 EventFd_into_fd_def)
  with descriptors_closed_once [OF reach] reach show ?thesis by (intro exI [of _ s4]) auto
qed

end
