(* ===== verification/Reports.thy ===== *)
theory Reports
  imports Owned_Msg Owned_Staged
begin

text \<open>
  How the crate reads what the kernel wrote: the status of a file (\<open>Statx\<close> of \<open>src/types/fs.rs\<close>)
  and the fate of a child (\<open>WaitidSiginfo\<close> of \<open>src/types/waitid.rs\<close>) in the destination of a
  redeemed request, and the parts of a message in a provided buffer (\<open>recvmsg_parts\<close> of
  \<open>src/ring/pbuf.rs\<close>). The crate never writes the first two, so only their reading is modelled;
  their filler is read as a list.
\<close>

section \<open>File status\<close>

record StatxTimestamp =
  st_sec :: i64
  st_nsec :: u32
  st_reserved :: i32

definition StatxTimestamp_of_bytes :: "u8 list \<Rightarrow> StatxTimestamp" where
  "StatxTimestamp_of_bytes bs =
     \<lparr>st_sec = of_le (take 8 bs), st_nsec = of_le (take 4 (drop 8 bs)), st_reserved = of_le (take 4 (drop 12 bs))\<rparr>"

record Statx =
  stx_mask :: u32
  stx_blksize :: u32
  stx_attributes :: u64
  stx_nlink :: u32
  stx_uid :: u32
  stx_gid :: u32
  stx_mode :: u16
  stx_spare0 :: u16
  stx_ino :: u64
  stx_size :: u64
  stx_blocks :: u64
  stx_attributes_mask :: u64
  stx_atime :: StatxTimestamp
  stx_btime :: StatxTimestamp
  stx_ctime :: StatxTimestamp
  stx_mtime :: StatxTimestamp
  stx_rdev_major :: u32
  stx_rdev_minor :: u32
  stx_dev_major :: u32
  stx_dev_minor :: u32
  stx_mnt_id :: u64
  stx_dio_mem_align :: u32
  stx_dio_offset_align :: u32
  stx_spare3 :: "u64 list"

definition Statx_of_bytes :: "u8 list \<Rightarrow> Statx" where
  "Statx_of_bytes bs =
     \<lparr>stx_mask = of_le (take 4 bs),
      stx_blksize = of_le (take 4 (drop 4 bs)),
      stx_attributes = of_le (take 8 (drop 8 bs)),
      stx_nlink = of_le (take 4 (drop 16 bs)),
      stx_uid = of_le (take 4 (drop 20 bs)),
      stx_gid = of_le (take 4 (drop 24 bs)),
      stx_mode = of_le (take 2 (drop 28 bs)),
      stx_spare0 = of_le (take 2 (drop 30 bs)),
      stx_ino = of_le (take 8 (drop 32 bs)),
      stx_size = of_le (take 8 (drop 40 bs)),
      stx_blocks = of_le (take 8 (drop 48 bs)),
      stx_attributes_mask = of_le (take 8 (drop 56 bs)),
      stx_atime = StatxTimestamp_of_bytes (take 16 (drop 64 bs)),
      stx_btime = StatxTimestamp_of_bytes (take 16 (drop 80 bs)),
      stx_ctime = StatxTimestamp_of_bytes (take 16 (drop 96 bs)),
      stx_mtime = StatxTimestamp_of_bytes (take 16 (drop 112 bs)),
      stx_rdev_major = of_le (take 4 (drop 128 bs)),
      stx_rdev_minor = of_le (take 4 (drop 132 bs)),
      stx_dev_major = of_le (take 4 (drop 136 bs)),
      stx_dev_minor = of_le (take 4 (drop 140 bs)),
      stx_mnt_id = of_le (take 8 (drop 144 bs)),
      stx_dio_mem_align = of_le (take 4 (drop 152 bs)),
      stx_dio_offset_align = of_le (take 4 (drop 156 bs)),
      stx_spare3 = map (\<lambda>i. of_le (take 8 (drop (160 + 8 * i) bs))) [0..<12]\<rparr>"

definition STATX_TYPE :: u32 where "STATX_TYPE = 0x0001"
definition STATX_MODE :: u32 where "STATX_MODE = 0x0002"
definition STATX_NLINK :: u32 where "STATX_NLINK = 0x0004"
definition STATX_UID :: u32 where "STATX_UID = 0x0008"
definition STATX_GID :: u32 where "STATX_GID = 0x0010"
definition STATX_ATIME :: u32 where "STATX_ATIME = 0x0020"
definition STATX_MTIME :: u32 where "STATX_MTIME = 0x0040"
definition STATX_CTIME :: u32 where "STATX_CTIME = 0x0080"
definition STATX_INO :: u32 where "STATX_INO = 0x0100"
definition STATX_SIZE :: u32 where "STATX_SIZE = 0x0200"
definition STATX_BLOCKS :: u32 where "STATX_BLOCKS = 0x0400"
definition STATX_BASIC_STATS :: u32 where "STATX_BASIC_STATS = 0x07FF"
definition STATX_ALL :: u32 where "STATX_ALL = 0x0FFF"

definition Statx_has :: "Statx \<Rightarrow> u32 \<Rightarrow> bool" where
  "Statx_has s wanted \<longleftrightarrow> stx_mask s AND wanted = wanted"

definition Statx_size :: "Statx \<Rightarrow> u64 option" where
  "Statx_size s = (if Statx_has s STATX_SIZE then Some (stx_size s) else None)"

definition Statx_mode :: "Statx \<Rightarrow> u16 option" where
  "Statx_mode s = (if Statx_has s STATX_MODE then Some (stx_mode s) else None)"

definition Statx_nlink :: "Statx \<Rightarrow> u32 option" where
  "Statx_nlink s = (if Statx_has s STATX_NLINK then Some (stx_nlink s) else None)"

definition Statx_uid :: "Statx \<Rightarrow> u32 option" where
  "Statx_uid s = (if Statx_has s STATX_UID then Some (stx_uid s) else None)"

definition Statx_gid :: "Statx \<Rightarrow> u32 option" where
  "Statx_gid s = (if Statx_has s STATX_GID then Some (stx_gid s) else None)"

definition Statx_ino :: "Statx \<Rightarrow> u64 option" where
  "Statx_ino s = (if Statx_has s STATX_INO then Some (stx_ino s) else None)"

definition Statx_blocks :: "Statx \<Rightarrow> u64 option" where
  "Statx_blocks s = (if Statx_has s STATX_BLOCKS then Some (stx_blocks s) else None)"

definition Statx_mtime :: "Statx \<Rightarrow> StatxTimestamp option" where
  "Statx_mtime s = (if Statx_has s STATX_MTIME then Some (stx_mtime s) else None)"

definition Statx_atime :: "Statx \<Rightarrow> StatxTimestamp option" where
  "Statx_atime s = (if Statx_has s STATX_ATIME then Some (stx_atime s) else None)"

definition Statx_ctime :: "Statx \<Rightarrow> StatxTimestamp option" where
  "Statx_ctime s = (if Statx_has s STATX_CTIME then Some (stx_ctime s) else None)"

section \<open>What a status reports\<close>

lemmas statx_mask_defs =
  STATX_TYPE_def STATX_MODE_def STATX_NLINK_def STATX_UID_def STATX_GID_def STATX_ATIME_def
  STATX_MTIME_def STATX_CTIME_def STATX_INO_def STATX_SIZE_def STATX_BLOCKS_def STATX_BASIC_STATS_def STATX_ALL_def

text \<open>The reference that \<open>stat\<close> lends, read from the memory the kernel left.\<close>

definition stat_read :: "('s, 'd) StatxCompleted \<Rightarrow> ram \<Rightarrow> Statx option" where
  "stat_read d m = map_option (\<lambda>s. Statx_of_bytes (ram_read m (sl_ptr s) (unat (sl_len s)))) (StatxCompleted_stat d)"

lemma and_single_bit: "(x :: 'a::len word) AND 2 ^ k = 2 ^ k \<longleftrightarrow> bit x k" if "k < LENGTH('a)"
  using that by (auto simp: bit_and_iff bit_exp_iff intro!: bit_word_eqI dest: arg_cong [where f = "\<lambda>w. bit w k"])

lemma has_single_bit: "k < 32 \<Longrightarrow> Statx_has s (2 ^ k) \<longleftrightarrow> bit (stx_mask s) k"
  by (simp add: Statx_has_def and_single_bit)

text \<open>An accessor reports its field exactly when the kernel set the bit of that field.\<close>

lemma statx_accessors:
  shows "Statx_size s = Some v \<longleftrightarrow> bit (stx_mask s) 9 \<and> v = stx_size s"
    and "Statx_mode s = Some h \<longleftrightarrow> bit (stx_mask s) 1 \<and> h = stx_mode s"
    and "Statx_nlink s = Some x \<longleftrightarrow> bit (stx_mask s) 2 \<and> x = stx_nlink s"
    and "Statx_uid s = Some x \<longleftrightarrow> bit (stx_mask s) 3 \<and> x = stx_uid s"
    and "Statx_gid s = Some x \<longleftrightarrow> bit (stx_mask s) 4 \<and> x = stx_gid s"
    and "Statx_ino s = Some v \<longleftrightarrow> bit (stx_mask s) 8 \<and> v = stx_ino s"
    and "Statx_blocks s = Some v \<longleftrightarrow> bit (stx_mask s) 10 \<and> v = stx_blocks s"
    and "Statx_mtime s = Some t \<longleftrightarrow> bit (stx_mask s) 6 \<and> t = stx_mtime s"
    and "Statx_atime s = Some t \<longleftrightarrow> bit (stx_mask s) 5 \<and> t = stx_atime s"
    and "Statx_ctime s = Some t \<longleftrightarrow> bit (stx_mask s) 7 \<and> t = stx_ctime s"
  using has_single_bit [of 9 s] has_single_bit [of 1 s] has_single_bit [of 2 s] has_single_bit [of 3 s] has_single_bit [of 4 s] has_single_bit [of 8 s] has_single_bit [of 10 s] has_single_bit [of 6 s] has_single_bit [of 5 s] has_single_bit [of 7 s]
  by (auto simp: Statx_size_def Statx_mode_def Statx_nlink_def Statx_uid_def Statx_gid_def Statx_ino_def Statx_blocks_def Statx_mtime_def Statx_atime_def Statx_ctime_def statx_mask_defs)

text \<open>
  A redeemed request reads the 256 bytes of its destination, where the entry told the kernel
  to put them, when the completion succeeded, and nothing when it failed.
\<close>

lemma stat_reads_destination:
  assumes "PreparedStatx_at sb sd dir path flags msk dest = Ok p"
    and "PreparedStatx_into_pending p ring i = (sqe, t)"
    and "PendingStatx_redeem t r = Ok d"
  shows "sqe_off sqe = stable_mut_ptr sd dest"
    and "stat_read d m =
      (if sint (rc_result r) < 0 then None else Some (Statx_of_bytes (ram_read m (stable_mut_ptr sd dest) 256)))"
    and "256 \<le> unat (stable_len sd dest)"
proof -
  have p: "psx_dest_addr p = stable_mut_ptr sd dest" "\<not> stable_len sd dest < SIZEOF_Statx"
    using assms(1) by (auto simp: PreparedStatx_at_def Let_def split: if_splits)
  then show "256 \<le> unat (stable_len sd dest)" by (simp add: SIZEOF_Statx_def word_less_nat_alt)
  show "sqe_off sqe = stable_mut_ptr sd dest"
    using assms(2) p(1) by (auto simp: PreparedStatx_into_pending_def Let_def Sqe_user_data_def Sqe_statx_ptr_def)
  have "dsx_dest_addr d = stable_mut_ptr sd dest" "dsx_result d = rc_result r"
    using assms(2, 3) p(1)
    by (auto simp: PreparedStatx_into_pending_def PendingStatx_redeem_def Let_def split: if_splits)
  then show "stat_read d m =
      (if sint (rc_result r) < 0 then None else Some (Statx_of_bytes (ram_read m (stable_mut_ptr sd dest) 256)))"
    by (simp add: stat_read_def StatxCompleted_stat_def SIZEOF_Statx_def)
qed

section \<open>The fate of a child\<close>

datatype ChildEvent = Exited | Killed | Dumped | Trapped | Stopped | Continued | OtherEvent i32

definition ChildEvent_from_code :: "i32 \<Rightarrow> ChildEvent" where
  "ChildEvent_from_code code =
    (if code = 1 then Exited else if code = 2 then Killed else if code = 3 then Dumped
     else if code = 4 then Trapped else if code = 5 then Stopped else if code = 6 then Continued
     else OtherEvent code)"

record WaitidSiginfo =
  si_signo :: i32
  si_errno :: i32
  si_code :: i32
  si_pad0 :: i32
  si_pid :: i32
  si_uid :: u32
  si_status :: i32
  si_reserved :: "u8 list"

definition WaitidSiginfo_of_bytes :: "u8 list \<Rightarrow> WaitidSiginfo" where
  "WaitidSiginfo_of_bytes bs =
     \<lparr>si_signo = of_le (take 4 bs), si_errno = of_le (take 4 (drop 4 bs)), si_code = of_le (take 4 (drop 8 bs)),
      si_pad0 = of_le (take 4 (drop 12 bs)), si_pid = of_le (take 4 (drop 16 bs)), si_uid = of_le (take 4 (drop 20 bs)),
      si_status = of_le (take 4 (drop 24 bs)), si_reserved = take 100 (drop 28 bs)\<rparr>"

definition WaitidSiginfo_event :: "WaitidSiginfo \<Rightarrow> ChildEvent" where
  "WaitidSiginfo_event s = ChildEvent_from_code (si_code s)"

definition info_read :: "'d WaitIdCompleted \<Rightarrow> ram \<Rightarrow> WaitidSiginfo option" where
  "info_read d m = map_option (\<lambda>s. WaitidSiginfo_of_bytes (ram_read m (sl_ptr s) (unat (sl_len s)))) (WaitIdCompleted_info d)"

fun event_code :: "ChildEvent \<Rightarrow> i32" where
  "event_code Exited = 1"
| "event_code Killed = 2"
| "event_code Dumped = 3"
| "event_code Trapped = 4"
| "event_code Stopped = 5"
| "event_code Continued = 6"
| "event_code (OtherEvent c) = c"

text \<open>No code is lost, and the named events are never reported as another code.\<close>

lemma event_code_from_code: "event_code (ChildEvent_from_code c) = c"
  by (simp add: ChildEvent_from_code_def)

lemma from_code_other: "ChildEvent_from_code c = OtherEvent d \<longleftrightarrow> d = c \<and> c \<notin> {1, 2, 3, 4, 5, 6}"
  by (auto simp: ChildEvent_from_code_def)

section \<open>A message in a provided buffer\<close>

text \<open>The outer \<open>option\<close> is the panic of the parser, as there.\<close>

definition pbuf_recvmsg_parts :: "ProvidedBufferRing \<Rightarrow> ram \<Rightarrow> u16 \<Rightarrow> u32 \<Rightarrow> u32 \<Rightarrow> u32 \<Rightarrow> RecvmsgParts option option" where
  "pbuf_recvmsg_parts p m buf_id l namelen controllen =
    (case pbuf_buffer p buf_id l of
       None \<Rightarrow> Some None
     | Some buf \<Rightarrow> RecvmsgOut_parse (ram_read m (sl_ptr buf) (unat (sl_len buf))) namelen controllen)"

definition Consumer_recvmsg_parts :: "BufferConsumer \<Rightarrow> ram \<Rightarrow> u16 \<Rightarrow> u32 \<Rightarrow> u32 \<Rightarrow> u32 \<Rightarrow> RecvmsgParts option option" where
  "Consumer_recvmsg_parts c m buf_id l namelen controllen =
    (case pbuf_buffer (inner c) buf_id l of
       None \<Rightarrow> Some None
     | Some buf \<Rightarrow> RecvmsgOut_parse (ram_read m (sl_ptr buf) (unat (sl_len buf))) namelen controllen)"

lemma pbuf_buffer_place:
  "pbuf_buffer p i l = Some s \<Longrightarrow>
   sl_ptr s = pb_bufs_addr p + ucast i * ucast (pb_buf_size p) \<and> unat (sl_len s) = unat l \<and> l \<le> pb_buf_size p"
  by (auto simp: pbuf_buffer_def buffer_slice_def Let_def unat_ucast_up not_less split: if_splits)

text \<open>C35. What a multishot receive delivers into a provided buffer is split without ever reading
  outside that buffer. An id the pool does not have, a length beyond the buffer and a delivery
  too short for the header and the two reserved regions are refused. Any other is a header,
  the two regions and a payload, and the result is that header and payload, and of each region
  the bytes the header says are there, never more than were reserved.\<close>

theorem pool_message_parsed:
  "(pb_entries p \<le> ucast i \<or> pb_buf_size p < l \<or> unat l < 16 + unat n + unat c \<longrightarrow>
      pbuf_recvmsg_parts p m i l n c = Some None) \<and>
   (\<forall>h nr cr payload. ucast i < pb_entries p \<longrightarrow> l \<le> pb_buf_size p \<longrightarrow>
      ram_read m (pb_bufs_addr p + ucast i * ucast (pb_buf_size p)) (unat l) = RecvmsgOut_bytes h @ nr @ cr @ payload \<longrightarrow>
      length nr = unat n \<longrightarrow> length cr = unat c \<longrightarrow>
      pbuf_recvmsg_parts p m i l n c =
        Some (Some \<lparr>rp_header = h, rp_name = take (min (unat (ro_namelen h)) (unat n)) nr,
          rp_control = take (min (unat (ro_controllen h)) (unat c)) cr, rp_payload = payload\<rparr>)) \<and>
   Consumer_recvmsg_parts (ProvidedBufferRing_split p) m i l n c = pbuf_recvmsg_parts p m i l n c"
proof (cases "pbuf_buffer p i l")
  case None
  then have "\<not> (ucast i < pb_entries p \<and> l \<le> pb_buf_size p)"
    by (auto simp: pbuf_buffer_def buffer_slice_def Let_def not_less split: if_splits)
  then show ?thesis using None
    by (auto simp: pbuf_recvmsg_parts_def Consumer_recvmsg_parts_def ProvidedBufferRing_split_def)
next
  case (Some s)
  let ?buf = "ram_read m (pb_bufs_addr p + ucast i * ucast (pb_buf_size p)) (unat l)"
  have parts: "pbuf_recvmsg_parts p m i l n c = RecvmsgOut_parse ?buf n c"
    "Consumer_recvmsg_parts (ProvidedBufferRing_split p) m i l n c = RecvmsgOut_parse ?buf n c"
    using Some pbuf_buffer_place [OF Some]
    by (simp_all add: pbuf_recvmsg_parts_def Consumer_recvmsg_parts_def ProvidedBufferRing_split_def)
  have small: "length ?buf < 2 ^ 63" using unat_u32_less [of l] by simp
  have "\<not> (pb_entries p \<le> ucast i \<or> pb_buf_size p < l)"
    using Some by (auto simp: pbuf_buffer_def buffer_slice_def Let_def split: if_splits)
  then show ?thesis unfolding parts using recvmsg_out_parsed [OF small, of n c] by simp
qed

text \<open>Two buffers of 32 bytes at \<open>0x1000\<close>; a message of four bytes lies in the second.\<close>

definition ex_message_pool :: ProvidedBufferRing where
  "ex_message_pool = fresh_pool 0 (RawFd 3) 1 2 0x8000 4096 0x1000 64 32"

theorem pool_message_parsed_witness:
  "pbuf_recvmsg_parts ex_message_pool (ram_write 0x1020 (RecvmsgOut_bytes \<lparr>ro_namelen = 9, ro_controllen = 0, ro_payloadlen = 4,
      ro_flags = 0\<rparr> @ [7, 8] @ [] @ [1, 2, 3, 4]) (\<lambda>_. 0)) 1 22 2 0 =
    Some (Some \<lparr>rp_header = \<lparr>ro_namelen = 9, ro_controllen = 0, ro_payloadlen = 4, ro_flags = 0\<rparr>, rp_name = [7, 8],
      rp_control = [], rp_payload = [1, 2, 3, 4]\<rparr>)"
proof -
  let ?h = "\<lparr>ro_namelen = 9, ro_controllen = 0, ro_payloadlen = 4, ro_flags = 0\<rparr>"
  let ?bs = "RecvmsgOut_bytes ?h @ [7, 8] @ [] @ [1, 2, 3, 4]"
  have len: "length ?bs = 22" by (simp add: RecvmsgOut_bytes_def)
  have f: "pb_entries ex_message_pool = 2" "pb_buf_size ex_message_pool = 32" "pb_bufs_addr ex_message_pool = 0x1000"
    by (simp_all add: ex_message_pool_def fresh_pool_def)
  have "ram_read (ram_write 0x1020 ?bs (\<lambda>_. 0)) (0x1000 + ucast (1 :: u16) * ucast (32 :: u32)) (unat (22 :: u32)) = ?bs"
    using ram_read_write [of ?bs "0x1020" "\<lambda>_. 0"] len by simp
  then show ?thesis
    using pool_message_parsed [where p = ex_message_pool and i = 1 and l = 22 and n = 2 and c = 0 and
      m = "ram_write 0x1020 ?bs (\<lambda>_. 0)", THEN conjunct2, THEN conjunct1,
      rule_format, of ?h "[7, 8]" "[]" "[1, 2, 3, 4]"]
    by (simp add: f)
qed

end
